(* ===== verification/Prelude.thy ===== *)
theory Prelude
  imports Main "HOL-Library.Sublist" "HOL-Library.Multiset" "HOL-Library.AList"
    "HOL-Library.Char_ord" "HOL-Library.List_Lexorder"
begin

text \<open>
  Shared vocabulary of the development: the error values of the Go code, Go's error-returning
  loops, the string functions of package \<^verbatim>\<open>strings\<close> the code calls, and Go maps with their
  unspecified iteration order.

  A Go \<^verbatim>\<open>error\<close> result is a \<open>go_error option\<close> (\<open>None\<close> is nil); a function that returns a value and
  an error returns \<open>go_error + 'a\<close>. Strings are byte lists (\<open>string\<close>), as in Go.
\<close>

named_theorems go_simps "defining equations used to evaluate the small helpers of the model"

section \<open>Errors\<close>

text \<open>\<open>ConfigErr\<close> is \<^verbatim>\<open>*db.ConfigValidationError\<close> with its parameter and reason; the next two are the
  sentinel errors of package db; \<open>OtherErr\<close> is any other \<^verbatim>\<open>fmt.Errorf\<close> value, by its text; \<open>Wrapped\<close> is
  \<^verbatim>\<open>fmt.Errorf("...: %w", err)\<close>, by its prefix and the error inside; \<open>GoPanic\<close> is a run-time panic, which leaves the function like an error nobody returned.\<close>

datatype go_error =
    ConfigErr string string
  | MetadataUnresolved
  | DataWindowUnsupported
  | OtherErr string
  | Wrapped string go_error
  | GoPanic string

type_synonym 'a result = "go_error + 'a"

text \<open>A loop whose body may return an error: the first error ends it.\<close>

fun first_err :: "('a \<Rightarrow> go_error option) \<Rightarrow> 'a list \<Rightarrow> go_error option" where
  "first_err f [] = None"
| "first_err f (x # xs) = (case f x of Some e \<Rightarrow> Some e | None \<Rightarrow> first_err f xs)"

lemma first_err_None_iff [simp]: "first_err f xs = None \<longleftrightarrow> (\<forall>x \<in> set xs. f x = None)"
  by (induction xs) (auto split: option.splits)

lemma first_err_Some: "first_err f xs = Some e \<Longrightarrow> \<exists>x \<in> set xs. f x = Some e"
  by (induction xs) (auto split: option.splits)

text \<open>A loop whose body may return a value: the first value ends it.\<close>

fun first_return :: "('a \<Rightarrow> 'b option) \<Rightarrow> 'a list \<Rightarrow> 'b option" where
  "first_return f [] = None"
| "first_return f (x # xs) = (case f x of Some r \<Rightarrow> Some r | None \<Rightarrow> first_return f xs)"

lemma first_return_None_iff [simp]: "first_return f xs = None \<longleftrightarrow> (\<forall>x \<in> set xs. f x = None)"
  by (induction xs) (auto split: option.splits)

lemma first_return_Some: "first_return f xs = Some r \<Longrightarrow> \<exists>x \<in> set xs. f x = Some r"
  by (induction xs) (auto split: option.splits)

text \<open>Sequencing of two checks: the second runs when the first returned nil.\<close>

definition and_then :: "go_error option \<Rightarrow> go_error option \<Rightarrow> go_error option" where
  "and_then a b = (case a of Some e \<Rightarrow> Some e | None \<Rightarrow> b)"

lemma and_then_None_iff [simp]: "and_then a b = None \<longleftrightarrow> a = None \<and> b = None"
  by (auto simp: and_then_def split: option.splits)

lemma and_then_simps [simp]: "and_then None b = b" "and_then (Some e) b = Some e"
  by (simp_all add: and_then_def)

text \<open>\<^verbatim>\<open>fmt.Errorf("prefix: %w", err)\<close> around a check.\<close>

definition wrap_err :: "string \<Rightarrow> go_error option \<Rightarrow> go_error option" where
  "wrap_err msg e = map_option (Wrapped msg) e"

lemma wrap_err_None [simp]: "wrap_err p e = None \<longleftrightarrow> e = None"
  by (simp add: wrap_err_def)

section \<open>Text of messages\<close>

definition digit_char :: "nat \<Rightarrow> char" where
  "digit_char d = char_of (48 + d mod 10)"

fun nat_str :: "nat \<Rightarrow> string" where
  "nat_str n = (if n < 10 then [digit_char n] else nat_str (n div 10) @ [digit_char (n mod 10)])"

declare nat_str.simps [simp del]

definition int_str :: "int \<Rightarrow> string" where
  "int_str i = (if i < 0 then ''-'' @ nat_str (nat (- i)) else nat_str (nat i))"

text \<open>The \<^verbatim>\<open>%q\<close> verb; the escaping of quotes and unprintable characters is left out.\<close>

definition quoted :: "string \<Rightarrow> string" where
  "quoted s = CHR 0x22 # s @ [CHR 0x22]"

lemma nat_str_nonempty [simp]: "nat_str n \<noteq> []"
  by (subst nat_str.simps) simp

section \<open>Package strings\<close>

definition has_prefix :: "string \<Rightarrow> string \<Rightarrow> bool" where
  "has_prefix s p \<longleftrightarrow> take (length p) s = p"

definition trim_prefix :: "string \<Rightarrow> string \<Rightarrow> string" where
  "trim_prefix s p = (if has_prefix s p then drop (length p) s else s)"

definition has_suffix :: "string \<Rightarrow> string \<Rightarrow> bool" where
  "has_suffix s p \<longleftrightarrow> has_prefix (rev s) (rev p)"

lemma has_prefix_Nil [simp]: "has_prefix s []"
  by (simp add: has_prefix_def)

lemma has_prefix_append [simp]: "has_prefix (p @ s) p"
  by (simp add: has_prefix_def)

lemma has_prefixE: "has_prefix s p \<Longrightarrow> \<exists>t. s = p @ t"
  by (metis append_take_drop_id has_prefix_def)

text \<open>\<^verbatim>\<open>strings.Split(s, sep)\<close> for a one-byte separator.\<close>

fun split_on :: "char \<Rightarrow> string \<Rightarrow> string list" where
  "split_on c [] = [[]]"
| "split_on c (x # xs) =
     (if x = c then [] # split_on c xs
      else (case split_on c xs of [] \<Rightarrow> [[x]] | p # ps \<Rightarrow> (x # p) # ps))"

lemma split_on_nonempty [simp]: "split_on c s \<noteq> []"
  by (induction s) (auto split: list.splits)

lemma split_on_no_sep: "p \<in> set (split_on c s) \<Longrightarrow> c \<notin> set p"
proof (induction s arbitrary: p)
  case (Cons x xs)
  then show ?case
    by (cases "split_on c xs") (auto split: if_splits)
qed simp

lemma length_split_on: "length (split_on c s) = Suc (count_list s c)"
  by (induction s) (auto split: list.splits)

lemma split_on_absent: "c \<notin> set s \<Longrightarrow> split_on c s = [s]"
  by (induction s) auto

lemma split_on_append_sep: "split_on c (p @ c # s) = split_on c p @ split_on c s"
  by (induction p) (auto split: list.splits)

text \<open>White space as \<^verbatim>\<open>unicode.IsSpace\<close> has it, in UTF-8.\<close>

definition space_encodings :: "string list" where
  "space_encodings =
     [[CHR 0x20], [CHR 0x09], [CHR 0x0A], [CHR 0x0B], [CHR 0x0C], [CHR 0x0D],
      [CHR 0xC2, CHR 0x85], [CHR 0xC2, CHR 0xA0], [CHR 0xE1, CHR 0x9A, CHR 0x80],
      [CHR 0xE2, CHR 0x80, CHR 0x80], [CHR 0xE2, CHR 0x80, CHR 0x81],
      [CHR 0xE2, CHR 0x80, CHR 0x82], [CHR 0xE2, CHR 0x80, CHR 0x83],
      [CHR 0xE2, CHR 0x80, CHR 0x84], [CHR 0xE2, CHR 0x80, CHR 0x85],
      [CHR 0xE2, CHR 0x80, CHR 0x86], [CHR 0xE2, CHR 0x80, CHR 0x87],
      [CHR 0xE2, CHR 0x80, CHR 0x88], [CHR 0xE2, CHR 0x80, CHR 0x89],
      [CHR 0xE2, CHR 0x80, CHR 0x8A], [CHR 0xE2, CHR 0x80, CHR 0xA8],
      [CHR 0xE2, CHR 0x80, CHR 0xA9], [CHR 0xE2, CHR 0x80, CHR 0xAF],
      [CHR 0xE2, CHR 0x81, CHR 0x9F], [CHR 0xE3, CHR 0x80, CHR 0x80]]"

definition leading :: "string list \<Rightarrow> string \<Rightarrow> nat" where
  "leading ps s = (case find (\<lambda>p. has_prefix s p) ps of Some p \<Rightarrow> length p | None \<Rightarrow> 0)"

lemma leading_le: "leading ps s \<le> length s"
  by (auto simp: leading_def find_Some_iff has_prefix_def split: option.splits)
    (metis length_take min.cobounded1)

function strip_left :: "string list \<Rightarrow> string \<Rightarrow> string" where
  "strip_left ps s = (let n = leading ps s in if n = 0 then s else strip_left ps (drop n s))"
  by pat_completeness auto
termination
proof (relation "measure (\<lambda>(ps, s). length s)")
  fix ps :: "string list" and s :: string and n
  assume n: "n = leading ps s" "n \<noteq> 0"
  with leading_le [of ps s] show "((ps, drop n s), ps, s) \<in> measure (\<lambda>(ps, s). length s)"
    by auto
qed simp

declare strip_left.simps [simp del]

definition trim_left_space :: "string \<Rightarrow> string" where
  "trim_left_space s = strip_left space_encodings s"

definition trim_space :: "string \<Rightarrow> string" where
  "trim_space s = rev (strip_left (map rev space_encodings) (rev (trim_left_space s)))"

lemma length_strip_left: "length (strip_left ps s) \<le> length s"
proof (induction ps s rule: strip_left.induct)
  case (1 ps s)
  show ?case
  proof (cases "leading ps s = 0")
    case False
    then have "length (strip_left ps (drop (leading ps s) s)) \<le> length s"
      using "1.IH" [OF refl] by simp
    with False show ?thesis by (subst strip_left.simps) (simp add: Let_def)
  qed (subst strip_left.simps, simp)
qed

lemma length_trim_left_space: "length (trim_left_space s) \<le> length s"
  by (simp add: trim_left_space_def length_strip_left)

lemma length_trim_space: "length (trim_space s) \<le> length s"
  using length_strip_left length_trim_left_space
  by (metis (no_types, lifting) length_rev order_trans trim_space_def)

lemma trim_space_Nil [simp]: "trim_space [] = []"
  using length_trim_space [of "[]"] by simp

text \<open>ASCII case mapping. \<open>to_upper\<close> also maps the two runes outside ASCII whose upper case is an
  ASCII letter (dotless i and long s); every other byte outside ASCII stays outside ASCII under
  \<^verbatim>\<open>strings.ToUpper\<close> and is left as it is.\<close>

definition lower_char :: "char \<Rightarrow> char" where
  "lower_char c = (let n = of_char c :: nat in if 65 \<le> n \<and> n \<le> 90 then char_of (n + 32) else c)"

definition upper_char :: "char \<Rightarrow> char" where
  "upper_char c = (let n = of_char c :: nat in if 97 \<le> n \<and> n \<le> 122 then char_of (n - 32) else c)"

definition to_lower :: "string \<Rightarrow> string" where
  "to_lower s = map lower_char s"

fun to_upper :: "string \<Rightarrow> string" where
  "to_upper [] = []"
| "to_upper (c # cs) =
     (case cs of
        d # ds \<Rightarrow>
          if c = CHR 0xC4 \<and> d = CHR 0xB1 then CHR ''I'' # to_upper ds
          else if c = CHR 0xC5 \<and> d = CHR 0xBF then CHR ''S'' # to_upper ds
          else upper_char c # to_upper cs
      | [] \<Rightarrow> [upper_char c])"

section \<open>Go maps\<close>

text \<open>
  A Go map is an association list with distinct keys. Go leaves the order of \<^verbatim>\<open>range\<close> over a map
  unspecified; a definition that ranges over one takes the order as an argument \<open>ord\<close>, a function
  that permutes the list of keys, and a theorem about it quantifies over every such function.
\<close>

type_synonym 'v gomap = "(string \<times> 'v) list"

type_synonym order = "string list \<Rightarrow> string list"

definition range_order :: "order \<Rightarrow> bool" where
  "range_order ord \<longleftrightarrow> (\<forall>ks. mset (ord ks) = mset ks)"

lemma range_order_set: "range_order ord \<Longrightarrow> set (ord ks) = set ks"
  unfolding range_order_def by (metis set_mset_mset)

lemma range_order_distinct: "range_order ord \<Longrightarrow> distinct (ord ks) = distinct ks"
  unfolding range_order_def by (rule mset_eq_imp_distinct_iff) (erule spec)

lemma range_order_id: "range_order (\<lambda>ks. ks)"
  by (simp add: range_order_def)

lemma range_order_rev: "range_order rev"
  by (simp add: range_order_def)

text \<open>Filling a map from key/value pairs in the order given: a later pair wins.\<close>

definition last_wins :: "(string \<times> 'v) list \<Rightarrow> 'v gomap" where
  "last_wins kvs = rev (AList.clearjunk (rev kvs))"

definition keys :: "'v gomap \<Rightarrow> string list" where
  "keys m = map fst m"

lemma distinct_keys_last_wins [simp]: "distinct (keys (last_wins kvs))"
  by (simp add: keys_def last_wins_def rev_map [symmetric] distinct_clearjunk)

lemma map_of_rev_keys: "distinct (map fst m) \<Longrightarrow> map_of (rev m) = map_of m"
  by (rule map_of_inject_set [THEN iffD2]) (auto simp: rev_map [symmetric])

lemma map_of_last_wins: "map_of (last_wins kvs) = map_of (rev kvs)"
proof -
  have "map_of (rev (AList.clearjunk (rev kvs))) = map_of (AList.clearjunk (rev kvs))"
    by (rule map_of_rev_keys) (simp add: distinct_clearjunk)
  then show ?thesis by (simp add: last_wins_def map_of_clearjunk)
qed

lemma keys_Nil [simp]: "keys [] = []"
  by (simp add: keys_def)

lemma set_keys: "set (keys m) = dom (map_of m)"
  by (simp add: keys_def dom_map_of_conv_image_fst)

lemma last_wins_distinct: "distinct (map fst kvs) \<Longrightarrow> last_wins kvs = kvs"
  by (simp add: last_wins_def distinct_clearjunk_id rev_map [symmetric])

end
