(* ===== verification/GoNumbers.thy ===== *)
theory GoNumbers
  imports Complex_Main Prelude
begin

text \<open>
  Go's number parsing (package \<^verbatim>\<open>strconv\<close>), as far as the code uses it: \<open>parse_int\<close> is
  \<^verbatim>\<open>ParseInt(s, 10, 64)\<close> and \<^verbatim>\<open>Atoi\<close>, \<open>parse_float\<close> is \<^verbatim>\<open>ParseFloat(s, 64)\<close>.
  A finite \<^verbatim>\<open>float64\<close> is the rational it denotes, so that comparisons are those of the code; the
  rounding to 53 bits, half to even, is written out, and an out-of-range value is an error.
\<close>

section \<open>Integers\<close>

fun digits_val :: "nat \<Rightarrow> string \<Rightarrow> nat option" where
  "digits_val acc [] = Some acc"
| "digits_val acc (c # cs) =
     (let n = of_char c :: nat in
      if 48 \<le> n \<and> n \<le> 57 then digits_val (10 * acc + (n - 48)) cs else None)"

definition int64_range :: "int \<Rightarrow> bool" where
  "int64_range i \<longleftrightarrow> - (2 ^ 63) \<le> i \<and> i < 2 ^ 63"

definition parse_int :: "string \<Rightarrow> int option" where
  "parse_int s =
     (let (neg, body) = (case s of
          c # cs \<Rightarrow> if c = CHR ''-'' then (True, cs) else if c = CHR ''+'' then (False, cs) else (False, s)
        | [] \<Rightarrow> (False, []))
      in if body = [] then None
         else (case digits_val 0 body of
             None \<Rightarrow> None
           | Some n \<Rightarrow>
               (let i = (if neg then - int n else int n)
                in if int64_range i then Some i else None)))"

lemma parse_int_range: "parse_int s = Some i \<Longrightarrow> int64_range i"
  by (auto simp: parse_int_def Let_def split: prod.splits if_splits option.splits)

section \<open>Floating-point numbers\<close>

datatype f64 = Fin rat | NegZero | PosInf | NegInf | NaN

fun bitlen :: "nat \<Rightarrow> nat" where
  "bitlen n = (if n = 0 then 0 else Suc (bitlen (n div 2)))"

declare bitlen.simps [simp del]

definition pow2 :: "int \<Rightarrow> rat" where
  "pow2 e = (if 0 \<le> e then 2 ^ nat e else 1 / 2 ^ nat (- e))"

text \<open>The exponent of the leading bit of a positive rational.\<close>

definition floor_log2 :: "rat \<Rightarrow> int" where
  "floor_log2 q =
     (let (p, d) = quotient_of q; k = int (bitlen (nat p)) - int (bitlen (nat d))
      in if pow2 k \<le> q then k else k - 1)"

definition round_half_even :: "rat \<Rightarrow> int" where
  "round_half_even q =
     (let f = \<lfloor>q\<rfloor>; r = q - of_int f
      in if r < 1 / 2 then f else if 1 / 2 < r then f + 1 else if even f then f else f + 1)"

definition f64_of_rat :: "bool \<Rightarrow> rat \<Rightarrow> f64 option" where
  "f64_of_rat neg q =
     (if q = 0 then Some (if neg then NegZero else Fin 0)
      else (let ulp = pow2 (max (floor_log2 q - 52) (- 1074)); v = of_int (round_half_even (q / ulp)) * ulp
            in if v = 0 then Some (if neg then NegZero else Fin 0)
               else if 2 ^ 1024 \<le> v then None
               else Some (Fin (if neg then - v else v))))"

definition digit_val :: "nat \<Rightarrow> char \<Rightarrow> nat option" where
  "digit_val base c =
     (let n = of_char (lower_char c) :: nat in
      if 48 \<le> n \<and> n \<le> 57 then Some (n - 48)
      else if base = 16 \<and> 97 \<le> n \<and> n \<le> 102 then Some (n - 87) else None)"

text \<open>The mantissa loop: value, digits after the point, whether a digit was seen, the rest.\<close>

fun read_mantissa ::
  "nat \<Rightarrow> bool \<Rightarrow> nat \<Rightarrow> nat \<Rightarrow> bool \<Rightarrow> string \<Rightarrow> nat \<times> nat \<times> bool \<times> string" where
  "read_mantissa base dot acc fr seen [] = (acc, fr, seen, [])"
| "read_mantissa base dot acc fr seen (c # cs) =
     (if c = CHR ''_'' then read_mantissa base dot acc fr seen cs
      else if c = CHR ''.'' then
        (if dot then (acc, fr, seen, c # cs) else read_mantissa base True acc fr seen cs)
      else (case digit_val base c of
          Some d \<Rightarrow> read_mantissa base dot (acc * base + d) (if dot then fr + 1 else fr) True cs
        | None \<Rightarrow> (acc, fr, seen, c # cs)))"

fun read_exponent :: "nat \<Rightarrow> bool \<Rightarrow> string \<Rightarrow> nat option" where
  "read_exponent acc seen [] = (if seen then Some acc else None)"
| "read_exponent acc seen (c # cs) =
     (if c = CHR ''_'' then (if seen then read_exponent acc seen cs else None)
      else (case digit_val 10 c of
          Some d \<Rightarrow> read_exponent (if acc < 10000 then acc * 10 + d else acc) True cs
        | None \<Rightarrow> None))"

datatype saw = SawStart | SawDigit | SawUnderscore | SawOther

fun underscore_ok :: "bool \<Rightarrow> saw \<Rightarrow> string \<Rightarrow> bool" where
  "underscore_ok hex sw [] \<longleftrightarrow> sw \<noteq> SawUnderscore"
| "underscore_ok hex sw (c # cs) \<longleftrightarrow>
     (if digit_val (if hex then 16 else 10) c \<noteq> None then underscore_ok hex SawDigit cs
      else if c = CHR ''_'' then sw = SawDigit \<and> underscore_ok hex SawUnderscore cs
      else sw \<noteq> SawUnderscore \<and> underscore_ok hex SawOther cs)"

definition split_sign :: "string \<Rightarrow> bool \<times> string" where
  "split_sign s = (case s of
       c # cs \<Rightarrow> if c = CHR ''-'' then (True, cs) else if c = CHR ''+'' then (False, cs) else (False, s)
     | [] \<Rightarrow> (False, []))"

definition parse_special :: "string \<Rightarrow> f64 option" where
  "parse_special s =
     (let (neg, b) = split_sign s
      in if to_lower b = ''inf'' \<or> to_lower b = ''infinity'' then Some (if neg then NegInf else PosInf)
         else if to_lower s = ''nan'' then Some NaN else None)"

definition read_float :: "string \<Rightarrow> (bool \<times> rat) option" where
  "read_float s =
     (let (neg, b) = split_sign s;
          hex = (2 < length b \<and> b ! 0 = CHR ''0'' \<and> lower_char (b ! 1) = CHR ''x'');
          base = (if hex then 16 else 10 :: nat);
          body = (if hex then drop 2 b else b);
          (acc, fr, seen, rest) = read_mantissa base False 0 0 False body;
          m = of_nat acc / of_nat base ^ fr :: rat;
          ok = (CHR ''_'' \<in> set s \<longrightarrow> underscore_ok hex (if hex then SawDigit else SawStart) body)
      in if \<not> seen \<or> \<not> ok then None
         else (case rest of
             [] \<Rightarrow> if hex then None else Some (neg, m)
           | c # cs \<Rightarrow>
               if lower_char c = (if hex then CHR ''p'' else CHR ''e'') then
                 (let (eneg, ds) = split_sign cs
                  in map_option (\<lambda>e. (neg, if eneg then m / (if hex then 2 else 10) ^ e
                                           else m * (if hex then 2 else 10) ^ e))
                       (read_exponent 0 False ds))
               else None))"

definition parse_float :: "string \<Rightarrow> f64 option" where
  "parse_float s = (case parse_special s of
       Some v \<Rightarrow> Some v
     | None \<Rightarrow> (case read_float s of None \<Rightarrow> None | Some (neg, q) \<Rightarrow> f64_of_rat neg q))"

text \<open>The order of finite values; the two zeros are equal.\<close>

fun finite_value :: "f64 \<Rightarrow> rat option" where
  "finite_value (Fin q) = Some q"
| "finite_value NegZero = Some 0"
| "finite_value _ = None"

section \<open>Integers are read exactly below two to the 53\<close>

text \<open>A decimal literal below \<open>2 ^ 53\<close> is read exactly.\<close>

lemma bitlen_le: "n < 2 ^ k \<Longrightarrow> bitlen n \<le> k"
proof (induction n arbitrary: k rule: bitlen.induct)
  case (1 n)
  show ?case
  proof (cases k)
    case (Suc j)
    with "1.prems" have "n div 2 < 2 ^ j" by auto
    then show ?thesis using "1.IH" [of j] Suc by (subst bitlen.simps) auto
  qed (use "1.prems" in \<open>subst bitlen.simps, simp\<close>)
qed

lemma round_half_even_int [simp]: "round_half_even (of_int i) = i"
  by (simp add: round_half_even_def)

lemma floor_log2_nat: "0 < n \<Longrightarrow> n < 2 ^ 53 \<Longrightarrow> floor_log2 (of_nat n) \<le> 52" "- 2 \<le> floor_log2 (of_nat n)"
proof -
  have q: "quotient_of (of_nat n) = (int n, 1)"
    by (metis of_int_of_nat_eq of_rat_of_int_eq quotient_of_int Rat.of_int_def)
  have b: "bitlen 1 = 1" "bitlen 0 = 0" by (simp_all add: bitlen.simps)
  show "0 < n \<Longrightarrow> n < 2 ^ 53 \<Longrightarrow> floor_log2 (of_nat n) \<le> 52"
    using bitlen_le [of n 53] b by (simp add: floor_log2_def q Let_def)
  show "- 2 \<le> floor_log2 (of_nat n)"
    using b by (simp add: floor_log2_def q Let_def)
qed

lemma f64_of_nat: "0 < n \<Longrightarrow> n < 2 ^ 53 \<Longrightarrow> f64_of_rat False (of_nat n) = Some (Fin (of_nat n))"
proof -
  assume n: "0 < n" "n < 2 ^ 53"
  define k where "k = floor_log2 (of_nat n)"
  have k: "- 2 \<le> k" "k \<le> 52" using floor_log2_nat [of n] n by (simp_all add: k_def)
  then have m: "max (k - 52) (- 1074) = k - 52" by simp
  have p: "pow2 (k - 52) = 1 / 2 ^ nat (52 - k)" using k by (auto simp: pow2_def)
  have i: "of_nat n / pow2 (k - 52) = (of_int (int n * 2 ^ nat (52 - k)) :: rat)" by (simp add: p)
  have "(of_nat n :: rat) < 2 ^ 1024"
  proof -
    have "(of_nat n :: rat) < of_nat (2 ^ 53)" using n by (simp only: of_nat_less_iff)
    also have "\<dots> \<le> 2 ^ 1024" by simp
    finally show ?thesis .
  qed
  then have "\<not> 2 ^ 1024 \<le> (of_nat n :: rat)" by (simp only: not_le)
  moreover have "of_int (round_half_even (of_nat n / pow2 (k - 52))) * pow2 (k - 52) = (of_nat n :: rat)"
    by (simp only: i round_half_even_int) (simp add: p)
  ultimately show ?thesis using n
    by (simp only: f64_of_rat_def k_def [symmetric] m Let_def) simp
qed

lemma digit_facts:
  assumes "48 \<le> (of_char c :: nat)" "of_char c \<le> (57 :: nat)"
  shows "c \<noteq> CHR ''_''" "c \<noteq> CHR ''.''" "c \<noteq> CHR ''-''" "c \<noteq> CHR ''+''" "lower_char c = c"
    "c \<noteq> CHR ''i''" "c \<noteq> CHR ''n''" "c \<noteq> CHR ''x''" "digit_val 10 c = Some (of_char c - 48)"
  using assms by (auto simp: lower_char_def digit_val_def)

lemma digits_val_chars: "digits_val acc l = Some n \<Longrightarrow> c \<in> set l \<Longrightarrow> 48 \<le> (of_char c :: nat) \<and> of_char c \<le> (57 :: nat)"
  by (induction l arbitrary: acc) (auto simp: Let_def split: if_splits)

lemma read_mantissa_digits:
  "digits_val acc l = Some n \<Longrightarrow> read_mantissa 10 False acc 0 seen l = (n, 0, seen \<or> l \<noteq> [], [])"
proof (induction l arbitrary: acc seen)
  case (Cons c l)
  then have c: "48 \<le> (of_char c :: nat)" "of_char c \<le> (57 :: nat)"
    using digits_val_chars [OF Cons.prems, of c] by auto
  have "digits_val (10 * acc + (of_char c - 48)) l = Some n" using Cons.prems c by (simp add: Let_def)
  from Cons.IH [OF this] show ?case by (simp add: digit_facts [OF c] mult.commute)
qed simp

lemma parse_float_digits:
  assumes l: "digits_val 0 l = Some n" "l \<noteq> []" and n: "0 < n" "n < 2 ^ 53"
  shows "parse_float l = Some (Fin (of_nat n))"
proof -
  obtain c l' where cl: "l = c # l'" using l(2) by (cases l) auto
  note d = digit_facts [OF conjunct1 conjunct2, OF digits_val_chars digits_val_chars, OF l(1) _ l(1)]
  have s: "split_sign l = (False, l)" using d(3,4) [of c] by (simp add: cl split_sign_def)
  have low: "to_lower l = l"
    unfolding to_lower_def using d(5) by (intro map_idI) auto
  have "c \<noteq> CHR ''i''" "c \<noteq> CHR ''n''" using d(6,7) [of c] by (simp_all add: cl)
  then have "l \<noteq> ''inf''" "l \<noteq> ''infinity''" "l \<noteq> ''nan''" by (auto simp: cl)
  then have special: "parse_special l = None"
    by (simp add: parse_special_def s low)
  have hex: "(2 < length l \<and> l ! 0 = CHR ''0'' \<and> lower_char (l ! 1) = CHR ''x'') = False"
  proof (simp only: eq_False, rule notI)
    assume x: "2 < length l \<and> l ! 0 = CHR ''0'' \<and> lower_char (l ! 1) = CHR ''x''"
    then have "l ! 1 \<in> set l" by (intro nth_mem) simp
    with x d(5,8) show False by metis
  qed
  have us: "CHR ''_'' \<notin> set l" using d(1) by blast
  have "read_float l = Some (False, of_nat n)"
    unfolding read_float_def s Let_def split_conv hex if_False
    using us by (simp add: read_mantissa_digits [OF l(1)] l(2))
  then show ?thesis by (simp add: parse_float_def special f64_of_nat [OF n])
qed

text \<open>From \<open>2 ^ 53\<close> on, neighbouring integers share a float64.\<close>

lemma parse_float_rounds:
  "parse_float ''9007199254740993'' = Some (Fin 9007199254740992)"
  "parse_float ''9007199254740992'' = Some (Fin 9007199254740992)"
proof -
  have fl: "\<lfloor>9007199254740993 / 2 :: rat\<rfloor> = 4503599627370496" by (simp add: floor_eq_iff)
  show "parse_float ''9007199254740993'' = Some (Fin 9007199254740992)"
    by (simp add: parse_float_def parse_special_def split_sign_def to_lower_def lower_char_def
        read_float_def digit_val_def)
      (simp add: f64_of_rat_def floor_log2_def bitlen.simps pow2_def round_half_even_def Let_def fl)
  show "parse_float ''9007199254740992'' = Some (Fin 9007199254740992)"
    by (simp add: parse_float_def parse_special_def split_sign_def to_lower_def lower_char_def
        read_float_def digit_val_def)
      (simp add: f64_of_rat_def floor_log2_def bitlen.simps pow2_def round_half_even_def Let_def)
qed

end
