(* ===== verification/GoJson.thy ===== *)
theory GoJson
  imports GoNumbers
begin

text \<open>
  JSON documents and the decoding of package \<^verbatim>\<open>encoding/json\<close> the code relies on. A number keeps its
  literal, so that the target type decides how it is read; a string holds the bytes after unescaping.
  A \<open>raw\<close> is a \<^verbatim>\<open>json.RawMessage\<close>: no bytes at all, bytes that are not JSON, or a document. The
  checks of the code on the literal texts \<^verbatim>\<open>null\<close> and \<^verbatim>\<open>{}\<close> are read off the document (compact text).
\<close>

datatype json =
    JNull
  | JBool bool
  | JNum string
  | JStr string
  | JArr "json list"
  | JObj "(string \<times> json) list"

datatype raw = Empty | Garbage | Doc json

definition raw_of :: "json option \<Rightarrow> raw" where
  "raw_of v = (case v of None \<Rightarrow> Empty | Some j \<Rightarrow> Doc j)"

lemma raw_of_simps [simp]: "raw_of None = Empty" "raw_of (Some j) = Doc j"
  by (simp_all add: raw_of_def)

section \<open>Decoding into Go values\<close>

text \<open>\<open>None\<close> is an error. Decoding \<^verbatim>\<open>null\<close> leaves the zero value of the target.\<close>

fun json_string :: "json \<Rightarrow> string option" where
  "json_string (JStr s) = Some s"
| "json_string JNull = Some []"
| "json_string _ = None"

fun json_float :: "json \<Rightarrow> f64 option" where
  "json_float (JNum l) = parse_float l"
| "json_float JNull = Some (Fin 0)"
| "json_float _ = None"

fun json_map :: "json \<Rightarrow> json gomap option" where
  "json_map (JObj kvs) = Some (last_wins kvs)"
| "json_map JNull = Some []"
| "json_map _ = None"

fun json_array :: "json \<Rightarrow> json list option" where
  "json_array (JArr js) = Some js"
| "json_array JNull = Some []"
| "json_array _ = None"

fun decode_all :: "('a \<Rightarrow> 'b option) \<Rightarrow> 'a list \<Rightarrow> 'b list option" where
  "decode_all f [] = Some []"
| "decode_all f (x # xs) = (case f x of None \<Rightarrow> None | Some y \<Rightarrow> map_option (Cons y) (decode_all f xs))"

definition json_strings :: "json \<Rightarrow> string list option" where
  "json_strings j = (case json_array j of None \<Rightarrow> None | Some js \<Rightarrow> decode_all json_string js)"

definition json_maps :: "json \<Rightarrow> json gomap list option" where
  "json_maps j = (case json_array j of None \<Rightarrow> None | Some js \<Rightarrow> decode_all json_map js)"

text \<open>\<^verbatim>\<open>json.Unmarshal\<close> of a raw message: no bytes and malformed bytes are errors.\<close>

definition unmarshal :: "(json \<Rightarrow> 'a option) \<Rightarrow> raw \<Rightarrow> 'a option" where
  "unmarshal f r = (case r of Doc j \<Rightarrow> f j | _ \<Rightarrow> None)"

lemma unmarshal_simps [simp]:
  "unmarshal f Empty = None" "unmarshal f Garbage = None" "unmarshal f (Doc j) = f j"
  by (simp_all add: unmarshal_def)

lemma unmarshal_Some: "unmarshal f r = Some x \<longleftrightarrow> (\<exists>j. r = Doc j \<and> f j = Some x)"
  by (cases r) auto

lemma json_map_distinct: "json_map j = Some m \<Longrightarrow> distinct (keys m)"
  by (cases j) (auto simp: keys_def distinct_keys_last_wins [unfolded keys_def])

lemma decode_all_Some_iff:
  "decode_all f xs = Some ys \<longleftrightarrow> length ys = length xs \<and> (\<forall>i < length xs. f (xs ! i) = Some (ys ! i))"
proof (induction xs arbitrary: ys)
  case (Cons x xs)
  show ?case
    by (cases ys) (auto simp: Cons.IH nth_Cons less_Suc_eq_0_disj split: option.splits)
qed auto

section \<open>Semantic equality of documents\<close>

text \<open>
  Decoding into \<^verbatim>\<open>interface{}\<close> and encoding again: numbers become float64, a repeated key keeps its
  last value, and the encoder sorts the keys. Two documents encode to the same bytes exactly when
  these canonical trees are equal.
\<close>

datatype canon_json =
    CNull
  | CBool bool
  | CNum f64
  | CStr string
  | CArr "canon_json list"
  | CObj "(string \<times> canon_json) list"

fun canon :: "json \<Rightarrow> canon_json option"
  and canon_list :: "json list \<Rightarrow> canon_json list option"
  and canon_fields :: "(string \<times> json) list \<Rightarrow> (string \<times> canon_json) list option" where
  "canon JNull = Some CNull"
| "canon (JBool b) = Some (CBool b)"
| "canon (JNum l) = map_option CNum (parse_float l)"
| "canon (JStr s) = Some (CStr s)"
| "canon (JArr js) = map_option CArr (canon_list js)"
| "canon (JObj kvs) = map_option (\<lambda>fs. CObj (sort_key fst (last_wins fs))) (canon_fields kvs)"
| "canon_list [] = Some []"
| "canon_list (j # js) =
     (case canon j of None \<Rightarrow> None | Some c \<Rightarrow> map_option (Cons c) (canon_list js))"
| "canon_fields [] = Some []"
| "canon_fields ((k, j) # kvs) =
     (case canon j of None \<Rightarrow> None | Some c \<Rightarrow> map_option (Cons (k, c)) (canon_fields kvs))"

end
