(* ===== verification/GoTime.thy ===== *)
theory GoTime
  imports Prelude
begin

text \<open>
  Instants and the text forms of package \<^verbatim>\<open>time\<close>. An instant is the number of nanoseconds since the
  Unix epoch (a negative one is before it). \<open>parse_rfc3339\<close> is \<^verbatim>\<open>time.Parse\<close> with the layouts
  \<^verbatim>\<open>RFC3339\<close> and \<^verbatim>\<open>RFC3339Nano\<close>, which accept the same texts: a fraction after the seconds is taken
  with either, an hour may have one digit, a comma may stand for the point. \<open>format_rfc3339\<close> is
  \<^verbatim>\<open>t.UTC().Format(time.RFC3339)\<close>: it drops the fraction of a second.
\<close>

type_synonym instant = int

definition ns_per_sec :: int where "ns_per_sec = 1000000000"

definition ns_per_day :: int where "ns_per_day = 86400 * ns_per_sec"

section \<open>The civil calendar\<close>

definition is_leap :: "int \<Rightarrow> bool" where
  "is_leap y \<longleftrightarrow> y mod 4 = 0 \<and> (y mod 100 \<noteq> 0 \<or> y mod 400 = 0)"

definition days_in :: "int \<Rightarrow> int \<Rightarrow> int" where
  "days_in y m =
     (if m = 2 then (if is_leap y then 29 else 28)
      else if m = 4 \<or> m = 6 \<or> m = 9 \<or> m = 11 then 30 else 31)"

text \<open>Days since 1970-01-01, counting years from March, and back.\<close>

definition days_from_civil :: "int \<Rightarrow> int \<Rightarrow> int \<Rightarrow> int" where
  "days_from_civil y m d =
     (let y' = (if m \<le> 2 then y - 1 else y);
          era = y' div 400; yoe = y' mod 400;
          doy = (153 * (m + (if m > 2 then - 3 else 9)) + 2) div 5 + d - 1;
          doe = yoe * 365 + yoe div 4 - yoe div 100 + doy
      in era * 146097 + doe - 719468)"

definition civil_from_days :: "int \<Rightarrow> int \<times> int \<times> int" where
  "civil_from_days z =
     (let z' = z + 719468;
          era = z' div 146097; doe = z' mod 146097;
          yoe = (doe - doe div 1460 + doe div 36524 - doe div 146096) div 365;
          doy = doe - (365 * yoe + yoe div 4 - yoe div 100);
          mp = (5 * doy + 2) div 153;
          d = doy - (153 * mp + 2) div 5 + 1;
          m = (if mp < 10 then mp + 3 else mp - 9)
      in (yoe + era * 400 + (if m \<le> 2 then 1 else 0), m, d))"

section \<open>Parsing\<close>

text \<open>Two digits; with \<open>fixed = False\<close> one digit is enough.\<close>

definition digit :: "char \<Rightarrow> int option" where
  "digit c = (let n = of_char c :: nat in if 48 \<le> n \<and> n \<le> 57 then Some (int n - 48) else None)"

definition getnum :: "bool \<Rightarrow> string \<Rightarrow> (int \<times> string) option" where
  "getnum fixed s = (case s of
       [] \<Rightarrow> None
     | c # cs \<Rightarrow> (case digit c of
         None \<Rightarrow> None
       | Some a \<Rightarrow> (case cs of
           [] \<Rightarrow> if fixed then None else Some (a, [])
         | e # es \<Rightarrow> (case digit e of
             None \<Rightarrow> if fixed then None else Some (a, cs)
           | Some b \<Rightarrow> Some (10 * a + b, es)))))"

definition expect :: "char \<Rightarrow> string \<Rightarrow> string option" where
  "expect c s = (case s of [] \<Rightarrow> None | d # ds \<Rightarrow> if d = c then Some ds else None)"

definition in_range :: "int \<Rightarrow> int \<Rightarrow> int \<times> string \<Rightarrow> (int \<times> string) option" where
  "in_range lo hi p = (if lo \<le> fst p \<and> fst p \<le> hi then Some p else None)"

definition parse_year :: "string \<Rightarrow> (int \<times> string) option" where
  "parse_year s = Option.bind (getnum True s) (\<lambda>(a, r).
     Option.bind (getnum True r) (\<lambda>(b, r'). Some (100 * a + b, r')))"

definition parse_date_part :: "string \<Rightarrow> (int \<times> string) option" where
  "parse_date_part s =
     Option.bind (parse_year s) (\<lambda>(y, r1).
     Option.bind (expect CHR ''-'' r1) (\<lambda>r2.
     Option.bind (Option.bind (getnum True r2) (in_range 1 12)) (\<lambda>(m, r3).
     Option.bind (expect CHR ''-'' r3) (\<lambda>r4.
     Option.bind (getnum True r4) (\<lambda>(d, r5).
       if 1 \<le> d \<and> d \<le> days_in y m then Some (days_from_civil y m d, r5) else None)))))"

fun digit_run :: "string \<Rightarrow> int list \<times> string" where
  "digit_run [] = ([], [])"
| "digit_run (c # cs) = (case digit c of
      None \<Rightarrow> ([], c # cs)
    | Some a \<Rightarrow> (let (ds, r) = digit_run cs in (a # ds, r)))"

text \<open>At most nine digits of a fraction count; they are scaled to nanoseconds.\<close>

definition frac_ns :: "int list \<Rightarrow> int" where
  "frac_ns ds = (let t = take 9 ds in foldl (\<lambda>a d. 10 * a + d) 0 t * 10 ^ (9 - length t))"

definition parse_fraction :: "string \<Rightarrow> int \<times> string" where
  "parse_fraction s = (case s of
       c # d # r \<Rightarrow>
         if (c = CHR ''.'' \<or> c = CHR '','') \<and> digit d \<noteq> None
         then (let (ds, r') = digit_run (d # r) in (frac_ns ds, r')) else (0, s)
     | _ \<Rightarrow> (0, s))"

text \<open>The offset east of UTC in seconds. The parser allows 24 hours and 60 minutes.\<close>

definition parse_zone :: "string \<Rightarrow> (int \<times> string) option" where
  "parse_zone s = (case s of
       [] \<Rightarrow> None
     | c # r \<Rightarrow>
         if c = CHR ''Z'' then Some (0, r)
         else if c = CHR ''+'' \<or> c = CHR ''-'' then
           Option.bind (Option.bind (getnum True r) (in_range 0 24)) (\<lambda>(h, r1).
           Option.bind (expect CHR '':'' r1) (\<lambda>r2.
           Option.bind (Option.bind (getnum True r2) (in_range 0 60)) (\<lambda>(m, r3).
             Some ((if c = CHR ''-'' then - 1 else 1) * (h * 3600 + m * 60), r3))))
         else None)"

definition parse_rfc3339 :: "string \<Rightarrow> instant option" where
  "parse_rfc3339 s =
     Option.bind (parse_date_part s) (\<lambda>(day, r1).
     Option.bind (expect CHR ''T'' r1) (\<lambda>r2.
     Option.bind (Option.bind (getnum False r2) (in_range 0 23)) (\<lambda>(h, r3).
     Option.bind (expect CHR '':'' r3) (\<lambda>r4.
     Option.bind (Option.bind (getnum True r4) (in_range 0 59)) (\<lambda>(mi, r5).
     Option.bind (expect CHR '':'' r5) (\<lambda>r6.
     Option.bind (Option.bind (getnum True r6) (in_range 0 59)) (\<lambda>(sec, r7).
     let (ns, r8) = parse_fraction r7 in
     Option.bind (parse_zone r8) (\<lambda>(off, r9).
       if r9 = [] then Some ((day * 86400 + h * 3600 + mi * 60 + sec - off) * ns_per_sec + ns)
       else None))))))))"

text \<open>The layout \<^verbatim>\<open>2006-01-02\<close>: midnight UTC of the day.\<close>

definition parse_date :: "string \<Rightarrow> instant option" where
  "parse_date s = Option.bind (parse_date_part s)
     (\<lambda>(day, r). if r = [] then Some (day * ns_per_day) else None)"

section \<open>Formatting\<close>

definition pad :: "nat \<Rightarrow> int \<Rightarrow> string" where
  "pad w i = (let t = nat_str (nat \<bar>i\<bar>)
              in (if i < 0 then ''-'' else []) @ replicate (w - length t) CHR ''0'' @ t)"

definition format_date :: "instant \<Rightarrow> string" where
  "format_date t = (let (y, m, d) = civil_from_days (t div ns_per_day)
                    in pad 4 y @ ''-'' @ pad 2 m @ ''-'' @ pad 2 d)"

definition format_seconds :: "instant \<Rightarrow> string" where
  "format_seconds t = (let s = (t div ns_per_sec) mod 86400
     in format_date t @ ''T'' @ pad 2 (s div 3600) @ '':'' @ pad 2 (s div 60 mod 60) @ '':'' @ pad 2 (s mod 60))"

definition format_rfc3339 :: "instant \<Rightarrow> string" where
  "format_rfc3339 t = format_seconds t @ ''Z''"

text \<open>The instant a second-resolution text denotes.\<close>

definition trunc_sec :: "instant \<Rightarrow> instant" where
  "trunc_sec t = (t div ns_per_sec) * ns_per_sec"

lemma trunc_sec_bounds: "trunc_sec t \<le> t" "t < trunc_sec t + ns_per_sec"
proof -
  have "(t div ns_per_sec) * ns_per_sec + t mod ns_per_sec = t" by (rule div_mult_mod_eq)
  moreover have "0 \<le> t mod ns_per_sec" "t mod ns_per_sec < ns_per_sec"
    by (simp_all add: ns_per_sec_def)
  ultimately show "trunc_sec t \<le> t" "t < trunc_sec t + ns_per_sec"
    unfolding trunc_sec_def by linarith+
qed

lemma trunc_sec_mono: "s \<le> t \<Longrightarrow> trunc_sec s \<le> trunc_sec t"
  by (simp add: trunc_sec_def ns_per_sec_def zdiv_mono1)

lemma format_rfc3339_trunc: "format_rfc3339 (trunc_sec t) = format_rfc3339 t"
proof -
  have a: "trunc_sec t div ns_per_sec = t div ns_per_sec"
    by (simp add: trunc_sec_def ns_per_sec_def)
  have d: "t div ns_per_day = t div ns_per_sec div 86400" for t
    by (simp add: ns_per_day_def ns_per_sec_def zdiv_zmult2_eq)
  show ?thesis
    by (simp add: format_rfc3339_def format_seconds_def format_date_def d a)
qed

end
