(* ===== verification/Glob.thy ===== *)
theory Glob
  imports Prelude
begin

text \<open>
  The glob patterns of \<^verbatim>\<open>db/constraint_validate.go\<close>: \<^verbatim>\<open>patternToRegexp\<close> splits the pattern at its
  stars and builds an anchored regular expression of quoted literals joined by \<^verbatim>\<open>.*\<close>, and
  \<^verbatim>\<open>MatchPattern\<close> runs it. The model keeps the expression as a list of items. In Go's syntax the dot
  does not match a line feed, so a star stops there.
  The lemmas relate the matcher to a character-by-character glob and to a declarative reading.
\<close>

datatype rx_item = RxLit string | RxDotStar

text \<open>\<^verbatim>\<open>for i, part := range parts\<close>: quote the part, then a \<^verbatim>\<open>.*\<close> unless it is the last.\<close>

fun join_parts :: "string list \<Rightarrow> rx_item list" where
  "join_parts [] = []"
| "join_parts [p] = [RxLit p]"
| "join_parts (p # ps) = RxLit p # RxDotStar # join_parts ps"

definition patternToRegexp :: "string \<Rightarrow> rx_item list" where
  "patternToRegexp pattern = join_parts (split_on CHR ''*'' pattern)"

text \<open>Anchored matching of the whole text.\<close>

function rx_match :: "rx_item list \<Rightarrow> string \<Rightarrow> bool" where
  "rx_match [] s = (s = [])"
| "rx_match (RxLit l # r) s = (has_prefix s l \<and> rx_match r (drop (length l) s))"
| "rx_match (RxDotStar # r) [] = rx_match r []"
| "rx_match (RxDotStar # r) (c # cs) =
     (rx_match r (c # cs) \<or> (c \<noteq> CHR 0x0A \<and> rx_match (RxDotStar # r) cs))"
  by pat_completeness auto
termination
  by (relation "measures [\<lambda>(r, s). length r, \<lambda>(r, s). length s]") auto

definition MatchPattern :: "string \<Rightarrow> string \<Rightarrow> bool" where
  "MatchPattern pattern value = rx_match (patternToRegexp pattern) value"

section \<open>A reference matcher\<close>

fun glob :: "string \<Rightarrow> string \<Rightarrow> bool" where
  "glob [] v = (v = [])"
| "glob (p # ps) v =
     (if p = CHR ''*'' then
        glob ps v \<or> (case v of [] \<Rightarrow> False | c # cs \<Rightarrow> c \<noteq> CHR 0x0A \<and> glob (p # ps) cs)
      else (case v of [] \<Rightarrow> False | c # cs \<Rightarrow> c = p \<and> glob ps cs))"

lemma rx_lit_Cons: "rx_match (RxLit (x # xs) # r) v = (case v of [] \<Rightarrow> False | c # cs \<Rightarrow> c = x \<and> rx_match (RxLit xs # r) cs)"
  by (cases v) (auto simp: has_prefix_def)

lemma rx_lit_Nil [simp]: "rx_match (RxLit [] # r) v = rx_match r v"
  by simp

lemma rx_dotstar_glob:
  "(\<And>v. rx_match r v = glob ps v) \<Longrightarrow> rx_match (RxDotStar # r) v = glob (CHR ''*'' # ps) v"
  by (induction v) auto

lemma rx_match_join_glob: "rx_match (join_parts (split_on CHR ''*'' p)) v = glob p v"
proof (induction p arbitrary: v)
  case Nil
  then show ?case by simp
next
  case (Cons x xs)
  obtain q qs where sp: "split_on CHR ''*'' xs = q # qs"
    by (cases "split_on CHR ''*'' xs") auto
  show ?case
  proof (cases "x = CHR ''*''")
    case True
    with sp have "join_parts (split_on CHR ''*'' (x # xs)) =
        RxLit [] # RxDotStar # join_parts (split_on CHR ''*'' xs)"
      by simp
    with True Cons.IH show ?thesis
      by (simp only: rx_lit_Nil) (simp add: rx_dotstar_glob)
  next
    case False
    have "rx_match (join_parts ((x # q) # qs)) v =
        (case v of [] \<Rightarrow> False | c # cs \<Rightarrow> c = x \<and> rx_match (join_parts (q # qs)) cs)"
      by (cases qs) (simp_all only: join_parts.simps rx_lit_Cons)
    with False sp Cons.IH show ?thesis
      by (auto split: list.splits)
  qed
qed

lemma MatchPattern_glob: "MatchPattern p v = glob p v"
  by (simp add: MatchPattern_def patternToRegexp_def rx_match_join_glob)

section \<open>Declarative reading\<close>

text \<open>The text is the parts of the pattern with something without a line feed in place of each star.\<close>

fun weave :: "string list \<Rightarrow> string list \<Rightarrow> string" where
  "weave [] gs = []"
| "weave [p] gs = p"
| "weave (p # ps) (g # gs) = p @ g @ weave ps gs"
| "weave (p # ps) [] = p @ weave ps []"

definition fills :: "string \<Rightarrow> string list \<Rightarrow> string \<Rightarrow> bool" where
  "fills pattern gs v \<longleftrightarrow> length gs = count_list pattern CHR ''*'' \<and>
     (\<forall>g \<in> set gs. CHR 0x0A \<notin> set g) \<and> v = weave (split_on CHR ''*'' pattern) gs"

lemma weave_Cons_char: "weave ((x # q) # qs) gs = x # weave (q # qs) gs"
  by (cases qs; cases gs) auto

lemma weave_star:
  assumes "split_on CHR ''*'' p = q # qs"
  shows "weave ([] # q # qs) (g # gs) = g @ weave (q # qs) gs"
  by simp

lemma glob_star_append:
  "glob (CHR ''*'' # p) (g @ v)" if "CHR 0x0A \<notin> set g" "glob p v"
  using that by (induction g) (auto split: list.splits)

lemma glob_starE:
  "glob (CHR ''*'' # p) v \<Longrightarrow> \<exists>g w. v = g @ w \<and> CHR 0x0A \<notin> set g \<and> glob p w"
proof (induction v)
  case (Cons c cs)
  then consider "glob p (c # cs)" | "c \<noteq> CHR 0x0A" "glob (CHR ''*'' # p) cs"
    by auto
  then show ?case
  proof cases
    case 1
    then show ?thesis by (metis append_Nil empty_iff list.set(1))
  next
    case 2
    then obtain g w where "cs = g @ w" "CHR 0x0A \<notin> set g" "glob p w"
      using Cons.IH by blast
    with 2 have "c # cs = (c # g) @ w" "CHR 0x0A \<notin> set (c # g)" by auto
    with \<open>glob p w\<close> show ?thesis by blast
  qed
qed auto

lemma glob_iff_fills: "glob p v \<longleftrightarrow> (\<exists>gs. fills p gs v)"
proof (induction p arbitrary: v)
  case Nil
  show ?case by (auto simp: fills_def)
next
  case (Cons x xs)
  obtain q qs where sp: "split_on CHR ''*'' xs = q # qs"
    by (cases "split_on CHR ''*'' xs") auto
  show ?case
  proof (cases "x = CHR ''*''")
    case True
    have "glob (x # xs) v \<longleftrightarrow> (\<exists>g w. v = g @ w \<and> CHR 0x0A \<notin> set g \<and> glob xs w)"
      using True glob_starE glob_star_append by blast
    also have "\<dots> \<longleftrightarrow> (\<exists>g gs. fills (x # xs) (g # gs) v)"
      using True sp by (auto simp: Cons.IH fills_def)
    also have "\<dots> \<longleftrightarrow> (\<exists>gs. fills (x # xs) gs v)"
    proof -
      have "gs \<noteq> []" if "fills (x # xs) gs v" for gs
        using True that by (auto simp: fills_def)
      then show ?thesis by (metis list.exhaust)
    qed
    finally show ?thesis .
  next
    case False
    have "fills (x # xs) gs v \<longleftrightarrow> (\<exists>w. v = x # w \<and> fills xs gs w)" for gs
      using False sp by (auto simp: fills_def weave_Cons_char)
    with False show ?thesis
      by (cases v) (auto simp: Cons.IH)
  qed
qed

text \<open>A star takes any text without a line feed, and no text with one.\<close>

lemma glob_star_only: "glob ''*'' v \<longleftrightarrow> CHR 0x0A \<notin> set v"
  by (induction v) auto

lemma glob_literal: "CHR ''*'' \<notin> set p \<Longrightarrow> glob p v \<longleftrightarrow> v = p"
proof (induction p arbitrary: v)
  case (Cons x xs)
  then show ?case by (cases v) auto
qed simp

lemma glob_newline: "glob p v \<Longrightarrow> CHR 0x0A \<notin> set p \<Longrightarrow> CHR 0x0A \<notin> set v"
proof (induction p arbitrary: v)
  case (Cons x xs)
  show ?case
  proof (cases "x = CHR ''*''")
    case True
    then obtain g w where "v = g @ w" "CHR 0x0A \<notin> set g" "glob xs w"
      using Cons.prems(1) glob_starE by blast
    with Cons show ?thesis by auto
  next
    case False
    with Cons show ?thesis by (auto split: list.splits)
  qed
qed auto

end
