(* ===== verification/ConstraintValues.thy ===== *)
theory ConstraintValues
  imports GoJson GoTime Glob
begin

text \<open>
  Values in constraint documents and the checks of one value against another:
  \<^verbatim>\<open>db/constraint_validate.go\<close> (wildcards, patterns, fixed values, recipient lists, metadata
  sources), \<^verbatim>\<open>db/constraint_compare.go\<close> (thresholds) and the token syntax of \<^verbatim>\<open>db/relative_date.go\<close>.
  Every check returns nil (\<open>None\<close>) or its error. The lemmas at the end say exactly which values each
  check accepts.
\<close>

section \<open>Names\<close>

definition WildcardValue :: string where "WildcardValue = ''*''"
definition PatternKey :: string where "PatternKey = ''$pattern''"
definition MetaNamespaceKey :: string where "MetaNamespaceKey = ''$meta''"
definition DataWindowNamespaceKey :: string where "DataWindowNamespaceKey = ''$data_window''"
definition metaPrefix :: string where "metaPrefix = ''$meta.''"

lemmas key_defs = WildcardValue_def PatternKey_def MetaNamespaceKey_def DataWindowNamespaceKey_def
  metaPrefix_def

section \<open>Wildcards and patterns\<close>

definition IsWildcard :: "raw \<Rightarrow> bool" where
  "IsWildcard r = (case unmarshal json_string r of None \<Rightarrow> False | Some s \<Rightarrow> s = WildcardValue)"

definition extractPattern :: "raw \<Rightarrow> string option" where
  "extractPattern r = (case unmarshal json_map r of
       None \<Rightarrow> None
     | Some obj \<Rightarrow>
         if length obj \<noteq> 1 then None
         else (case map_of obj PatternKey of
             None \<Rightarrow> None
           | Some p \<Rightarrow> json_string p))"

definition IsPattern :: "raw \<Rightarrow> bool" where
  "IsPattern r = (case extractPattern r of None \<Rightarrow> False | Some p \<Rightarrow> CHR ''*'' \<in> set p)"

fun isAllStarGlob :: "string \<Rightarrow> bool" where
  "isAllStarGlob [] = False"
| "isAllStarGlob cs = list_all (\<lambda>c. c = CHR ''*'') cs"

definition IsSemanticWildcard :: "raw \<Rightarrow> bool" where
  "IsSemanticWildcard r =
     (if IsWildcard r then True
      else (case extractPattern r of None \<Rightarrow> False | Some p \<Rightarrow> isAllStarGlob p))"

definition jsonValuesEqual :: "raw \<Rightarrow> raw \<Rightarrow> bool" where
  "jsonValuesEqual a b = (case (unmarshal canon a, unmarshal canon b) of
       (Some x, Some y) \<Rightarrow> x = y
     | _ \<Rightarrow> False)"

section \<open>Relative date tokens\<close>

text \<open>The digits captured by \<^verbatim>\<open>^-(\d+)d$\<close>.\<close>

definition relativeDateOffset :: "string \<Rightarrow> string option" where
  "relativeDateOffset s = (case s of
       [] \<Rightarrow> None
     | c # r \<Rightarrow>
         if c = CHR ''-'' \<and> r \<noteq> [] \<and> last r = CHR ''d'' \<and> butlast r \<noteq> [] \<and>
            list_all (\<lambda>x. digit x \<noteq> None) (butlast r)
         then Some (butlast r) else None)"

definition ValidateRelativeDateToken :: "string \<Rightarrow> go_error option" where
  "ValidateRelativeDateToken s0 =
     (let s = trim_space s0; bad = Some (OtherErr (''invalid relative date token '' @ quoted s))
      in if s \<in> {''@today'', ''@yesterday'', ''@now''} then None
         else (case relativeDateOffset s of
             None \<Rightarrow> bad
           | Some ds \<Rightarrow> (case parse_int ds of
               None \<Rightarrow> bad
             | Some days \<Rightarrow> if days < 1 then bad else None)))"

definition ExtractRelativeDateToken :: "raw \<Rightarrow> string option" where
  "ExtractRelativeDateToken r = (case unmarshal json_string r of
       None \<Rightarrow> None
     | Some s \<Rightarrow>
         (let t = trim_space s
          in if ValidateRelativeDateToken t \<noteq> None then None else Some t))"

section \<open>Checks of one value\<close>

definition validateStringPattern :: "string \<Rightarrow> string \<Rightarrow> string \<Rightarrow> go_error option" where
  "validateStringPattern param pattern value =
     (let bad = Some (ConfigErr param
            (''metadata value '' @ quoted value @ '' does not match pattern '' @ quoted pattern))
      in if CHR ''*'' \<in> set pattern then (if MatchPattern pattern value then None else bad)
         else if value \<noteq> pattern then bad else None)"

definition validateExecPatternConstraint :: "string \<Rightarrow> string \<Rightarrow> raw \<Rightarrow> go_error option" where
  "validateExecPatternConstraint param pattern execValue = (case unmarshal json_strings execValue of
       Some values \<Rightarrow>
         if values = [] then Some (ConfigErr param
           (''value must be a non-empty string or array of strings matching pattern '' @ quoted pattern))
         else first_err (validateStringPattern param pattern) values
     | None \<Rightarrow> (case unmarshal json_string execValue of
         None \<Rightarrow> Some (ConfigErr param
           (''value must be a string or array of strings matching pattern '' @ quoted pattern))
       | Some s \<Rightarrow> validateStringPattern param pattern s))"

definition validatePatternConstraint :: "string \<Rightarrow> string \<Rightarrow> raw \<Rightarrow> go_error option" where
  "validatePatternConstraint param pattern sourceValue =
     (if sourceValue = Empty then
        Some (ConfigErr param (''required metadata field is missing for pattern '' @ quoted pattern))
      else (case unmarshal json_strings sourceValue of
          Some values \<Rightarrow> first_err (validateStringPattern param pattern) values
        | None \<Rightarrow> (case unmarshal json_string sourceValue of
            None \<Rightarrow> Some (ConfigErr param
              (''metadata value must be a string or array of strings matching pattern '' @ quoted pattern))
          | Some s \<Rightarrow> validateStringPattern param pattern s)))"

definition validateConstraintValueAgainstSource :: "string \<Rightarrow> raw \<Rightarrow> raw \<Rightarrow> go_error option" where
  "validateConstraintValueAgainstSource param configValue sourceValue =
     (if IsWildcard configValue then None
      else (case extractPattern configValue of
          Some pattern \<Rightarrow> validatePatternConstraint param pattern sourceValue
        | None \<Rightarrow>
            if sourceValue = Empty then Some (ConfigErr param ''required metadata field is missing'')
            else if \<not> jsonValuesEqual configValue sourceValue then
              Some (ConfigErr param ''metadata value does not match configured value'')
            else None))"

definition validateRecipientPatternConstraint :: "string \<Rightarrow> string \<Rightarrow> raw \<Rightarrow> go_error option" where
  "validateRecipientPatternConstraint param pattern sourceValue =
     (let missing = Some (ConfigErr param
            (''required metadata field is missing for pattern '' @ quoted pattern))
      in if sourceValue = Empty then missing
         else (case unmarshal json_strings sourceValue of
             None \<Rightarrow> Some (ConfigErr param
               (''metadata value must be an array of strings matching pattern '' @ quoted pattern))
           | Some values \<Rightarrow>
               if values = [] then missing
               else if list_ex (\<lambda>v. validateStringPattern param pattern v = None) values then None
               else Some (ConfigErr param (''no recipient address matches pattern '' @ quoted pattern))))"

definition validateRecipientMetaConstraint :: "string \<Rightarrow> raw \<Rightarrow> raw \<Rightarrow> go_error option" where
  "validateRecipientMetaConstraint param configValue sourceValue =
     (if IsWildcard configValue then None
      else (case extractPattern configValue of
          Some pattern \<Rightarrow> validateRecipientPatternConstraint param pattern sourceValue
        | None \<Rightarrow>
            if sourceValue = Empty then Some (ConfigErr param ''required metadata field is missing'')
            else (case unmarshal json_strings sourceValue of
                None \<Rightarrow> Some (ConfigErr param ''metadata value must be an array of recipient addresses'')
              | Some values \<Rightarrow>
                  if values = [] then Some (ConfigErr param ''required metadata field is missing'')
                  else (case unmarshal json_string configValue of
                      None \<Rightarrow> Some (OtherErr (''invalid recipient metadata constraint for '' @ param))
                    | Some expected \<Rightarrow>
                        if expected \<in> set values then None
                        else Some (ConfigErr param ''metadata value does not match configured value'')))))"

definition isRecipientMetaKey :: "string \<Rightarrow> bool" where
  "isRecipientMetaKey key \<longleftrightarrow> key = ''to'' \<or> key = ''cc'' \<or> key = ''bcc''"

definition validateMetaFieldConstraint :: "string \<Rightarrow> string \<Rightarrow> raw \<Rightarrow> raw \<Rightarrow> go_error option" where
  "validateMetaFieldConstraint param key configValue sourceValue =
     (if isRecipientMetaKey key then validateRecipientMetaConstraint param configValue sourceValue
      else validateConstraintValueAgainstSource param configValue sourceValue)"

section \<open>Metadata sources\<close>

text \<open>A missing key reads as a raw message with no bytes.\<close>

definition lookup_raw :: "json gomap \<Rightarrow> string \<Rightarrow> raw" where
  "lookup_raw m k = raw_of (map_of m k)"

definition flatMetaSourceValue :: "string \<Rightarrow> json gomap \<Rightarrow> raw" where
  "flatMetaSourceValue key meta =
     (if key = ''sender'' then
        (if lookup_raw meta ''sender'' \<noteq> Empty then lookup_raw meta ''sender'' else lookup_raw meta ''senders'')
      else if key = ''from'' then
        (if lookup_raw meta ''from'' \<noteq> Empty then lookup_raw meta ''from'' else lookup_raw meta ''sender'')
      else lookup_raw meta key)"

definition perMessageMetaSourceValue :: "string \<Rightarrow> json gomap \<Rightarrow> raw" where
  "perMessageMetaSourceValue key msg =
     (if key \<in> {''sender'', ''senders''} then lookup_raw msg ''from''
      else if key = ''from'' then lookup_raw msg ''from''
      else lookup_raw msg key)"

section \<open>Comparisons\<close>

definition isComparisonOp :: "string \<Rightarrow> bool" where
  "isComparisonOp op \<longleftrightarrow> op \<in> {''lte'', ''gte'', ''lt'', ''gt''}"

text \<open>\<^verbatim>\<open>parseComparableValue\<close>: a finite number or an instant; the error texts are kept.\<close>

datatype comparable = ComparableNumber rat | ComparableDatetime instant

definition number_or_invalid :: "f64 \<Rightarrow> comparable result" where
  "number_or_invalid f = (case finite_value f of
       None \<Rightarrow> Inl (OtherErr ''invalid number'')
     | Some q \<Rightarrow> Inr (ComparableNumber q))"

definition parseComparableValue :: "raw \<Rightarrow> comparable result" where
  "parseComparableValue r =
     (if r = Empty \<or> r = Doc JNull then Inl (OtherErr ''value is empty'')
      else (case unmarshal json_float r of
          Some f \<Rightarrow> number_or_invalid f
        | None \<Rightarrow> (case unmarshal json_string r of
            None \<Rightarrow> Inl (OtherErr ''value must be a number or string'')
          | Some s \<Rightarrow>
              if trim_space s = [] then Inl (OtherErr ''value is empty'')
              else (case parse_float s of
                  Some f \<Rightarrow> number_or_invalid f
                | None \<Rightarrow> (case parse_rfc3339 s of
                    Some t \<Rightarrow> Inr (ComparableDatetime t)
                  | None \<Rightarrow> Inl (OtherErr ''not a valid number or RFC3339 datetime''))))))"

definition compareNumbers :: "rat \<Rightarrow> rat \<Rightarrow> string \<Rightarrow> bool" where
  "compareNumbers source threshold op =
     (if op = ''lte'' then source \<le> threshold
      else if op = ''gte'' then source \<ge> threshold
      else if op = ''lt'' then source < threshold
      else if op = ''gt'' then source > threshold else False)"

definition compareTimes :: "instant \<Rightarrow> instant \<Rightarrow> string \<Rightarrow> bool" where
  "compareTimes source threshold op =
     (if op = ''lte'' then \<not> source > threshold
      else if op = ''gte'' then \<not> source < threshold
      else if op = ''lt'' then source < threshold
      else if op = ''gt'' then source > threshold else False)"

definition validateComparisonThreshold :: "string \<Rightarrow> raw \<Rightarrow> go_error option" where
  "validateComparisonThreshold field val =
     (if IsWildcard val then Some (OtherErr ''comparison threshold cannot be a wildcard'')
      else if extractPattern val \<noteq> None then Some (OtherErr ''comparison threshold cannot be a pattern'')
      else (case parseComparableValue val of
          Inl _ \<Rightarrow> Some (OtherErr ''comparison threshold must be a number or RFC3339 datetime'')
        | Inr _ \<Rightarrow> None))"

definition evaluateComparisonConstraint :: "string \<Rightarrow> string \<Rightarrow> raw \<Rightarrow> raw \<Rightarrow> go_error option" where
  "evaluateComparisonConstraint param op threshold sourceValue =
     (let unsat = Some (ConfigErr param (''value does not satisfy '' @ op @ '' constraint''))
      in case parseComparableValue threshold of
        Inl _ \<Rightarrow> Some (OtherErr (''invalid comparison threshold for '' @ param))
      | Inr th \<Rightarrow> (case parseComparableValue sourceValue of
          Inl _ \<Rightarrow> Some (ConfigErr param ''value must be a number or RFC3339 datetime for comparison'')
        | Inr src \<Rightarrow> (case (src, th) of
            (ComparableNumber x, ComparableNumber y) \<Rightarrow> if compareNumbers x y op then None else unsat
          | (ComparableDatetime x, ComparableDatetime y) \<Rightarrow> if compareTimes x y op then None else unsat
          | _ \<Rightarrow> Some (ConfigErr param ''value type does not match comparison threshold type''))))"

section \<open>What the checks accept\<close>

lemma validateStringPattern_ok [simp]: "validateStringPattern param p v = None \<longleftrightarrow> glob p v"
  by (simp add: validateStringPattern_def Let_def MatchPattern_glob glob_literal)

text \<open>The strings a value stands for: a string, or an array of strings; null reads as an empty array.\<close>

definition strings_of :: "raw \<Rightarrow> string list option" where
  "strings_of r = (case unmarshal json_strings r of
       Some vs \<Rightarrow> Some vs
     | None \<Rightarrow> map_option (\<lambda>s. [s]) (unmarshal json_string r))"

lemma strings_of_Empty [simp]: "strings_of Empty = None"
  by (simp add: strings_of_def)

lemma json_strings_JNull [simp]: "json_strings JNull = Some []"
  by (simp add: json_strings_def)

lemma json_strings_JStr [simp]: "json_strings (JStr s) = None"
  by (simp add: json_strings_def)

lemma json_strings_JArr [simp]: "json_strings (JArr js) = decode_all json_string js"
  by (simp add: json_strings_def)

lemma json_strings_string_disjoint: "json_strings j = None \<Longrightarrow> json_string j = Some s \<Longrightarrow> j = JStr s"
  by (cases j) auto

lemma validatePatternConstraint_ok:
  "validatePatternConstraint param p r = None \<longleftrightarrow> (\<exists>vs. strings_of r = Some vs \<and> (\<forall>v \<in> set vs. glob p v))"
  by (auto simp: validatePatternConstraint_def strings_of_def split: option.splits)

lemma validateExecPatternConstraint_ok:
  "validateExecPatternConstraint param p r = None \<longleftrightarrow>
     (\<exists>vs. strings_of r = Some vs \<and> vs \<noteq> [] \<and> (\<forall>v \<in> set vs. glob p v))"
  by (auto simp: validateExecPatternConstraint_def strings_of_def split: option.splits)

lemma validateRecipientPatternConstraint_ok:
  "validateRecipientPatternConstraint param p r = None \<longleftrightarrow>
     (\<exists>vs. unmarshal json_strings r = Some vs \<and> (\<exists>v \<in> set vs. glob p v))"
  by (cases r)
    (auto simp: validateRecipientPatternConstraint_def Let_def list_ex_iff split: option.splits)

lemma IsWildcard_iff: "IsWildcard r \<longleftrightarrow> r = Doc (JStr ''*'')"
proof (cases r)
  case (Doc j)
  then show ?thesis by (cases j) (auto simp: IsWildcard_def WildcardValue_def)
qed (auto simp: IsWildcard_def)

lemma extractPattern_not_wildcard: "extractPattern r = Some p \<Longrightarrow> \<not> IsWildcard r"
  by (auto simp: IsWildcard_iff extractPattern_def)

lemma extractPattern_JStr [simp]: "extractPattern (Doc (JStr s)) = None"
  by (simp add: extractPattern_def)

lemma isAllStarGlob_iff: "isAllStarGlob p \<longleftrightarrow> p \<noteq> [] \<and> set p \<subseteq> {CHR ''*''}"
  by (cases p) (auto simp: list_all_iff)

lemma jsonValuesEqual_sym: "jsonValuesEqual a b = jsonValuesEqual b a"
  by (auto simp: jsonValuesEqual_def split: option.splits)

lemma jsonValuesEqual_not_Empty [simp]: "\<not> jsonValuesEqual r Empty"
  by (simp add: jsonValuesEqual_def split: option.splits)

lemma token_not_wildcard: "ExtractRelativeDateToken r = Some t \<Longrightarrow> \<exists>s. r = Doc (JStr s)"
proof (cases r)
  case (Doc j)
  have "ValidateRelativeDateToken [] \<noteq> None"
    by (simp add: ValidateRelativeDateToken_def Let_def relativeDateOffset_def)
  moreover assume "ExtractRelativeDateToken r = Some t"
  ultimately show ?thesis using Doc
    by (cases j) (auto simp: ExtractRelativeDateToken_def Let_def split: if_splits)
qed (simp_all add: ExtractRelativeDateToken_def)

end
