(* ===== verification/DataWindow.thy ===== *)
theory DataWindow
  imports ConstraintValues
begin

text \<open>
  \<^verbatim>\<open>db/data_window.go\<close>: the \<^verbatim>\<open>$data_window\<close> constraint of a standing approval, its shape, the absolute
  window it stands for, and the clamping of the two window parameters of an action to that window.
  A Go \<^verbatim>\<open>*time.Time\<close> is an \<open>instant option\<close>.
\<close>

record data_window_params =
  StartParam :: string
  EndParam :: string

record resolved_window =
  StartsAt :: "instant option"
  EndsAt :: "instant option"

section \<open>Shape\<close>

definition dw_key :: "string \<Rightarrow> string" where
  "dw_key k = DataWindowNamespaceKey @ ''.'' @ k"

text \<open>\<^verbatim>\<open>int(n)\<close> of a float64: out of range it is the least int64, as on amd64.\<close>

definition int_of_float :: "rat \<Rightarrow> int" where
  "int_of_float q =
     (let i = (if 0 \<le> q then \<lfloor>q\<rfloor> else \<lceil>q\<rceil>) in if int64_range i then i else - (2 ^ 63))"

definition check_timestamp :: "string \<Rightarrow> json \<Rightarrow> go_error option" where
  "check_timestamp k val =
     (let bad = Some (ConfigErr (dw_key k) ''must be an RFC3339 timestamp string'')
      in case json_string val of
        None \<Rightarrow> bad
      | Some s \<Rightarrow> if s = [] then bad else if parse_rfc3339 s = None then bad else None)"

definition last_days_of :: "json \<Rightarrow> int" where
  "last_days_of val = (case json_float val of
       None \<Rightarrow> 0
     | Some f \<Rightarrow> (case finite_value f of None \<Rightarrow> 0 | Some q \<Rightarrow> int_of_float q))"

definition check_last_days :: "json \<Rightarrow> go_error option" where
  "check_last_days val =
     (let bad = Some (ConfigErr (dw_key ''last_days'') ''must be an integer >= 1'')
      in case json_float val of
        None \<Rightarrow> bad
      | Some f \<Rightarrow> (case finite_value f of
          None \<Rightarrow> bad
        | Some q \<Rightarrow> if q \<noteq> of_int \<lfloor>q\<rfloor> then bad
                   else if int_of_float q < 1 then bad else None))"

definition check_window_field :: "json gomap \<Rightarrow> string \<Rightarrow> go_error option" where
  "check_window_field obj k = (case map_of obj k of
       None \<Rightarrow> None
     | Some val \<Rightarrow>
         if k = ''starts_at'' then check_timestamp k val
         else if k = ''ends_at'' then check_timestamp k val
         else if k = ''last_days'' then check_last_days val
         else Some (ConfigErr (dw_key k) ''unknown field''))"

text \<open>The time a field holds once its check passed.\<close>

definition time_field :: "json gomap \<Rightarrow> string \<Rightarrow> instant option" where
  "time_field obj k = (case map_of obj k of
       None \<Rightarrow> None
     | Some val \<Rightarrow> Option.bind (json_string val) parse_rfc3339)"

definition not_after :: "instant option \<Rightarrow> instant option \<Rightarrow> bool" where
  "not_after e s = (case (e, s) of (Some te, Some ts) \<Rightarrow> \<not> te > ts | _ \<Rightarrow> False)"

definition parseDataWindowConstraint :: "order \<Rightarrow> raw \<Rightarrow> json gomap result" where
  "parseDataWindowConstraint ord r =
     (let no_object = Inl (ConfigErr DataWindowNamespaceKey ''must be a JSON object'');
          no_field = Inl (ConfigErr DataWindowNamespaceKey
                            ''must contain at least one of starts_at, ends_at, or last_days'')
      in if r = Empty \<or> r = Doc JNull then no_object
         else (case unmarshal json_map r of
             None \<Rightarrow> no_object
           | Some obj \<Rightarrow>
               if obj = [] then no_field
               else (case first_err (check_window_field obj) (ord (keys obj)) of
                   Some e \<Rightarrow> Inl e
                 | None \<Rightarrow>
                     (let hasStartsAt = ''starts_at'' \<in> set (keys obj);
                          hasEndsAt = ''ends_at'' \<in> set (keys obj);
                          hasLastDays = ''last_days'' \<in> set (keys obj)
                      in if \<not> hasStartsAt \<and> \<not> hasEndsAt \<and> \<not> hasLastDays then no_field
                         else if hasLastDays \<and> hasStartsAt then
                           Inl (ConfigErr DataWindowNamespaceKey
                                  ''last_days is mutually exclusive with starts_at'')
                         else if hasStartsAt \<and> hasEndsAt \<and>
                                 not_after (time_field obj ''ends_at'') (time_field obj ''starts_at'') then
                           Inl (ConfigErr DataWindowNamespaceKey ''ends_at must be after starts_at'')
                         else Inr obj))))"

definition ValidateDataWindowConstraintShape :: "order \<Rightarrow> raw \<Rightarrow> go_error option" where
  "ValidateDataWindowConstraintShape ord r =
     (case parseDataWindowConstraint ord r of Inl e \<Rightarrow> Some e | Inr _ \<Rightarrow> None)"

section \<open>Resolution\<close>

text \<open>\<^verbatim>\<open>now.AddDate(0, 0, -days)\<close> on a UTC time: a UTC day has 86400 seconds.\<close>

definition ResolveDataWindowConstraint :: "order \<Rightarrow> raw \<Rightarrow> instant \<Rightarrow> resolved_window result" where
  "ResolveDataWindowConstraint ord r now = (case parseDataWindowConstraint ord r of
       Inl e \<Rightarrow> Inl e
     | Inr obj \<Rightarrow>
         (let w0 = \<lparr>StartsAt = None, EndsAt = None\<rparr>;
              w1 = (case map_of obj ''last_days'' of
                  None \<Rightarrow> w0
                | Some val \<Rightarrow> w0\<lparr>StartsAt := Some (now - last_days_of val * ns_per_day)\<rparr>);
              w2 = (if ''starts_at'' \<in> set (keys obj) then w1\<lparr>StartsAt := time_field obj ''starts_at''\<rparr> else w1);
              w3 = (if ''ends_at'' \<in> set (keys obj) then w2\<lparr>EndsAt := time_field obj ''ends_at''\<rparr> else w2)
          in Inr w3))"

section \<open>Clamping the parameters\<close>

definition parseTimeParam :: "json \<Rightarrow> instant option result" where
  "parseTimeParam val =
     (let bad = Inl (ConfigErr ''datetime'' ''window parameter must be an RFC3339 timestamp string'')
      in case json_string val of
        None \<Rightarrow> bad
      | Some s \<Rightarrow> if s = [] then Inr None
                 else (case parse_rfc3339 s of None \<Rightarrow> bad | Some t \<Rightarrow> Inr (Some t)))"

definition param_time :: "json gomap \<Rightarrow> string \<Rightarrow> instant option result" where
  "param_time m k = (case map_of m k of None \<Rightarrow> Inr None | Some val \<Rightarrow> parseTimeParam val)"

definition effective_start :: "instant \<Rightarrow> instant option \<Rightarrow> instant option \<Rightarrow> instant" where
  "effective_start starts ends cur =
     (let e = (case cur of Some t \<Rightarrow> if t > starts then t else starts | None \<Rightarrow> starts)
      in case ends of Some en \<Rightarrow> if \<not> e < en then en - 1 else e | None \<Rightarrow> e)"

definition effective_end :: "instant \<Rightarrow> instant option \<Rightarrow> instant option \<Rightarrow> instant" where
  "effective_end ends starts cur =
     (let e = (case cur of Some t \<Rightarrow> if t < ends then t else ends | None \<Rightarrow> ends)
      in case starts of Some st \<Rightarrow> if \<not> e > st then st + 1 else e | None \<Rightarrow> e)"

definition marshalRFC3339 :: "instant \<Rightarrow> json" where
  "marshalRFC3339 t = JStr (format_rfc3339 t)"

text \<open>Writing a key of a Go map; \<open>None\<close> is the nil map that decoding \<^verbatim>\<open>null\<close> leaves.\<close>

definition assign :: "string \<Rightarrow> json \<Rightarrow> json gomap option \<Rightarrow> json gomap option result" where
  "assign k v m = (case m of
       None \<Rightarrow> Inl (GoPanic ''assignment to entry in nil map'')
     | Some m' \<Rightarrow> Inr (Some (AList.update k v m')))"

definition clamp_start :: "resolved_window \<Rightarrow> string \<Rightarrow> json gomap option \<Rightarrow> json gomap option result" where
  "clamp_start w k m = (case StartsAt w of
       None \<Rightarrow> Inr m
     | Some st \<Rightarrow> (case param_time (case m of None \<Rightarrow> [] | Some m' \<Rightarrow> m') k of
         Inl e \<Rightarrow> Inl e
       | Inr cur \<Rightarrow> assign k (marshalRFC3339 (effective_start st (EndsAt w) cur)) m))"

definition clamp_end :: "resolved_window \<Rightarrow> string \<Rightarrow> json gomap option \<Rightarrow> json gomap option result" where
  "clamp_end w k m = (case EndsAt w of
       None \<Rightarrow> Inr m
     | Some en \<Rightarrow> (case param_time (case m of None \<Rightarrow> [] | Some m' \<Rightarrow> m') k of
         Inl e \<Rightarrow> Inl e
       | Inr cur \<Rightarrow> assign k (marshalRFC3339 (effective_end en (StartsAt w) cur)) m))"

definition marshal_map :: "json gomap option \<Rightarrow> raw" where
  "marshal_map m = (case m of None \<Rightarrow> Doc JNull | Some m' \<Rightarrow> Doc (JObj (sort_key fst m')))"

definition ApplyDataWindowToParams ::
  "raw \<Rightarrow> resolved_window \<Rightarrow> string \<Rightarrow> string \<Rightarrow> raw result" where
  "ApplyDataWindowToParams params w startParam endParam =
     (if startParam = [] \<or> endParam = [] then Inl DataWindowUnsupported
      else (let m0 = (if params = Empty then Some (Some [])
                      else if params = Doc JNull then Some None
                      else map_option Some (unmarshal json_map params))
            in case m0 of
              None \<Rightarrow> Inl (OtherErr ''invalid execution parameters'')
            | Some m \<Rightarrow> (case clamp_start w startParam m of
                Inl e \<Rightarrow> Inl e
              | Inr m1 \<Rightarrow> (case clamp_end w endParam m1 of
                  Inl e \<Rightarrow> Inl e
                | Inr m2 \<Rightarrow> Inr (marshal_map m2)))))"

definition ConstraintsHaveDataWindow :: "raw \<Rightarrow> bool" where
  "ConstraintsHaveDataWindow constraints =
     (if constraints = Empty \<or> constraints = Doc JNull then False
      else (case unmarshal json_map constraints of
          None \<Rightarrow> False
        | Some obj \<Rightarrow> (case map_of obj DataWindowNamespaceKey of
            None \<Rightarrow> False
          | Some v \<Rightarrow> v \<noteq> JNull \<and> v \<noteq> JObj [])))"

definition ExtractDataWindowConstraint :: "raw \<Rightarrow> json option" where
  "ExtractDataWindowConstraint constraints =
     (if constraints = Empty then None
      else (case unmarshal json_map constraints of
          None \<Rightarrow> None
        | Some obj \<Rightarrow> (case map_of obj DataWindowNamespaceKey of
            None \<Rightarrow> None
          | Some v \<Rightarrow> if v \<noteq> JNull then Some v else None)))"

section \<open>Lemmas\<close>

lemma map_of_sort_key: "distinct (keys m) \<Longrightarrow> map_of (sort_key fst m) = map_of m"
  by (rule map_of_inject_set [THEN iffD2]) (auto simp: keys_def distinct_map inj_on_def)

text \<open>Inside a proper window both ends stay in it.\<close>

lemma effective_start_bounds:
  assumes "st < en"
  shows "st \<le> effective_start st (Some en) cur" "effective_start st (Some en) cur < en"
  using assms by (auto simp: effective_start_def Let_def split: option.splits)

lemma effective_end_bounds:
  assumes "st < en"
  shows "st < effective_end en (Some st) cur" "effective_end en (Some st) cur \<le> en"
  using assms by (auto simp: effective_end_def Let_def split: option.splits)

lemma effective_start_open: "st \<le> effective_start st None cur"
  by (auto simp: effective_start_def Let_def split: option.splits)

lemma effective_end_open: "effective_end en None cur \<le> en"
  by (auto simp: effective_end_def Let_def split: option.splits)

text \<open>A value of the agent inside the window is kept.\<close>

lemma effective_start_keeps: "st \<le> t \<Longrightarrow> t < en \<Longrightarrow> effective_start st (Some en) (Some t) = t"
  by (simp add: effective_start_def Let_def)

lemma effective_end_keeps: "st < t \<Longrightarrow> t \<le> en \<Longrightarrow> effective_end en (Some st) (Some t) = t"
  by (simp add: effective_end_def Let_def)

lemma keys_update_distinct: "distinct (keys m) \<Longrightarrow> distinct (keys (AList.update k v m))"
  by (simp add: keys_def distinct_update)

lemma unmarshal_map_distinct: "unmarshal json_map r = Some m \<Longrightarrow> distinct (keys m)"
  by (auto simp: unmarshal_Some json_map_distinct)

lemma ApplyDataWindow_cases:
  assumes ok: "ApplyDataWindowToParams params w sp ep = Inr out"
    and sw: "StartsAt w = Some st" and ew: "EndsAt w = Some en"
  obtains m cs ce m' where "params \<noteq> Doc JNull" "out = Doc (JObj m')"
    "m = (if params = Empty then [] else the (unmarshal json_map params))"
    "map_of m' = (map_of m)(sp \<mapsto> marshalRFC3339 (effective_start st (Some en) cs),
                           ep \<mapsto> marshalRFC3339 (effective_end en (Some st) ce))"
    "distinct (keys m')" "param_time m sp = Inr cs"
    "param_time (AList.update sp (marshalRFC3339 (effective_start st (Some en) cs)) m) ep = Inr ce"
proof -
  obtain m where m: "params = Empty \<and> m = [] \<or> params \<noteq> Empty \<and> unmarshal json_map params = Some m"
      "params \<noteq> Doc JNull"
    using ok sw by (auto simp: ApplyDataWindowToParams_def Let_def clamp_start_def assign_def
        param_time_def split: if_splits option.splits sum.splits)
  have "distinct (keys [])" by (simp add: keys_def)
  then have d: "distinct (keys m)" using m(1) unmarshal_map_distinct by blast
  let ?m1 = "\<lambda>cs. AList.update sp (marshalRFC3339 (effective_start st (Some en) cs)) m"
  obtain cs ce where p: "param_time m sp = Inr cs" "param_time (?m1 cs) ep = Inr ce"
    and out: "out = marshal_map (Some (AList.update ep (marshalRFC3339 (effective_end en (Some st) ce)) (?m1 cs)))"
    using ok sw ew m by (auto simp: ApplyDataWindowToParams_def Let_def clamp_start_def clamp_end_def
        assign_def split: if_splits option.splits sum.splits)
  let ?m2 = "AList.update ep (marshalRFC3339 (effective_end en (Some st) ce)) (?m1 cs)"
  have d2: "distinct (keys ?m2)" by (simp add: keys_update_distinct d)
  show thesis
  proof (rule that [of "sort_key fst ?m2" m cs ce])
    show "out = Doc (JObj (sort_key fst ?m2))" by (simp add: out marshal_map_def)
    show "map_of (sort_key fst ?m2) = (map_of m)(sp \<mapsto> marshalRFC3339 (effective_start st (Some en) cs),
        ep \<mapsto> marshalRFC3339 (effective_end en (Some st) ce))"
      by (simp add: map_of_sort_key d2 update_conv')
    show "distinct (keys (sort_key fst ?m2))"
      using d2 by (simp add: keys_def distinct_map)
  qed (use m p in auto)
qed

text \<open>A window both of whose ends are given by the constraint is proper.\<close>

lemma parseDataWindow_sound:
  assumes "parseDataWindowConstraint ord r = Inr obj" and ord: "range_order ord"
  shows "unmarshal json_map r = Some obj" "\<And>k. k \<in> set (keys obj) \<Longrightarrow> check_window_field obj k = None"
    "set (keys obj) \<inter> {''starts_at'', ''ends_at'', ''last_days''} \<noteq> {}"
    "\<not> (''last_days'' \<in> set (keys obj) \<and> ''starts_at'' \<in> set (keys obj))"
    "''starts_at'' \<in> set (keys obj) \<Longrightarrow> ''ends_at'' \<in> set (keys obj) \<Longrightarrow>
       \<not> not_after (time_field obj ''ends_at'') (time_field obj ''starts_at'')"
  using assms(1)
  by (auto simp: parseDataWindowConstraint_def Let_def range_order_set [OF ord]
      split: if_splits option.splits)

lemma time_field_checked:
  assumes "check_window_field obj k = None" "k \<in> set (keys obj)" "k \<in> {''starts_at'', ''ends_at''}"
  shows "\<exists>t. time_field obj k = Some t"
  using assms
  by (auto simp: check_window_field_def check_timestamp_def time_field_def Let_def set_keys dom_def
      split: option.splits if_splits)


section \<open>Properties\<close>

text \<open>The parameters an action starts from.\<close>

definition window_input :: "raw \<Rightarrow> json gomap" where
  "window_input params = (case unmarshal json_map params of None \<Rightarrow> [] | Some m \<Rightarrow> m)"

lemma window_input_cases:
  "m = (if params = Empty then [] else the (unmarshal json_map params)) \<Longrightarrow>
     ApplyDataWindowToParams params w sp ep = Inr out \<Longrightarrow> m = window_input params"
  by (auto simp: window_input_def ApplyDataWindowToParams_def Let_def split: if_splits option.splits)



text \<open>An agent that asks for a narrower window inside the grant gets exactly the instants it sent,
  to the second.\<close>

theorem data_window_keeps_narrower:
  assumes "ApplyDataWindowToParams params w sp ep = Inr out"
    and "StartsAt w = Some st" "EndsAt w = Some en" "sp \<noteq> ep"
    and "map_of (window_input params) sp = Some (JStr s)" "parse_rfc3339 s = Some t" "st \<le> t" "t < en"
    and "map_of (window_input params) ep = Some (JStr e)" "parse_rfc3339 e = Some u" "st < u" "u \<le> en"
  shows "\<exists>m. out = Doc (JObj m) \<and> map_of m sp = Some (JStr (format_rfc3339 t)) \<and>
     map_of m ep = Some (JStr (format_rfc3339 u))"
  using ApplyDataWindow_cases [OF assms(1-3)]
proof (cases)
  case (1 m cs ce m')
  have m: "m = window_input params" by (rule window_input_cases [OF 1(3) assms(1)])
  have "s \<noteq> []" "e \<noteq> []" using assms(6,10)
    by (auto simp: parse_rfc3339_def parse_date_part_def parse_year_def getnum_def)
  then have "cs = Some t" "ce = Some u"
    using 1(6,7) assms(4-6,9,10)
    by (auto simp: m param_time_def parseTimeParam_def update_conv' split: if_splits)
  with 1 show ?thesis
    by (intro exI [of _ m'])
      (simp add: assms(4) marshalRFC3339_def effective_start_keeps effective_end_keeps assms(7,8,11,12))
qed

lemma data_window_keeps_narrower_witness:
  "\<exists>m. Doc (JObj [(''a'', JStr ''1970-01-01T00:00:01Z''), (''b'', JStr ''1970-01-01T00:00:02Z'')]) = Doc (JObj m) \<and>
     map_of m ''a'' = Some (JStr (format_rfc3339 1000000000)) \<and>
     map_of m ''b'' = Some (JStr (format_rfc3339 2000000000))"
  by (rule data_window_keeps_narrower [where
      w = "\<lparr>StartsAt = Some 0, EndsAt = Some 3000000000\<rparr>" and
      params = "Doc (JObj [(''a'', JStr ''1970-01-01T00:00:01Z''), (''b'', JStr ''1970-01-01T00:00:02Z'')])"
      and s = "''1970-01-01T00:00:01Z''" and e = "''1970-01-01T00:00:02Z''"])
    (code_simp | simp)+

lemma parse_rfc3339_Nil: "parse_rfc3339 [] = None"
  by (simp add: parse_rfc3339_def parse_date_part_def parse_year_def getnum_def)

lemma check_timestamp_ok:
  "check_timestamp k v = None \<longleftrightarrow> Option.bind (json_string v) parse_rfc3339 \<noteq> None"
  by (auto simp: check_timestamp_def Let_def parse_rfc3339_Nil split: option.splits)

lemma check_window_field_ok:
  "check_window_field obj k = None \<longleftrightarrow>
     (\<forall>v. map_of obj k = Some v \<longrightarrow>
        (k = ''last_days'' \<and> check_last_days v = None) \<or>
        (k \<in> {''starts_at'', ''ends_at''} \<and> time_field obj k \<noteq> None))"
  by (auto simp: check_window_field_def time_field_def check_timestamp_ok
      simp del: not_None_eq split: option.splits)

lemma time_field_key: "time_field obj k = Some t \<Longrightarrow> k \<in> set (keys obj)"
  by (auto simp: time_field_def set_keys dom_def split: option.splits)

lemma window_shape_checks:
  assumes "range_order ord"
  shows "ValidateDataWindowConstraintShape ord r = None \<longleftrightarrow>
    (\<exists>obj. unmarshal json_map r = Some obj \<and> obj \<noteq> [] \<and>
      (\<forall>k \<in> set (keys obj). check_window_field obj k = None) \<and>
      set (keys obj) \<inter> {''starts_at'', ''ends_at'', ''last_days''} \<noteq> {} \<and>
      \<not> (''last_days'' \<in> set (keys obj) \<and> ''starts_at'' \<in> set (keys obj)) \<and>
      \<not> (''starts_at'' \<in> set (keys obj) \<and> ''ends_at'' \<in> set (keys obj) \<and>
         not_after (time_field obj ''ends_at'') (time_field obj ''starts_at'')))"
proof (cases "unmarshal json_map r")
  case None
  then show ?thesis by (simp add: ValidateDataWindowConstraintShape_def parseDataWindowConstraint_def Let_def)
next
  case (Some obj)
  then have "r = Doc JNull \<longrightarrow> obj = []" "r \<noteq> Empty" by auto
  note r = this
  show ?thesis
  proof (cases "first_err (check_window_field obj) (ord (keys obj))")
    case None
    then have "\<forall>k \<in> set (keys obj). check_window_field obj k = None" by (simp add: range_order_set [OF assms])
    with None Some r show ?thesis
      by (simp add: ValidateDataWindowConstraintShape_def parseDataWindowConstraint_def Let_def
          del: first_err_None_iff)
  next
    case (Some e)
    then have "\<not> (\<forall>k \<in> set (keys obj). check_window_field obj k = None)"
      using first_err_Some [OF Some] by (auto simp: range_order_set [OF assms])
    with Some \<open>unmarshal json_map r = Some obj\<close> show ?thesis
      by (simp add: ValidateDataWindowConstraintShape_def parseDataWindowConstraint_def Let_def)
  qed
qed

lemma window_fields_ok:
  "(\<forall>k \<in> set (keys obj). check_window_field obj k = None) \<longleftrightarrow>
     set (keys obj) \<subseteq> {''starts_at'', ''ends_at'', ''last_days''} \<and>
     (''starts_at'' \<in> set (keys obj) \<longrightarrow> time_field obj ''starts_at'' \<noteq> None) \<and>
     (''ends_at'' \<in> set (keys obj) \<longrightarrow> time_field obj ''ends_at'' \<noteq> None) \<and>
     (\<forall>v. map_of obj ''last_days'' = Some v \<longrightarrow> check_last_days v = None)"
proof -
  have split: "(\<forall>k \<in> K. (k = c \<and> L) \<or> (k \<in> {a, b} \<and> T k)) \<longleftrightarrow>
      K \<subseteq> {a, b, c} \<and> (a \<in> K \<longrightarrow> T a) \<and> (b \<in> K \<longrightarrow> T b) \<and> (c \<in> K \<longrightarrow> L)"
    if "c \<noteq> a" "c \<noteq> b" for K and a b c :: string and L T
    using that by auto
  have "(\<forall>k \<in> set (keys obj). check_window_field obj k = None) \<longleftrightarrow>
      (\<forall>k \<in> set (keys obj). (k = ''last_days'' \<and> (\<forall>v. map_of obj ''last_days'' = Some v \<longrightarrow> check_last_days v = None)) \<or>
         (k \<in> {''starts_at'', ''ends_at''} \<and> time_field obj k \<noteq> None))"
  proof (rule ball_cong [OF refl])
    fix k assume "k \<in> set (keys obj)"
    then obtain v where v: "map_of obj k = Some v" by (auto simp: set_keys)
    then show "check_window_field obj k = None \<longleftrightarrow>
        (k = ''last_days'' \<and> (\<forall>v. map_of obj ''last_days'' = Some v \<longrightarrow> check_last_days v = None)) \<or>
        (k \<in> {''starts_at'', ''ends_at''} \<and> time_field obj k \<noteq> None)"
      by (cases "k = ''last_days''") (simp_all add: check_window_field_ok)
  qed
  moreover have "''last_days'' \<in> set (keys obj) \<longleftrightarrow> (\<exists>v. map_of obj ''last_days'' = Some v)"
    by (auto simp: set_keys dom_def)
  ultimately show ?thesis by (subst (asm) split) auto
qed

lemma window_order_check:
  "(''starts_at'' \<in> set (keys obj) \<and> ''ends_at'' \<in> set (keys obj) \<and>
      not_after (time_field obj ''ends_at'') (time_field obj ''starts_at'')) \<longleftrightarrow>
   (\<exists>s e. time_field obj ''starts_at'' = Some s \<and> time_field obj ''ends_at'' = Some e \<and> e \<le> s)"
  using time_field_key [of obj] by (auto simp: not_after_def split: option.splits)

lemma some_window_field: "obj \<noteq> [] \<Longrightarrow> set (keys obj) \<subseteq> S \<Longrightarrow> set (keys obj) \<inter> S \<noteq> {}"
  by (cases obj) (auto simp: keys_def)

text \<open>The shape check accepts exactly the objects with the known fields, each well formed, not both
  a relative and an absolute start, the end after the start; the order in which the map is walked
  does not matter.\<close>

theorem data_window_shape_iff:
  assumes "range_order ord"
  shows "ValidateDataWindowConstraintShape ord r = None \<longleftrightarrow>
    (\<exists>obj. unmarshal json_map r = Some obj \<and> obj \<noteq> [] \<and>
       set (keys obj) \<subseteq> {''starts_at'', ''ends_at'', ''last_days''} \<and>
       \<not> (''last_days'' \<in> set (keys obj) \<and> ''starts_at'' \<in> set (keys obj)) \<and>
       (''starts_at'' \<in> set (keys obj) \<longrightarrow> time_field obj ''starts_at'' \<noteq> None) \<and>
       (''ends_at'' \<in> set (keys obj) \<longrightarrow> time_field obj ''ends_at'' \<noteq> None) \<and>
       (\<forall>v. map_of obj ''last_days'' = Some v \<longrightarrow> check_last_days v = None) \<and>
       \<not> (\<exists>s e. time_field obj ''starts_at'' = Some s \<and> time_field obj ''ends_at'' = Some e \<and> e \<le> s))"
  unfolding window_shape_checks [OF assms] window_fields_ok window_order_check
  by (intro iff_exI iffI; elim conjE; intro conjI; (assumption | rule some_window_field))

lemma data_window_shape_iff_witness:
  "range_order rev \<and> ValidateDataWindowConstraintShape rev (Doc (JObj [(''last_days'', JNum ''7'')])) = None"
proof -
  have "parse_float ''7'' = Some (Fin 7)" using parse_float_digits [of "''7''" 7] by simp
  then have "check_last_days (JNum ''7'') = None"
    by (simp add: check_last_days_def int_of_float_def int64_range_def Let_def)
  then show ?thesis
    by (subst data_window_shape_iff [OF range_order_rev])
      (simp add: range_order_rev last_wins_def keys_def time_field_def)
qed

text \<open>Inside a grant that starts within a second, the start handed to the action lies before the
  grant: the text drops the fraction of the second.\<close>

theorem data_window_start_before_grant:
  "\<exists>w st out t. w = \<lparr>StartsAt = Some st, EndsAt = Some 9000000000\<rparr> \<and>
     ApplyDataWindowToParams (Doc (JObj [])) w ''from'' ''to'' = Inr (Doc (JObj out)) \<and>
     map_of out ''from'' = Some (JStr t) \<and> (\<exists>p. parse_rfc3339 t = Some p \<and> p < st)"
proof -
  let ?t = "''1970-01-01T00:00:01Z''"
  have "ApplyDataWindowToParams (Doc (JObj [])) \<lparr>StartsAt = Some 1500000000, EndsAt = Some 9000000000\<rparr> ''from'' ''to''
      = Inr (Doc (JObj [(''from'', JStr ?t), (''to'', JStr ''1970-01-01T00:00:09Z'')]))"
    by code_simp
  moreover have "parse_rfc3339 ?t = Some 1000000000" by code_simp
  ultimately show ?thesis by fastforce
qed

text \<open>A grant of the last days that also has an end keeps working after it lapsed: once the end is
  older than the days, the action is sent a window that reaches from before the end to after the
  relative start, instants no reading of the grant allows together.\<close>

theorem data_window_lapsed_inverted:
  "\<exists>w out s e. ResolveDataWindowConstraint id
       (Doc (JObj [(''last_days'', JNum ''1''), (''ends_at'', JStr ''1970-01-02T00:00:00Z'')])) (10 * ns_per_day) = Inr w \<and>
     ApplyDataWindowToParams (Doc (JObj [])) w ''from'' ''to'' = Inr (Doc (JObj out)) \<and>
     map_of out ''from'' = Some (JStr s) \<and> parse_rfc3339 s = Some (ns_per_day - ns_per_sec) \<and>
     map_of out ''to'' = Some (JStr e) \<and> parse_rfc3339 e = Some (9 * ns_per_day)"
proof -
  let ?w = "\<lparr>StartsAt = Some (9 * ns_per_day), EndsAt = Some ns_per_day\<rparr>"
  have "ResolveDataWindowConstraint id
      (Doc (JObj [(''last_days'', JNum ''1''), (''ends_at'', JStr ''1970-01-02T00:00:00Z'')])) (10 * ns_per_day) = Inr ?w"
  proof -
    have "parse_float ''1'' = Some (Fin 1)" using parse_float_digits [of "''1''" 1] by simp
    moreover have "parse_rfc3339 ''1970-01-02T00:00:00Z'' = Some ns_per_day" by code_simp
    ultimately show ?thesis
      by (simp add: ResolveDataWindowConstraint_def parseDataWindowConstraint_def Let_def last_wins_def keys_def
          check_window_field_def check_last_days_def check_timestamp_def int_of_float_def int64_range_def
          last_days_of_def time_field_def)
  qed
  moreover have "ApplyDataWindowToParams (Doc (JObj [])) ?w ''from'' ''to''
      = Inr (Doc (JObj [(''from'', JStr ''1970-01-01T23:59:59Z''), (''to'', JStr ''1970-01-10T00:00:00Z'')]))"
    by code_simp
  moreover have "parse_rfc3339 ''1970-01-01T23:59:59Z'' = Some (ns_per_day - ns_per_sec)" by code_simp
  moreover have "parse_rfc3339 ''1970-01-10T00:00:00Z'' = Some (9 * ns_per_day)" by code_simp
  ultimately show ?thesis
    by (intro exI [of _ ?w] exI [of _ "[(''from'', JStr ''1970-01-01T23:59:59Z''), (''to'', JStr ''1970-01-10T00:00:00Z'')]"]
        exI [of _ "''1970-01-01T23:59:59Z''"] exI [of _ "''1970-01-10T00:00:00Z''"]) simp
qed

end
