(* ===== verification/StructuredConstraints.thy ===== *)
theory StructuredConstraints
  imports DataWindow
begin

text \<open>
  \<^verbatim>\<open>db/constraint_structured.go\<close>: version 2 constraint documents (any group matches, a group matches
  when all its conditions do), their decoding, shape check, evaluation against the parameters of an
  action and the resolved metadata, normalisation and encoding. A nil slice and an empty one are the
  same list; the encoder of the model writes \<^verbatim>\<open>[]\<close> for both.
\<close>

section \<open>Documents\<close>

definition ConstraintVersionV2 :: int where "ConstraintVersionV2 = 2"
definition OpAnyOf :: string where "OpAnyOf = ''any_of''"
definition OpNoneOf :: string where "OpNoneOf = ''none_of''"
definition OpMatches :: string where "OpMatches = ''matches''"
definition OpDoesNotMatch :: string where "OpDoesNotMatch = ''does_not_match''"
definition GroupMatchAll :: string where "GroupMatchAll = ''all''"
definition GroupMatchAny :: string where "GroupMatchAny = ''any''"

lemmas op_defs = OpAnyOf_def OpNoneOf_def OpMatches_def OpDoesNotMatch_def
lemmas match_defs = GroupMatchAll_def GroupMatchAny_def

record condition =
  c_field :: string
  c_op :: string
  c_values :: "raw list"
  c_value :: raw

record cgroup =
  g_match :: string
  g_conditions :: "condition list"

record sconstraints =
  sc_version :: int
  sc_match :: string
  sc_groups :: "cgroup list"

section \<open>Decoding\<close>

text \<open>\<^verbatim>\<open>encoding/json\<close> finds the field of a key up to case folding; besides the ASCII letters the long s
  folds to S and the Kelvin sign to K. Fields are set in the order of the document.\<close>

fun fold_key :: "string \<Rightarrow> string" where
  "fold_key (a # b # c # cs) =
     (if a = CHR 0xC5 \<and> b = CHR 0xBF then CHR ''S'' # fold_key (c # cs)
      else if a = CHR 0xE2 \<and> b = CHR 0x84 \<and> c = CHR 0xAA then CHR ''K'' # fold_key cs
      else upper_char a # fold_key (b # c # cs))"
| "fold_key [a, b] = (if a = CHR 0xC5 \<and> b = CHR 0xBF then ''S'' else [upper_char a, upper_char b])"
| "fold_key [a] = [upper_char a]"
| "fold_key [] = []"

declare fold_key.simps [simp del]

fun set_fields :: "(string \<Rightarrow> json \<Rightarrow> 'a \<Rightarrow> 'a option) \<Rightarrow> (string \<times> json) list \<Rightarrow> 'a \<Rightarrow> 'a option" where
  "set_fields f [] x = Some x"
| "set_fields f ((k, j) # kvs) x = (case f (fold_key k) j x of None \<Rightarrow> None | Some y \<Rightarrow> set_fields f kvs y)"

text \<open>A struct is decoded from an object; \<^verbatim>\<open>null\<close> leaves it as it is.\<close>

definition decode_struct :: "(string \<Rightarrow> json \<Rightarrow> 'a \<Rightarrow> 'a option) \<Rightarrow> 'a \<Rightarrow> json \<Rightarrow> 'a option" where
  "decode_struct f x j = (case j of JObj kvs \<Rightarrow> set_fields f kvs x | JNull \<Rightarrow> Some x | _ \<Rightarrow> None)"

definition set_string :: "(string \<Rightarrow> 'a \<Rightarrow> 'a) \<Rightarrow> json \<Rightarrow> 'a \<Rightarrow> 'a option" where
  "set_string upd j x = (case j of JStr s \<Rightarrow> Some (upd s x) | JNull \<Rightarrow> Some x | _ \<Rightarrow> None)"

definition set_int :: "(int \<Rightarrow> 'a \<Rightarrow> 'a) \<Rightarrow> json \<Rightarrow> 'a \<Rightarrow> 'a option" where
  "set_int upd j x = (case j of
       JNum l \<Rightarrow> map_option (\<lambda>i. upd i x) (parse_int l)
     | JNull \<Rightarrow> Some x
     | _ \<Rightarrow> None)"

definition set_list :: "(json \<Rightarrow> 'b option) \<Rightarrow> ('b list \<Rightarrow> 'a \<Rightarrow> 'a) \<Rightarrow> json \<Rightarrow> 'a \<Rightarrow> 'a option" where
  "set_list dec upd j x = (case json_array j of
       None \<Rightarrow> None
     | Some js \<Rightarrow> map_option (\<lambda>ys. upd ys x) (decode_all dec js))"

definition condition_field :: "string \<Rightarrow> json \<Rightarrow> condition \<Rightarrow> condition option" where
  "condition_field n j c =
     (if n = ''FIELD'' then set_string (\<lambda>s. c_field_update (\<lambda>_. s)) j c
      else if n = ''OP'' then set_string (\<lambda>s. c_op_update (\<lambda>_. s)) j c
      else if n = ''VALUES'' then set_list (\<lambda>v. Some (Doc v)) (\<lambda>vs. c_values_update (\<lambda>_. vs)) j c
      else if n = ''VALUE'' then Some (c\<lparr>c_value := Doc j\<rparr>)
      else Some c)"

definition no_condition :: condition where
  "no_condition = \<lparr>c_field = [], c_op = [], c_values = [], c_value = Empty\<rparr>"

definition group_field :: "string \<Rightarrow> json \<Rightarrow> cgroup \<Rightarrow> cgroup option" where
  "group_field n j g =
     (if n = ''MATCH'' then set_string (\<lambda>s. g_match_update (\<lambda>_. s)) j g
      else if n = ''CONDITIONS'' then
        set_list (decode_struct condition_field no_condition) (\<lambda>cs. g_conditions_update (\<lambda>_. cs)) j g
      else Some g)"

definition document_field :: "string \<Rightarrow> json \<Rightarrow> sconstraints \<Rightarrow> sconstraints option" where
  "document_field n j sc =
     (if n = ''$VERSION'' then set_int (\<lambda>i. sc_version_update (\<lambda>_. i)) j sc
      else if n = ''MATCH'' then set_string (\<lambda>s. sc_match_update (\<lambda>_. s)) j sc
      else if n = ''GROUPS'' then
        set_list (decode_struct group_field \<lparr>g_match = [], g_conditions = []\<rparr>)
          (\<lambda>gs. sc_groups_update (\<lambda>_. gs)) j sc
      else Some sc)"

definition decode_document :: "json \<Rightarrow> sconstraints option" where
  "decode_document = decode_struct document_field \<lparr>sc_version = 0, sc_match = [], sc_groups = []\<rparr>"

definition probe_field :: "string \<Rightarrow> json \<Rightarrow> int \<Rightarrow> int option" where
  "probe_field n j v = (if n = ''$VERSION'' then set_int (\<lambda>i _. i) j v else Some v)"

definition IsStructuredConstraintsV2 :: "raw \<Rightarrow> bool" where
  "IsStructuredConstraintsV2 r =
     (if r = Empty \<or> r = Doc JNull \<or> r = Doc (JObj []) then False
      else (case unmarshal (decode_struct probe_field 0) r of
          None \<Rightarrow> False
        | Some v \<Rightarrow> v = ConstraintVersionV2))"

text \<open>The conditions a key of a flat document stands for.\<close>

definition flat_conditions :: "order \<Rightarrow> json gomap \<Rightarrow> string \<Rightarrow> condition list result" where
  "flat_conditions ord obj key =
     (let val = lookup_raw obj key in
      if key = MetaNamespaceKey then
        (case unmarshal json_map val of
           None \<Rightarrow> Inl (OtherErr ''$meta constraints must be a JSON object'')
         | Some meta \<Rightarrow> Inr (map (\<lambda>k. \<lparr>c_field = MetaNamespaceKey @ ''.'' @ k, c_op = OpMatches,
               c_values = [], c_value = lookup_raw meta k\<rparr>) (ord (keys meta))))
      else Inr [\<lparr>c_field = key, c_op = OpMatches, c_values = [], c_value = val\<rparr>])"

fun collect :: "('a \<Rightarrow> 'b list result) \<Rightarrow> 'a list \<Rightarrow> 'b list result" where
  "collect f [] = Inr []"
| "collect f (x # xs) = (case f x of
      Inl e \<Rightarrow> Inl e
    | Inr ys \<Rightarrow> (case collect f xs of Inl e \<Rightarrow> Inl e | Inr zs \<Rightarrow> Inr (ys @ zs)))"

definition flatMapToStructured :: "order \<Rightarrow> raw \<Rightarrow> sconstraints result" where
  "flatMapToStructured ord r =
     (case (if r = Empty \<or> r = Doc JNull then Some [] else unmarshal json_map r) of
        None \<Rightarrow> Inl (OtherErr ''constraints must be a JSON object'')
      | Some obj \<Rightarrow> (case collect (flat_conditions ord obj) (ord (keys obj)) of
          Inl e \<Rightarrow> Inl e
        | Inr cs \<Rightarrow> Inr \<lparr>sc_version = ConstraintVersionV2, sc_match = GroupMatchAny,
            sc_groups = [\<lparr>g_match = GroupMatchAll, g_conditions = cs\<rparr>]\<rparr>))"

definition ParseStructuredConstraints :: "order \<Rightarrow> raw \<Rightarrow> sconstraints result" where
  "ParseStructuredConstraints ord r =
     (if IsStructuredConstraintsV2 r then
        (case unmarshal decode_document r of
           None \<Rightarrow> Inl (OtherErr ''invalid structured constraints'')
         | Some sc \<Rightarrow> Inr sc)
      else flatMapToStructured ord r)"

section \<open>Operators\<close>

definition conditionValues :: "condition \<Rightarrow> raw list" where
  "conditionValues c =
     (if c_op c \<in> {OpAnyOf, OpNoneOf} then c_values c
      else if c_op c \<in> {OpMatches, OpDoesNotMatch} \<or> isComparisonOp (c_op c) then
        (if c_value c \<noteq> Empty then [c_value c] else [])
      else [])"

definition isAllowOp :: "string \<Rightarrow> bool" where
  "isAllowOp op \<longleftrightarrow> op = OpAnyOf \<or> op = OpMatches"

definition isDenyOp :: "string \<Rightarrow> bool" where
  "isDenyOp op \<longleftrightarrow> op = OpNoneOf \<or> op = OpDoesNotMatch"

definition is_meta_field :: "string \<Rightarrow> bool" where
  "is_meta_field f \<longleftrightarrow> has_prefix f (MetaNamespaceKey @ ''.'')"

section \<open>Shape\<close>

definition validateConstraintValueEncoding :: "order \<Rightarrow> string \<Rightarrow> raw \<Rightarrow> go_error option" where
  "validateConstraintValueEncoding ord field val =
     (if field = DataWindowNamespaceKey then ValidateDataWindowConstraintShape ord val
      else if ExtractRelativeDateToken val \<noteq> None then None
      else (case extractPattern val of
          None \<Rightarrow> None
        | Some pattern \<Rightarrow>
            if CHR ''*'' \<notin> set pattern then Some (OtherErr (''$pattern value '' @ quoted pattern @
              '' must contain at least one '' @ [CHR 0x27] @ ''*'' @ [CHR 0x27] @ '' wildcard; use a plain string for fixed values''))
            else None))"

text \<open>A loop with its index.\<close>

fun first_err_from :: "nat \<Rightarrow> (nat \<Rightarrow> 'a \<Rightarrow> go_error option) \<Rightarrow> 'a list \<Rightarrow> go_error option" where
  "first_err_from i f [] = None"
| "first_err_from i f (x # xs) = (case f i x of Some e \<Rightarrow> Some e | None \<Rightarrow> first_err_from (Suc i) f xs)"

definition condition_name :: "nat \<Rightarrow> nat \<Rightarrow> string" where
  "condition_name gi ci = ''groups['' @ nat_str gi @ ''].conditions['' @ nat_str ci @ '']''"

definition validateStructuredCondition :: "order \<Rightarrow> nat \<Rightarrow> nat \<Rightarrow> condition \<Rightarrow> go_error option" where
  "validateStructuredCondition ord gi ci c =
     (let param = condition_name gi ci; op = c_op c
      in if trim_space (c_field c) = [] then Some (OtherErr (param @ '': field must not be empty''))
         else if op = OpAnyOf \<or> op = OpNoneOf then
           (if c_values c = [] then Some (OtherErr (param @ '': '' @ op @ '' requires at least one value''))
            else if c_value c \<noteq> Empty then Some (OtherErr (param @ '': '' @ op @ '' must use values, not value''))
            else first_err_from 0 (\<lambda>vi val. wrap_err (param @ ''.values['' @ nat_str vi @ '']: '')
                   (validateConstraintValueEncoding ord (c_field c) val)) (c_values c))
         else if op = OpMatches \<or> op = OpDoesNotMatch then
           (if c_value c = Empty \<or> c_value c = Doc JNull then
              Some (OtherErr (param @ '': '' @ op @ '' requires a value''))
            else if c_values c \<noteq> [] then Some (OtherErr (param @ '': '' @ op @ '' must use value, not values''))
            else wrap_err (param @ '': '') (validateConstraintValueEncoding ord (c_field c) (c_value c)))
         else if isComparisonOp op then
           (if c_value c = Empty \<or> c_value c = Doc JNull then
              Some (OtherErr (param @ '': '' @ op @ '' requires a threshold value''))
            else if c_values c \<noteq> [] then Some (OtherErr (param @ '': '' @ op @ '' must use value, not values''))
            else wrap_err (param @ '': '') (validateComparisonThreshold (c_field c) (c_value c)))
         else Some (OtherErr (param @ '': unsupported op '' @ quoted op)))"

definition validate_group :: "order \<Rightarrow> nat \<Rightarrow> cgroup \<Rightarrow> go_error option" where
  "validate_group ord gi g =
     (if g_match g \<noteq> [] \<and> g_match g \<noteq> GroupMatchAll then
        Some (OtherErr (''group '' @ nat_str gi @ '' match must be '' @ quoted GroupMatchAll))
      else if g_conditions g = [] then
        Some (OtherErr (''group '' @ nat_str gi @ '' must contain at least one condition''))
      else first_err_from 0 (validateStructuredCondition ord gi) (g_conditions g))"

definition validateStructuredConstraints :: "order \<Rightarrow> sconstraints \<Rightarrow> go_error option" where
  "validateStructuredConstraints ord sc =
     (if sc_version sc \<noteq> ConstraintVersionV2 then
        Some (OtherErr (''unsupported constraint version '' @ int_str (sc_version sc)))
      else if sc_match sc \<noteq> [] \<and> sc_match sc \<noteq> GroupMatchAny then
        Some (OtherErr (''top-level match must be '' @ quoted GroupMatchAny))
      else if sc_groups sc = [] then Some (OtherErr ''constraints must contain at least one group'')
      else first_err_from 0 (validate_group ord) (sc_groups sc))"

definition ValidateStructuredConstraintShape :: "order \<Rightarrow> raw \<Rightarrow> go_error option" where
  "ValidateStructuredConstraintShape ord r = (case ParseStructuredConstraints ord r of
       Inl e \<Rightarrow> Some e
     | Inr sc \<Rightarrow> if \<not> IsStructuredConstraintsV2 r then None else validateStructuredConstraints ord sc)"

definition restricts :: "condition \<Rightarrow> bool" where
  "restricts c \<longleftrightarrow> c_field c = DataWindowNamespaceKey \<or> isComparisonOp (c_op c) \<or>
     isDenyOp (c_op c) \<and> conditionValues c \<noteq> [] \<or>
     list_ex (\<lambda>v. \<not> IsSemanticWildcard v) (conditionValues c)"

definition StructuredConstraintsHasNonWildcard :: "sconstraints \<Rightarrow> bool" where
  "StructuredConstraintsHasNonWildcard sc \<longleftrightarrow> list_ex (\<lambda>g. list_ex restricts (g_conditions g)) (sc_groups sc)"

definition StructuredConstraintGroupsAreEmpty :: "sconstraints \<Rightarrow> bool" where
  "StructuredConstraintGroupsAreEmpty sc \<longleftrightarrow>
     (if sc_groups sc = [] then True else list_all (\<lambda>g. g_conditions g = []) (sc_groups sc))"

definition ConstraintsAreUnrestricted :: "order \<Rightarrow> raw \<Rightarrow> bool" where
  "ConstraintsAreUnrestricted ord r =
     (if r = Empty \<or> r = Doc JNull \<or> r = Doc (JObj []) then True
      else (case ParseStructuredConstraints ord r of
          Inl _ \<Rightarrow> False
        | Inr sc \<Rightarrow> \<not> StructuredConstraintsHasNonWildcard sc))"

section \<open>Evaluation\<close>

definition splitFieldConditions :: "condition list \<Rightarrow> raw list \<times> raw list \<times> condition list" where
  "splitFieldConditions conds =
     (let values = filter (\<lambda>c. \<not> isComparisonOp (c_op c)) conds
      in (concat (map conditionValues (filter (\<lambda>c. isAllowOp (c_op c)) values)),
          concat (map conditionValues (filter (\<lambda>c. \<not> isAllowOp (c_op c) \<and> isDenyOp (c_op c)) values)),
          filter (\<lambda>c. isComparisonOp (c_op c)) conds))"

definition hasWildcardAllow :: "raw list \<Rightarrow> bool" where
  "hasWildcardAllow allow = list_ex IsWildcard allow"

definition hasRelativeDateAllow :: "raw list \<Rightarrow> bool" where
  "hasRelativeDateAllow allow = list_ex (\<lambda>v. ExtractRelativeDateToken v \<noteq> None) allow"

definition value_matches :: "bool \<Rightarrow> string \<Rightarrow> raw \<Rightarrow> raw \<Rightarrow> bool" where
  "value_matches recipientMulti param cfg src =
     ((if recipientMulti then validateRecipientMetaConstraint param cfg src
       else validateConstraintValueAgainstSource param cfg src) = None)"

definition valueMatchesAnyAllow :: "string \<Rightarrow> raw list \<Rightarrow> raw \<Rightarrow> bool \<Rightarrow> bool" where
  "valueMatchesAnyAllow param allow src recipientMulti =
     list_ex (\<lambda>v. IsWildcard v \<or> ExtractRelativeDateToken v \<noteq> None \<or> value_matches recipientMulti param v src) allow"

definition evaluateDenyList :: "string \<Rightarrow> raw list \<Rightarrow> raw \<Rightarrow> bool \<Rightarrow> go_error option" where
  "evaluateDenyList param deny src recipientMulti =
     first_err (\<lambda>v. if IsWildcard v then None
        else if value_matches recipientMulti param v src then Some (ConfigErr param
          (if recipientMulti then ''metadata value matches a denied constraint''
           else ''value matches a denied constraint''))
        else None) deny"

definition evaluateDenyOnly :: "string \<Rightarrow> raw list \<Rightarrow> raw \<Rightarrow> bool \<Rightarrow> bool \<Rightarrow> go_error option" where
  "evaluateDenyOnly param deny src present recipientMulti =
     (if deny = [] then None else if \<not> present then None
      else evaluateDenyList param deny src recipientMulti)"

definition evaluateMetaSource ::
  "string \<Rightarrow> string \<Rightarrow> raw list \<Rightarrow> raw list \<Rightarrow> raw \<Rightarrow> bool \<Rightarrow> go_error option" where
  "evaluateMetaSource param metaKey allow deny src isMeta =
     (let multi = (isMeta \<and> isRecipientMetaKey metaKey)
      in if hasWildcardAllow allow then evaluateDenyOnly param deny src (src \<noteq> Empty) multi
         else if allow \<noteq> [] \<and> \<not> valueMatchesAnyAllow param allow src multi then
           Some (ConfigErr param ''metadata value does not match allowed constraints'')
         else evaluateDenyList param deny src multi)"

definition evaluateExecFieldConditions :: "string \<Rightarrow> condition list \<Rightarrow> json gomap \<Rightarrow> go_error option" where
  "evaluateExecFieldConditions field conds exec =
     (let (allow, deny, comparisons) = splitFieldConditions conds;
          src = lookup_raw exec field; present = (map_of exec field \<noteq> None);
          missing = Some (ConfigErr field ''required parameter is missing'')
      in and_then
           (first_err (\<lambda>c. if \<not> present then missing
                            else evaluateComparisonConstraint field (c_op c) (c_value c) src) comparisons)
           (if allow = [] \<and> deny = [] then None
            else if hasWildcardAllow allow then evaluateDenyOnly field deny src present False
            else if \<not> present then
              (if allow \<noteq> [] \<and> \<not> hasRelativeDateAllow allow then missing
               else evaluateDenyOnly field deny src present False)
            else if allow \<noteq> [] \<and> \<not> valueMatchesAnyAllow field allow src False then
              Some (ConfigErr field ''value does not match allowed constraints'')
            else evaluateDenyList field deny src False))"

text \<open>The closure \<^verbatim>\<open>evalMetaComparisons\<close>.\<close>

definition evalMetaComparisons :: "string \<Rightarrow> condition list \<Rightarrow> raw \<Rightarrow> go_error option" where
  "evalMetaComparisons param comparisons src =
     (if comparisons = [] then None
      else if src = Empty then Some (ConfigErr param ''required metadata field is missing'')
      else first_err (\<lambda>c. evaluateComparisonConstraint param (c_op c) (c_value c) src) comparisons)"

definition check_source :: "string \<Rightarrow> string \<Rightarrow> condition list \<Rightarrow> bool \<Rightarrow> raw \<Rightarrow> go_error option" where
  "check_source param metaKey conds isMeta src =
     (let (allow, deny, comparisons) = splitFieldConditions conds
      in and_then (evalMetaComparisons param comparisons src)
           (evaluateMetaSource param metaKey allow deny src isMeta))"

definition evaluateFieldConditions ::
  "string \<Rightarrow> string \<Rightarrow> condition list \<Rightarrow> json gomap \<Rightarrow> bool \<Rightarrow> go_error option" where
  "evaluateFieldConditions param metaKey conds meta isMeta =
     (let messagesRaw = lookup_raw meta ''messages''
      in if messagesRaw \<noteq> Empty \<and> messagesRaw \<noteq> Doc JNull then
           (case unmarshal json_maps messagesRaw of
              None \<Rightarrow> Some (OtherErr ''invalid resolved messages metadata'')
            | Some messages \<Rightarrow>
                if messages = [] then Some MetadataUnresolved
                else first_err (\<lambda>msg. check_source param metaKey conds isMeta
                       (perMessageMetaSourceValue metaKey msg)) messages)
         else check_source param metaKey conds isMeta (flatMetaSourceValue metaKey meta))"

definition groupConditionsByField :: "condition list \<Rightarrow> condition list gomap" where
  "groupConditionsByField conditions =
     foldl (\<lambda>m c. AList.update (c_field c)
        ((case map_of m (c_field c) of None \<Rightarrow> [] | Some cs \<Rightarrow> cs) @ [c]) m) [] conditions"

text \<open>One round of the loop over the fields: nothing, or the result the group returns with.\<close>

definition evaluate_field ::
  "condition list gomap \<Rightarrow> json gomap \<Rightarrow> json gomap option \<Rightarrow> string \<Rightarrow> bool result option" where
  "evaluate_field byField exec meta field =
     (let conds = (case map_of byField field of None \<Rightarrow> [] | Some cs \<Rightarrow> cs)
      in if field = DataWindowNamespaceKey then None
         else if is_meta_field field then
           (case meta of
              None \<Rightarrow> Some (Inl MetadataUnresolved)
            | Some m \<Rightarrow>
                if evaluateFieldConditions field (trim_prefix field (MetaNamespaceKey @ ''.'')) conds m True \<noteq> None
                then Some (Inr False) else None)
         else if evaluateExecFieldConditions field conds exec \<noteq> None then Some (Inr False) else None)"

definition evaluateConstraintGroup ::
  "order \<Rightarrow> cgroup \<Rightarrow> json gomap \<Rightarrow> json gomap option \<Rightarrow> bool result" where
  "evaluateConstraintGroup ord g exec meta =
     (let byField = groupConditionsByField (g_conditions g)
      in case first_return (evaluate_field byField exec meta) (ord (keys byField)) of
           Some r \<Rightarrow> r
         | None \<Rightarrow>
             (let configured = filter (\<lambda>f. \<not> (f = DataWindowNamespaceKey \<or> is_meta_field f)) (ord (keys byField))
              in case first_err (\<lambda>k. if k \<in> set configured then None
                     else Some (ConfigErr k ''parameter not defined in configuration'')) (ord (keys exec)) of
                   Some e \<Rightarrow> Inl e
                 | None \<Rightarrow> Inr True))"

definition no_scenario :: go_error where
  "no_scenario = ConfigErr ''constraints'' ''no matching scenario''"

fun match_groups :: "(cgroup \<Rightarrow> bool result) \<Rightarrow> cgroup list \<Rightarrow> go_error option" where
  "match_groups ev [] = Some no_scenario"
| "match_groups ev (g # gs) = (case ev g of
      Inl e \<Rightarrow> Some e
    | Inr matched \<Rightarrow> if matched then None else match_groups ev gs)"

definition decode_exec :: "raw \<Rightarrow> json gomap option" where
  "decode_exec execParams =
     (if execParams = Empty \<or> execParams = Doc JNull \<or> execParams = Doc (JObj []) then Some []
      else unmarshal json_map execParams)"

text \<open>\<open>Some None\<close> is the case \<^verbatim>\<open>hasMeta = false\<close>.\<close>

definition decode_meta :: "raw \<Rightarrow> json gomap option option" where
  "decode_meta resolvedMeta =
     (if resolvedMeta \<noteq> Empty \<and> resolvedMeta \<noteq> Doc JNull then map_option Some (unmarshal json_map resolvedMeta)
      else Some None)"

definition ValidateParametersAgainstStructuredConfig ::
  "order \<Rightarrow> sconstraints \<Rightarrow> raw \<Rightarrow> raw \<Rightarrow> go_error option" where
  "ValidateParametersAgainstStructuredConfig ord sc execParams resolvedMeta =
     (case decode_exec execParams of
        None \<Rightarrow> Some (OtherErr ''invalid execution parameters'')
      | Some exec \<Rightarrow> (case decode_meta resolvedMeta of
          None \<Rightarrow> Some (OtherErr ''invalid resolved metadata'')
        | Some meta \<Rightarrow> match_groups (\<lambda>g. evaluateConstraintGroup ord g exec meta) (sc_groups sc)))"

section \<open>Encoding and normalisation\<close>

text \<open>A raw message inside an encoded value; one with no bytes is written as null.\<close>

definition raw_json :: "raw \<Rightarrow> json" where
  "raw_json r = (case r of Doc j \<Rightarrow> j | _ \<Rightarrow> JNull)"

definition marshal_condition :: "condition \<Rightarrow> json" where
  "marshal_condition c = JObj
     ([(''field'', JStr (c_field c)), (''op'', JStr (c_op c))] @
      (if c_values c = [] then [] else [(''values'', JArr (map raw_json (c_values c)))]) @
      (if c_value c = Empty then [] else [(''value'', raw_json (c_value c))]))"

definition marshal_group :: "cgroup \<Rightarrow> json" where
  "marshal_group g = JObj
     [(''match'', JStr (g_match g)), (''conditions'', JArr (map marshal_condition (g_conditions g)))]"

definition marshal_document :: "sconstraints \<Rightarrow> json" where
  "marshal_document sc = JObj
     [(''$version'', JNum (int_str (sc_version sc))), (''match'', JStr (sc_match sc)),
      (''groups'', JArr (map marshal_group (sc_groups sc)))]"

text \<open>\<^verbatim>\<open>json.Marshal\<close> fails on a raw message that is not JSON.\<close>

definition marshals :: "sconstraints \<Rightarrow> bool" where
  "marshals sc \<longleftrightarrow> list_all (\<lambda>g. list_all (\<lambda>c. c_value c \<noteq> Garbage \<and> Garbage \<notin> set (c_values c))
     (g_conditions g)) (sc_groups sc)"

definition marshal_result :: "sconstraints \<Rightarrow> raw result" where
  "marshal_result sc =
     (if marshals sc then Inr (Doc (marshal_document sc)) else Inl (OtherErr ''invalid raw message''))"

definition with_defaults :: "sconstraints \<Rightarrow> sconstraints" where
  "with_defaults sc =
     \<lparr>sc_version = ConstraintVersionV2,
      sc_match = (if sc_match sc = [] then GroupMatchAny else sc_match sc),
      sc_groups = map (\<lambda>g. if g_match g = [] then g\<lparr>g_match := GroupMatchAll\<rparr> else g) (sc_groups sc)\<rparr>"

definition MarshalStructuredConstraints :: "sconstraints \<Rightarrow> raw result" where
  "MarshalStructuredConstraints sc = marshal_result (with_defaults sc)"

text \<open>The normalised value, and whether it changed.\<close>

definition normalizeConstraintValue :: "raw \<Rightarrow> raw \<times> bool" where
  "normalizeConstraintValue val =
     (if IsWildcard val then (val, False)
      else if extractPattern val \<noteq> None then (val, False)
      else (case unmarshal json_string val of
          None \<Rightarrow> (val, False)
        | Some s \<Rightarrow>
            if s = WildcardValue then (val, False)
            else if CHR ''*'' \<in> set s then (Doc (JObj [(PatternKey, JStr s)]), True)
            else (val, False)))"

definition normalize_condition :: "condition \<Rightarrow> condition" where
  "normalize_condition c =
     (if c_op c \<in> {OpAnyOf, OpNoneOf} then c\<lparr>c_values := map (fst \<circ> normalizeConstraintValue) (c_values c)\<rparr>
      else if c_op c \<in> {OpMatches, OpDoesNotMatch} \<or> isComparisonOp (c_op c) then
        c\<lparr>c_value := fst (normalizeConstraintValue (c_value c))\<rparr>
      else c)"

definition condition_mutates :: "condition \<Rightarrow> bool" where
  "condition_mutates c =
     (if c_op c \<in> {OpAnyOf, OpNoneOf} then list_ex (snd \<circ> normalizeConstraintValue) (c_values c)
      else if c_op c \<in> {OpMatches, OpDoesNotMatch} \<or> isComparisonOp (c_op c) then
        snd (normalizeConstraintValue (c_value c))
      else False)"

definition normalize_groups :: "sconstraints \<Rightarrow> sconstraints" where
  "normalize_groups sc =
     sc\<lparr>sc_groups := map (\<lambda>g. g\<lparr>g_conditions := map normalize_condition (g_conditions g)\<rparr>) (sc_groups sc)\<rparr>"

definition NormalizeStructuredConstraints :: "raw \<Rightarrow> raw result" where
  "NormalizeStructuredConstraints r =
     (if \<not> IsStructuredConstraintsV2 r then Inr r
      else (case unmarshal decode_document r of
          None \<Rightarrow> Inl (OtherErr ''invalid structured constraints'')
        | Some sc \<Rightarrow>
            if \<not> list_ex (\<lambda>g. list_ex condition_mutates (g_conditions g)) (sc_groups sc) then Inr r
            else marshal_result (normalize_groups sc)))"

section \<open>Fields of a document\<close>

definition StructuredConstraintsConfiguredParamFields :: "sconstraints \<Rightarrow> string set" where
  "StructuredConstraintsConfiguredParamFields sc =
     set (filter (\<lambda>f. \<not> (f = DataWindowNamespaceKey \<or> is_meta_field f))
       (concat (map (\<lambda>g. map c_field (g_conditions g)) (sc_groups sc))))"

definition StructuredConstraintsHasMeta :: "sconstraints \<Rightarrow> bool" where
  "StructuredConstraintsHasMeta sc \<longleftrightarrow>
     list_ex (\<lambda>g. list_ex (\<lambda>c. is_meta_field (c_field c)) (g_conditions g)) (sc_groups sc)"

definition wildcard_condition :: "string \<Rightarrow> condition" where
  "wildcard_condition k = \<lparr>c_field = k, c_op = OpMatches, c_values = [], c_value = Doc (JStr ''*'')\<rparr>"

text \<open>The keys of the schema are a list without repetition, ranged over in the order given.\<close>

definition AddMissingSchemaFieldsToStructured :: "order \<Rightarrow> sconstraints \<Rightarrow> string list \<Rightarrow> sconstraints" where
  "AddMissingSchemaFieldsToStructured ord sc schemaKeys =
     (if schemaKeys = [] \<or> sc_groups sc = [] then sc
      else (let missing = filter (\<lambda>k. k \<notin> StructuredConstraintsConfiguredParamFields sc) (ord schemaKeys)
            in sc\<lparr>sc_groups := map (\<lambda>g. g\<lparr>g_conditions := g_conditions g @ map wildcard_condition missing\<rparr>)
                  (sc_groups sc)\<rparr>))"

section \<open>What the evaluation accepts\<close>

definition allows :: "condition list \<Rightarrow> raw list" where
  "allows conds = fst (splitFieldConditions conds)"

definition denies :: "condition list \<Rightarrow> raw list" where
  "denies conds = fst (snd (splitFieldConditions conds))"

definition comparisons_of :: "condition list \<Rightarrow> condition list" where
  "comparisons_of conds = snd (snd (splitFieldConditions conds))"

lemma split_parts: "splitFieldConditions conds = (allows conds, denies conds, comparisons_of conds)"
  by (simp add: allows_def denies_def comparisons_of_def)

text \<open>A value a deny list lets through.\<close>

definition undenied :: "bool \<Rightarrow> string \<Rightarrow> raw list \<Rightarrow> raw \<Rightarrow> bool" where
  "undenied multi param deny src \<longleftrightarrow> (\<forall>v \<in> set deny. IsWildcard v \<or> \<not> value_matches multi param v src)"

lemma evaluateDenyList_ok [simp]: "evaluateDenyList param deny src multi = None \<longleftrightarrow> undenied multi param deny src"
  by (auto simp: evaluateDenyList_def undenied_def)

lemma evaluateDenyOnly_ok [simp]:
  "evaluateDenyOnly param deny src present multi = None \<longleftrightarrow> (present \<longrightarrow> undenied multi param deny src)"
  by (auto simp: evaluateDenyOnly_def undenied_def)

lemma wildcard_matches_any: "hasWildcardAllow allow \<Longrightarrow> valueMatchesAnyAllow param allow src multi"
  by (auto simp: hasWildcardAllow_def valueMatchesAnyAllow_def list_ex_iff)

text \<open>The condition on one parameter, in the terms a reader of the document has.\<close>

definition param_ok :: "string \<Rightarrow> condition list \<Rightarrow> json gomap \<Rightarrow> bool" where
  "param_ok f conds exec \<longleftrightarrow> (case map_of exec f of
       None \<Rightarrow> comparisons_of conds = [] \<and>
         (allows conds = [] \<or> hasWildcardAllow (allows conds) \<or> hasRelativeDateAllow (allows conds))
     | Some v \<Rightarrow>
         (\<forall>c \<in> set (comparisons_of conds). evaluateComparisonConstraint f (c_op c) (c_value c) (Doc v) = None) \<and>
         (allows conds = [] \<or> valueMatchesAnyAllow f (allows conds) (Doc v) False) \<and>
         undenied False f (denies conds) (Doc v))"

lemma evaluateExecFieldConditions_ok:
  "evaluateExecFieldConditions f conds exec = None \<longleftrightarrow> param_ok f conds exec"
proof (cases "map_of exec f")
  case None
  then show ?thesis
    by (auto simp: evaluateExecFieldConditions_def split_parts Let_def param_ok_def hasWildcardAllow_def undenied_def)
next
  case (Some v)
  then show ?thesis
    by (auto simp: evaluateExecFieldConditions_def split_parts Let_def param_ok_def lookup_raw_def
        wildcard_matches_any hasWildcardAllow_def undenied_def
        dest: wildcard_matches_any [unfolded hasWildcardAllow_def])
qed

end
