(* ===== verification/StructuredEvaluation.thy ===== *)
theory StructuredEvaluation
  imports StructuredConstraints
begin

text \<open>
  What version 2 documents accept (\<^verbatim>\<open>ValidateParametersAgainstStructuredConfig\<close> and below in
  \<^verbatim>\<open>db/constraint_structured.go\<close>): \<open>group_accepts\<close> says of a group, in terms of its conditions per
  field, what the loops of the code compute; the theorems relate the verdict of the code to it for
  every order in which Go may walk its maps.
\<close>

section \<open>Conditions by field\<close>

definition conds_of :: "cgroup \<Rightarrow> string \<Rightarrow> condition list" where
  "conds_of g f = filter (\<lambda>c. c_field c = f) (g_conditions g)"

definition fields_of :: "cgroup \<Rightarrow> string set" where
  "fields_of g = set (map c_field (g_conditions g))"

definition param_fields :: "cgroup \<Rightarrow> string set" where
  "param_fields g = {f \<in> fields_of g. \<not> (f = DataWindowNamespaceKey \<or> is_meta_field f)}"

lemma groupConditionsByField_snoc:
  "groupConditionsByField (cs @ [c]) = AList.update (c_field c)
     ((case map_of (groupConditionsByField cs) (c_field c) of None \<Rightarrow> [] | Some ds \<Rightarrow> ds) @ [c])
     (groupConditionsByField cs)"
  by (simp add: groupConditionsByField_def)

lemma map_of_groupConditionsByField:
  "map_of (groupConditionsByField cs) f =
     (if f \<in> c_field ` set cs then Some (filter (\<lambda>c. c_field c = f) cs) else None)"
proof (induction cs arbitrary: f rule: rev_induct)
  case (snoc c cs)
  have "f \<notin> c_field ` set cs \<Longrightarrow> filter (\<lambda>c. c_field c = f) cs = []" for f
    by (auto simp: filter_empty_conv)
  then show ?case
    by (auto simp: groupConditionsByField_snoc update_conv' snoc.IH split: option.splits)
qed (simp add: groupConditionsByField_def)

lemma keys_groupConditionsByField: "set (keys (groupConditionsByField cs)) = c_field ` set cs"
  by (auto simp: set_keys dom_def map_of_groupConditionsByField)

section \<open>The verdict on one source\<close>

lemma value_matches_Empty: "\<not> IsWildcard v \<Longrightarrow> \<not> value_matches multi param v Empty"
  by (auto simp: value_matches_def validateRecipientMetaConstraint_def validateConstraintValueAgainstSource_def
      validateRecipientPatternConstraint_def validatePatternConstraint_def Let_def split: option.splits if_splits)

lemma undenied_Empty [simp]: "undenied multi param deny Empty"
  by (auto simp: undenied_def value_matches_Empty)

text \<open>A metadata source satisfies the conditions on its field.\<close>

definition source_ok :: "string \<Rightarrow> string \<Rightarrow> condition list \<Rightarrow> raw \<Rightarrow> bool" where
  "source_ok f key conds src \<longleftrightarrow>
     (\<forall>c \<in> set (comparisons_of conds). src \<noteq> Empty \<and>
        evaluateComparisonConstraint f (c_op c) (c_value c) src = None) \<and>
     (allows conds = [] \<or> valueMatchesAnyAllow f (allows conds) src (isRecipientMetaKey key)) \<and>
     undenied (isRecipientMetaKey key) f (denies conds) src"

definition meta_ok :: "string \<Rightarrow> condition list \<Rightarrow> json gomap \<Rightarrow> bool" where
  "meta_ok f conds meta \<longleftrightarrow>
     (let key = trim_prefix f (MetaNamespaceKey @ ''.''); messagesRaw = lookup_raw meta ''messages''
      in if messagesRaw \<noteq> Empty \<and> messagesRaw \<noteq> Doc JNull
         then (case unmarshal json_maps messagesRaw of
                 None \<Rightarrow> False
               | Some messages \<Rightarrow> messages \<noteq> [] \<and>
                   (\<forall>msg \<in> set messages. source_ok f key conds (perMessageMetaSourceValue key msg)))
         else source_ok f key conds (flatMetaSourceValue key meta))"

lemma evaluateMetaSource_ok:
  "evaluateMetaSource f key allow deny src True = None \<longleftrightarrow>
     (allow = [] \<or> valueMatchesAnyAllow f allow src (isRecipientMetaKey key)) \<and>
     undenied (isRecipientMetaKey key) f deny src"
  using undenied_Empty wildcard_matches_any
  by (auto simp: evaluateMetaSource_def Let_def hasWildcardAllow_def)

lemma check_source_ok [simp]: "check_source f key conds True src = None \<longleftrightarrow> source_ok f key conds src"
  by (auto simp: check_source_def split_parts evalMetaComparisons_def evaluateMetaSource_ok source_ok_def neq_Nil_conv)

lemma evaluateFieldConditions_ok:
  "evaluateFieldConditions f (trim_prefix f (MetaNamespaceKey @ ''.'')) conds meta True = None \<longleftrightarrow>
     meta_ok f conds meta"
  by (auto simp: evaluateFieldConditions_def meta_ok_def Let_def split: option.splits)

section \<open>The verdict of a group\<close>

definition field_ok :: "cgroup \<Rightarrow> json gomap \<Rightarrow> json gomap option \<Rightarrow> string \<Rightarrow> bool" where
  "field_ok g exec meta f \<longleftrightarrow> f = DataWindowNamespaceKey \<or>
     (if is_meta_field f then (case meta of None \<Rightarrow> False | Some m \<Rightarrow> meta_ok f (conds_of g f) m)
      else param_ok f (conds_of g f) exec)"

definition group_accepts :: "cgroup \<Rightarrow> json gomap \<Rightarrow> json gomap option \<Rightarrow> bool" where
  "group_accepts g exec meta \<longleftrightarrow>
     (\<forall>f \<in> fields_of g. field_ok g exec meta f) \<and> set (keys exec) \<subseteq> param_fields g"

lemma evaluate_field_None:
  assumes "f \<in> fields_of g"
  shows "evaluate_field (groupConditionsByField (g_conditions g)) exec meta f = None \<longleftrightarrow> field_ok g exec meta f"
  using assms
  by (auto simp: evaluate_field_def Let_def field_ok_def fields_of_def map_of_groupConditionsByField
      conds_of_def evaluateFieldConditions_ok evaluateExecFieldConditions_ok split: option.splits)

text \<open>What a round of the loop can return with.\<close>

lemma evaluate_field_Some:
  "evaluate_field byField exec meta f = Some r \<Longrightarrow> r = Inr False \<or> r = Inl MetadataUnresolved \<and> meta = None \<and> is_meta_field f"
  by (auto simp: evaluate_field_def Let_def split: if_splits option.splits)

lemma evaluateConstraintGroup_accepts:
  assumes "range_order ord"
  shows "evaluateConstraintGroup ord g exec meta = Inr True \<longleftrightarrow> group_accepts g exec meta"
proof -
  let ?by = "groupConditionsByField (g_conditions g)"
  have keys: "set (ord (keys ?by)) = fields_of g"
    by (simp add: range_order_set [OF assms] keys_groupConditionsByField fields_of_def)
  have loop: "first_return (evaluate_field ?by exec meta) (ord (keys ?by)) = None \<longleftrightarrow>
      (\<forall>f \<in> fields_of g. field_ok g exec meta f)"
    by (simp add: keys evaluate_field_None)
  have conf: "set (filter (\<lambda>f. \<not> (f = DataWindowNamespaceKey \<or> is_meta_field f)) (ord (keys ?by))) = param_fields g"
    by (auto simp: param_fields_def keys)
  show ?thesis
  proof (cases "first_return (evaluate_field ?by exec meta) (ord (keys ?by))")
    case None
    have extra: "first_err (\<lambda>k. if k \<in> param_fields g then None
        else Some (ConfigErr k ''parameter not defined in configuration'')) (ord (keys exec)) = None \<longleftrightarrow>
        set (keys exec) \<subseteq> param_fields g"
      by (auto simp: range_order_set [OF assms] split: if_splits)
    from None loop have "\<forall>f \<in> fields_of g. field_ok g exec meta f" by blast
    then show ?thesis
      unfolding evaluateConstraintGroup_def Let_def None option.case conf group_accepts_def extra [symmetric]
      by (simp split: option.splits del: first_err_None_iff)
  next
    case (Some r)
    then have "\<not> (\<forall>f \<in> fields_of g. field_ok g exec meta f)" using loop by simp
    moreover have "r \<noteq> Inr True"
      using first_return_Some [OF Some] evaluate_field_Some by fastforce
    ultimately show ?thesis using Some by (auto simp: evaluateConstraintGroup_def Let_def group_accepts_def)
  qed
qed


text \<open>With metadata at hand (or no condition that needs it) a group whose conditions fail is passed over,
  and only an undeclared parameter ends the search.\<close>

definition meta_supplied :: "cgroup \<Rightarrow> json gomap option \<Rightarrow> bool" where
  "meta_supplied g meta \<longleftrightarrow> meta \<noteq> None \<or> (\<forall>f \<in> fields_of g. \<not> is_meta_field f)"

lemma evaluateConstraintGroup_fails:
  assumes ord: "range_order ord" and meta: "meta_supplied g meta"
  shows "evaluateConstraintGroup ord g exec meta = Inr False \<longleftrightarrow> (\<exists>f \<in> fields_of g. \<not> field_ok g exec meta f)"
proof -
  let ?by = "groupConditionsByField (g_conditions g)"
  have keys: "set (ord (keys ?by)) = fields_of g"
    by (simp add: range_order_set [OF ord] keys_groupConditionsByField fields_of_def)
  have loop: "first_return (evaluate_field ?by exec meta) (ord (keys ?by)) = None \<longleftrightarrow>
      (\<forall>f \<in> fields_of g. field_ok g exec meta f)"
    by (simp add: keys evaluate_field_None)
  show ?thesis
  proof (cases "first_return (evaluate_field ?by exec meta) (ord (keys ?by))")
    case None
    then have "\<forall>f \<in> fields_of g. field_ok g exec meta f" using loop by blast
    with None show ?thesis
      by (simp add: evaluateConstraintGroup_def Let_def del: first_return_None_iff split: option.splits)
  next
    case (Some r)
    obtain f where f: "f \<in> fields_of g" "evaluate_field ?by exec meta f = Some r"
      using first_return_Some [OF Some] keys by blast
    then have "r = Inr False" using evaluate_field_Some [OF f(2)] meta by (auto simp: meta_supplied_def)
    moreover have "\<not> field_ok g exec meta f" using f evaluate_field_None [OF f(1), of exec meta] by simp
    ultimately show ?thesis using Some f(1) by (auto simp: evaluateConstraintGroup_def Let_def)
  qed
qed

lemma group_verdict:
  assumes "range_order ord" "meta_supplied g meta" "set (keys exec) \<subseteq> param_fields g"
  shows "evaluateConstraintGroup ord g exec meta = Inr (group_accepts g exec meta)"
  using evaluateConstraintGroup_accepts [OF assms(1), of g exec meta]
    evaluateConstraintGroup_fails [OF assms(1,2), of exec] assms(3)
  by (auto simp: group_accepts_def)

lemma match_groups_sound: "match_groups ev gs = None \<Longrightarrow> \<exists>g \<in> set gs. ev g = Inr True"
  by (induction gs) (auto split: sum.splits if_splits)

lemma match_groups_bool:
  "(\<And>g. g \<in> set gs \<Longrightarrow> ev g = Inr (P g)) \<Longrightarrow> match_groups ev gs = None \<longleftrightarrow> (\<exists>g \<in> set gs. P g)"
  by (induction gs) auto

lemma match_groups_same:
  assumes "\<And>g b. g \<in> set gs \<Longrightarrow> ev g = Inr b \<longleftrightarrow> ev' g = Inr b"
  shows "match_groups ev gs = None \<longleftrightarrow> match_groups ev' gs = None"
  using assms
proof (induction gs)
  case (Cons g gs)
  show ?case
  proof (cases "ev g")
    case (Inl e)
    then obtain e' where "ev' g = Inl e'" using Cons.prems [of g] by (cases "ev' g") auto
    with Inl show ?thesis by simp
  next
    case (Inr b)
    then have "ev' g = Inr b" using Cons.prems [of g b] by simp
    moreover have "match_groups ev gs = None \<longleftrightarrow> match_groups ev' gs = None"
      by (rule Cons.IH) (simp add: Cons.prems)
    ultimately show ?thesis using Inr by simp
  qed
qed simp

section \<open>Properties\<close>


text \<open>C3: When the metadata the groups need is there and every group declares all parameters that were
  sent, a document accepts exactly when one of its groups does.\<close>

theorem structured_accept_iff:
  assumes "range_order ord" "decode_exec execParams = Some exec" "decode_meta resolvedMeta = Some meta"
    and "\<And>g. g \<in> set (sc_groups sc) \<Longrightarrow> meta_supplied g meta \<and> set (keys exec) \<subseteq> param_fields g"
  shows "ValidateParametersAgainstStructuredConfig ord sc execParams resolvedMeta = None \<longleftrightarrow>
     (\<exists>g \<in> set (sc_groups sc). group_accepts g exec meta)"
  using match_groups_bool [of "sc_groups sc" "\<lambda>g. evaluateConstraintGroup ord g exec meta"
      "\<lambda>g. group_accepts g exec meta"] group_verdict [OF assms(1)] assms(2-4)
  by (simp add: ValidateParametersAgainstStructuredConfig_def)

text \<open>With metadata supplied, whether a document accepts does not depend on the order in which the
  maps are walked.\<close>

theorem structured_order_independent:
  assumes "range_order ord" "range_order ord'"
    and "decode_meta resolvedMeta = Some (Some m)"
  shows "ValidateParametersAgainstStructuredConfig ord sc execParams resolvedMeta = None \<longleftrightarrow>
     ValidateParametersAgainstStructuredConfig ord' sc execParams resolvedMeta = None"
proof (cases "decode_exec execParams")
  case (Some exec)
  have "evaluateConstraintGroup ord g exec (Some m) = Inr b \<longleftrightarrow> evaluateConstraintGroup ord' g exec (Some m) = Inr b" for g b
    by (cases b) (simp_all add: evaluateConstraintGroup_accepts evaluateConstraintGroup_fails assms(1,2) meta_supplied_def)
  then have "match_groups (\<lambda>g. evaluateConstraintGroup ord g exec (Some m)) (sc_groups sc) = None \<longleftrightarrow>
      match_groups (\<lambda>g. evaluateConstraintGroup ord' g exec (Some m)) (sc_groups sc) = None"
    by (rule match_groups_same)
  then show ?thesis using Some assms(3)
    by (simp add: ValidateParametersAgainstStructuredConfig_def)
qed (simp add: ValidateParametersAgainstStructuredConfig_def)


text \<open>Documents for the examples below.\<close>

abbreviation matches_cond :: "string \<Rightarrow> json \<Rightarrow> condition" where
  "matches_cond f v \<equiv> \<lparr>c_field = f, c_op = OpMatches, c_values = [], c_value = Doc v\<rparr>"

abbreviation doc_of :: "condition list list \<Rightarrow> sconstraints" where
  "doc_of gss \<equiv> \<lparr>sc_version = 2, sc_match = ''any'', sc_groups = map (\<lambda>cs. \<lparr>g_match = ''all'', g_conditions = cs\<rparr>) gss\<rparr>"


lemma structured_accept_iff_witness:
  "ValidateParametersAgainstStructuredConfig rev (doc_of [[matches_cond ''a'' (JStr ''x'')], [matches_cond ''a'' (JStr ''*'')]])
     (Doc (JObj [(''a'', JStr ''y'')])) Empty = None \<longleftrightarrow>
   (\<exists>g \<in> set (sc_groups (doc_of [[matches_cond ''a'' (JStr ''x'')], [matches_cond ''a'' (JStr ''*'')]])).
      group_accepts g [(''a'', JStr ''y'')] None)"
  by (rule structured_accept_iff [OF range_order_rev])
    (auto simp: decode_exec_def decode_meta_def last_wins_def meta_supplied_def fields_of_def param_fields_def
      keys_def is_meta_field_def has_prefix_def key_defs)

lemma structured_order_independent_witness:
  "ValidateParametersAgainstStructuredConfig id (doc_of [[matches_cond ''a'' (JStr ''x'')]])
     (Doc (JObj [(''a'', JStr ''y'')])) (Doc (JObj [])) = None \<longleftrightarrow>
   ValidateParametersAgainstStructuredConfig rev (doc_of [[matches_cond ''a'' (JStr ''x'')]])
     (Doc (JObj [(''a'', JStr ''y'')])) (Doc (JObj [])) = None"
  by (rule structured_order_independent [where m = "[]"])
    (simp_all add: range_order_def decode_meta_def last_wins_def)

text \<open>A group that matches on its conditions but not on the declared parameters ends the search with
  an error, so that a later group which accepts the parameters is never tried.\<close>

theorem structured_or_aborts:
  "let g1 = \<lparr>g_match = ''all'', g_conditions = [matches_cond ''a'' (JStr ''*'')]\<rparr>;
       g2 = \<lparr>g_match = ''all'', g_conditions = [matches_cond ''a'' (JStr ''*''), matches_cond ''b'' (JStr ''*'')]\<rparr>;
       exec = [(''a'', JStr ''x''), (''b'', JStr ''y'')]
   in group_accepts g2 exec None \<and>
      ValidateParametersAgainstStructuredConfig id \<lparr>sc_version = 2, sc_match = ''any'', sc_groups = [g1, g2]\<rparr>
        (Doc (JObj exec)) Empty = Some (ConfigErr ''b'' ''parameter not defined in configuration'') \<and>
      ValidateParametersAgainstStructuredConfig id \<lparr>sc_version = 2, sc_match = ''any'', sc_groups = [g2, g1]\<rparr>
        (Doc (JObj exec)) Empty = None"
  by (simp only: Let_def) code_simp

text \<open>Without metadata, whether the same request is accepted depends on the order in which Go walks
  the fields of a group: either the failing parameter is met first and the next group is tried, or
  the metadata field is met first and the search ends.\<close>

theorem structured_order_dependent:
  "let sc = doc_of [[matches_cond ''a'' (JStr ''x''), matches_cond ''$meta.sender'' (JStr ''*'')],
                    [matches_cond ''a'' (JStr ''*'')]];
       params = Doc (JObj [(''a'', JStr ''y'')])
   in ValidateParametersAgainstStructuredConfig id sc params Empty = None \<and>
      ValidateParametersAgainstStructuredConfig rev sc params Empty = Some MetadataUnresolved"
  by (simp only: Let_def) code_simp

lemma decode_all_JStr [simp]: "decode_all json_string (map JStr xs) = Some xs"
  by (induction xs) auto

lemma deny_pattern_array:
  assumes "extractPattern v = Some p"
  shows "undenied False param [v] (Doc (JArr (map JStr xs))) \<longleftrightarrow> (\<exists>x \<in> set xs. \<not> glob p x)"
  using extractPattern_not_wildcard [OF assms]
  by (auto simp: undenied_def value_matches_def validateConstraintValueAgainstSource_def assms
      validatePatternConstraint_ok strings_of_def)

text \<open>A deny pattern on a parameter that is an array of strings only bites when every element matches
  it: one harmless element lets the denied ones through.\<close>

theorem deny_array_needs_all:
  assumes "extractPattern v = Some p" "map_of exec f = Some (JArr (map JStr xs))"
  shows "evaluateExecFieldConditions f
     [matches_cond f (JStr ''*''), \<lparr>c_field = f, c_op = OpDoesNotMatch, c_values = [], c_value = v\<rparr>] exec = None
     \<longleftrightarrow> (\<exists>x \<in> set xs. \<not> glob p x)"
proof -
  have "v \<noteq> Empty" using assms(1) by (auto simp: extractPattern_def)
  then show ?thesis
    by (simp add: evaluateExecFieldConditions_ok param_ok_def assms(2) allows_def denies_def comparisons_of_def
        splitFieldConditions_def isAllowOp_def isDenyOp_def isComparisonOp_def op_defs conditionValues_def
        deny_pattern_array [OF assms(1)] valueMatchesAnyAllow_def IsWildcard_iff)
qed

lemma deny_array_needs_all_witness:
  "evaluateExecFieldConditions ''to''
     [matches_cond ''to'' (JStr ''*''), \<lparr>c_field = ''to'', c_op = OpDoesNotMatch, c_values = [],
        c_value = Doc (JObj [(''$pattern'', JStr ''*@evil.com'')])\<rparr>]
     [(''to'', JArr (map JStr [''x@evil.com'', ''y@ok.com'']))] = None"
  by (subst deny_array_needs_all [where p = "''*@evil.com''" and xs = "[''x@evil.com'', ''y@ok.com'']"])
    (code_simp | simp add: MatchPattern_glob [symmetric])+

text \<open>The group without its data window conditions.\<close>

definition without_window :: "cgroup \<Rightarrow> cgroup" where
  "without_window g = g\<lparr>g_conditions := filter (\<lambda>c. c_field c \<noteq> DataWindowNamespaceKey) (g_conditions g)\<rparr>"

text \<open>A data window condition of a version 2 document restricts nothing: a group accepts the same
  parameters without it, and the stored document has no window for the caller to clamp to.\<close>

theorem structured_window_ignored:
  "(group_accepts (without_window g) exec meta \<longleftrightarrow> group_accepts g exec meta) \<and>
   ExtractDataWindowConstraint (Doc (marshal_document sc)) = None"
proof -
  have f: "f \<in> fields_of (without_window g) \<longleftrightarrow> f \<in> fields_of g \<and> f \<noteq> DataWindowNamespaceKey" for f
    by (auto simp: fields_of_def without_window_def)
  have "f \<noteq> DataWindowNamespaceKey \<Longrightarrow> conds_of (without_window g) f = conds_of g f" for f
    by (auto simp: conds_of_def without_window_def intro!: filter_cong)
  then have "field_ok (without_window g) exec meta f \<longleftrightarrow> field_ok g exec meta f" for f
    by (cases "f = DataWindowNamespaceKey") (simp_all add: field_ok_def split: option.splits)
  moreover have "field_ok g exec meta DataWindowNamespaceKey" by (simp add: field_ok_def)
  ultimately have "(\<forall>x \<in> fields_of (without_window g). field_ok (without_window g) exec meta x) \<longleftrightarrow>
      (\<forall>x \<in> fields_of g. field_ok g exec meta x)"
    unfolding Ball_def f by metis
  moreover have "param_fields (without_window g) = param_fields g"
    by (auto simp: param_fields_def f)
  ultimately have "group_accepts (without_window g) exec meta \<longleftrightarrow> group_accepts g exec meta"
    by (simp add: group_accepts_def)
  moreover have "ExtractDataWindowConstraint (Doc (marshal_document sc)) = None"
    by (simp add: ExtractDataWindowConstraint_def marshal_document_def last_wins_def DataWindowNamespaceKey_def)
  ultimately show ?thesis by simp
qed


section \<open>Decoding what was encoded\<close>

text \<open>Raw messages as decoding leaves them.\<close>

definition encoded_condition :: "condition \<Rightarrow> bool" where
  "encoded_condition c \<longleftrightarrow> c_value c \<noteq> Garbage \<and> (\<forall>v \<in> set (c_values c). v \<noteq> Empty \<and> v \<noteq> Garbage)"

definition encoded :: "sconstraints \<Rightarrow> bool" where
  "encoded sc \<longleftrightarrow> (\<forall>g \<in> set (sc_groups sc). \<forall>c \<in> set (g_conditions g). encoded_condition c)"

lemma decode_all_map: "(\<And>x. x \<in> set xs \<Longrightarrow> f (g x) = Some x) \<Longrightarrow> decode_all f (map g xs) = Some xs"
  by (induction xs) auto

lemma fold_key_names [simp]:
  "fold_key ''field'' = ''FIELD''" "fold_key ''op'' = ''OP''" "fold_key ''values'' = ''VALUES''"
  "fold_key ''value'' = ''VALUE''" "fold_key ''match'' = ''MATCH''" "fold_key ''conditions'' = ''CONDITIONS''"
  "fold_key ''$version'' = ''$VERSION''" "fold_key ''groups'' = ''GROUPS''"
  by code_simp+

lemma decode_condition:
  assumes "encoded_condition c"
  shows "decode_struct condition_field no_condition (marshal_condition c) = Some c"
proof -
  have "map (Doc \<circ> raw_json) (c_values c) = c_values c"
    using assms by (intro map_idI) (auto simp: encoded_condition_def raw_json_def split: raw.splits)
  moreover have "decode_all (\<lambda>v. Some (Doc v)) (map raw_json vs) = Some (map (Doc \<circ> raw_json) vs)" for vs
    by (induction vs) auto
  moreover have "c_value c \<noteq> Empty \<Longrightarrow> Doc (raw_json (c_value c)) = c_value c"
    using assms by (cases "c_value c") (auto simp: encoded_condition_def raw_json_def)
  ultimately show ?thesis
    by (simp add: decode_struct_def marshal_condition_def condition_field_def no_condition_def set_string_def set_list_def)
qed

lemma decode_group:
  assumes "\<forall>c \<in> set (g_conditions g). encoded_condition c"
  shows "decode_struct group_field \<lparr>g_match = [], g_conditions = []\<rparr> (marshal_group g) = Some g"
  using decode_all_map [of "g_conditions g" "decode_struct condition_field no_condition" marshal_condition] assms
  by (simp add: decode_condition) (simp add: decode_struct_def marshal_group_def group_field_def set_string_def set_list_def)

lemma parse_int_2 [simp]: "parse_int (int_str 2) = Some 2"
  by code_simp

lemma decode_marshal:
  assumes "encoded sc" "sc_version sc = 2"
  shows "decode_document (marshal_document sc) = Some sc"
  using decode_all_map [of "sc_groups sc" "decode_struct group_field \<lparr>g_match = [], g_conditions = []\<rparr>" marshal_group]
    assms(1)
  by (simp add: decode_group encoded_def)
    (simp add: decode_document_def decode_struct_def marshal_document_def document_field_def set_string_def
      set_int_def set_list_def assms(2))

lemma marshal_is_v2: "sc_version sc = 2 \<Longrightarrow> IsStructuredConstraintsV2 (Doc (marshal_document sc))"
  by (simp add: IsStructuredConstraintsV2_def marshal_document_def decode_struct_def probe_field_def set_int_def
      ConstraintVersionV2_def)

text \<open>C30: Parsing what \<open>MarshalStructuredConstraints\<close> wrote gives the document back, with the defaults it
  fills in.\<close>

theorem structured_marshal_parse:
  assumes "encoded sc" "MarshalStructuredConstraints sc = Inr r"
  shows "ParseStructuredConstraints ord r = Inr (with_defaults sc)"
proof -
  have r: "r = Doc (marshal_document (with_defaults sc))"
    using assms(2) by (simp add: MarshalStructuredConstraints_def marshal_result_def split: if_splits)
  have "encoded (with_defaults sc)" "sc_version (with_defaults sc) = 2"
    using assms(1) by (auto simp: encoded_def with_defaults_def ConstraintVersionV2_def)
  then show ?thesis
    by (simp add: ParseStructuredConstraints_def r marshal_is_v2 decode_marshal)
qed

lemma structured_marshal_parse_witness:
  "ParseStructuredConstraints rev (Doc (marshal_document (with_defaults (doc_of [[matches_cond ''a'' (JStr ''x'')]]))))
     = Inr (with_defaults (doc_of [[matches_cond ''a'' (JStr ''x'')]]))"
  by (rule structured_marshal_parse) (code_simp)+



section \<open>Normalisation\<close>

lemma decode_all_pred: "decode_all f xs = Some ys \<Longrightarrow> (\<And>x y. f x = Some y \<Longrightarrow> P y) \<Longrightarrow> y \<in> set ys \<Longrightarrow> P y"
  by (induction xs arbitrary: ys) (auto split: option.splits)

lemma set_fields_pred:
  assumes "set_fields f kvs x = Some y" "P x" "\<And>k j x y. P x \<Longrightarrow> f k j x = Some y \<Longrightarrow> P y"
  shows "P y"
  using assms(1,2)
proof (induction kvs arbitrary: x)
  case (Cons kv kvs)
  obtain z where z: "f (fold_key (fst kv)) (snd kv) x = Some z" "set_fields f kvs z = Some y"
    using Cons.prems by (cases kv) (auto split: option.splits)
  show ?case by (rule Cons.IH [OF z(2) assms(3) [OF Cons.prems(2) z(1)]])
qed simp

lemma decode_struct_pred:
  assumes "decode_struct f x j = Some y" "P x" "\<And>k j x y. P x \<Longrightarrow> f k j x = Some y \<Longrightarrow> P y"
  shows "P y"
  using assms set_fields_pred [of f _ x y P]
  by (auto simp: decode_struct_def split: json.splits)

lemma decoded_condition: "decode_struct condition_field no_condition j = Some c \<Longrightarrow> encoded_condition c"
proof (erule decode_struct_pred)
  fix n j c c' assume "encoded_condition c" "condition_field n j c = Some c'"
  then show "encoded_condition c'"
    by (auto simp: condition_field_def set_string_def set_list_def encoded_condition_def
        split: if_splits json.splits option.splits dest: decode_all_pred [where P = "\<lambda>v. v \<noteq> Empty \<and> v \<noteq> Garbage"])
qed (simp add: encoded_condition_def no_condition_def)

lemma decoded_group:
  "decode_struct group_field \<lparr>g_match = [], g_conditions = []\<rparr> j = Some g \<Longrightarrow> \<forall>c \<in> set (g_conditions g). encoded_condition c"
proof (erule decode_struct_pred)
  fix n j g g' assume "\<forall>c \<in> set (g_conditions g). encoded_condition c" "group_field n j g = Some g'"
  then show "\<forall>c \<in> set (g_conditions g'). encoded_condition c"
    by (auto simp: group_field_def set_string_def set_list_def
        split: if_splits json.splits option.splits dest: decode_all_pred [OF _ decoded_condition])
qed simp

lemma decoded_document: "decode_document j = Some sc \<Longrightarrow> encoded sc"
  unfolding decode_document_def
proof (erule decode_struct_pred)
  fix n j sc sc' assume "encoded sc" "document_field n j sc = Some sc'"
  then show "encoded sc'"
    by (auto simp: document_field_def set_string_def set_int_def set_list_def encoded_def
        split: if_splits json.splits option.splits dest: decode_all_pred [OF _ decoded_group])
qed (simp add: encoded_def)

lemma probe_version:
  "set_fields document_field kvs sc = Some sc' \<Longrightarrow> set_fields probe_field kvs (sc_version sc) = Some (sc_version sc')"
proof (induction kvs arbitrary: sc)
  case (Cons kv kvs)
  obtain k j where kv: "kv = (k, j)" by force
  obtain s where s: "document_field (fold_key k) j sc = Some s" "set_fields document_field kvs s = Some sc'"
    using Cons.prems by (auto simp: kv split: option.splits)
  from s(1) have "probe_field (fold_key k) j (sc_version sc) = Some (sc_version s)"
    by (auto simp: document_field_def probe_field_def set_int_def set_string_def set_list_def
        split: if_splits json.splits option.splits)
  with Cons.IH [OF s(2)] show ?case by (simp add: kv)
qed simp

lemma v2_version:
  assumes "IsStructuredConstraintsV2 (Doc j)" "decode_document j = Some sc"
  shows "sc_version sc = 2"
  using assms
  by (cases j) (auto simp: IsStructuredConstraintsV2_def decode_struct_def decode_document_def
      ConstraintVersionV2_def dest: probe_version split: if_splits)

lemma normalized_value: "\<not> snd (normalizeConstraintValue (fst (normalizeConstraintValue v)))"
proof -
  have "extractPattern (Doc (JObj [(PatternKey, JStr s)])) = Some s" for s
    by (simp add: extractPattern_def last_wins_def)
  then show ?thesis by (auto simp: normalizeConstraintValue_def Let_def split: option.splits)
qed

lemma normalized_condition: "\<not> condition_mutates (normalize_condition c)"
  by (auto simp: condition_mutates_def normalize_condition_def normalized_value list_ex_iff)

lemma normalize_keeps_doc:
  "v \<noteq> Garbage \<Longrightarrow> fst (normalizeConstraintValue v) \<noteq> Garbage"
  "v \<noteq> Empty \<Longrightarrow> fst (normalizeConstraintValue v) \<noteq> Empty"
  by (simp_all add: normalizeConstraintValue_def split: option.splits)

lemma normalize_keeps_encoded: "encoded_condition c \<Longrightarrow> encoded_condition (normalize_condition c)"
  by (simp add: normalize_condition_def encoded_condition_def normalize_keeps_doc)

text \<open>Normalising twice changes nothing more: what the normaliser returns it accepts as it is.\<close>

theorem normalize_idempotent:
  assumes "NormalizeStructuredConstraints r = Inr r'"
  shows "NormalizeStructuredConstraints r' = Inr r'"
proof (cases "r' = r")
  case False
  then obtain sc where v2: "IsStructuredConstraintsV2 r" and sc: "unmarshal decode_document r = Some sc"
    and out: "marshal_result (normalize_groups sc) = Inr r'"
    using assms by (auto simp: NormalizeStructuredConstraints_def split: if_splits option.splits)
  then obtain j where j: "r = Doc j" "decode_document j = Some sc" by (auto simp: unmarshal_Some)
  let ?n = "normalize_groups sc"
  have n: "sc_version ?n = 2" "encoded ?n"
    using v2_version [of j sc] v2 j decoded_document [of j sc]
    by (auto simp: normalize_groups_def encoded_def normalize_keeps_encoded)
  have r': "r' = Doc (marshal_document ?n)" using out by (simp add: marshal_result_def split: if_splits)
  have "\<not> list_ex (\<lambda>g. list_ex condition_mutates (g_conditions g)) (sc_groups ?n)"
    by (auto simp: normalize_groups_def list_ex_iff normalized_condition)
  then show ?thesis
    by (simp add: NormalizeStructuredConstraints_def r' marshal_is_v2 n decode_marshal)
qed (use assms in simp)

lemma normalize_idempotent_witness:
  "\<exists>r'. NormalizeStructuredConstraints (Doc (marshal_document (doc_of [[matches_cond ''a'' (JStr ''x*'')]]))) = Inr r' \<and>
     NormalizeStructuredConstraints r' = Inr r'"
proof -
  have "NormalizeStructuredConstraints (Doc (marshal_document (doc_of [[matches_cond ''a'' (JStr ''x*'')]])))
      = Inr (Doc (marshal_document (doc_of [[matches_cond ''a'' (JObj [(''$pattern'', JStr ''x*'')])]])))"
    by code_simp
  from this normalize_idempotent [OF this] show ?thesis by blast
qed

section \<open>Filling in the schema\<close>

lemma reserved_split: "set (keys exec) \<subseteq> A \<union> B \<longleftrightarrow> (\<forall>k \<in> set (keys exec). k \<notin> B \<longrightarrow> k \<in> A)"
  by blast

lemma wildcard_field_ok:
  assumes "f \<notin> fields_of g" "f \<noteq> DataWindowNamespaceKey" "\<not> is_meta_field f" "f \<in> set missing"
    and g'_def: "g' = g\<lparr>g_conditions := g_conditions g @ map wildcard_condition missing\<rparr>"
  shows "field_ok g' exec meta f"
proof -
  have "filter (\<lambda>c. c_field c = f) (g_conditions g) = []"
    using assms by (auto simp: filter_empty_conv fields_of_def)
  moreover have "set (filter (\<lambda>c. c_field c = f) (map wildcard_condition missing)) \<subseteq> {wildcard_condition f}"
    by (auto simp: wildcard_condition_def)
  ultimately have all: "set (conds_of g' f) \<subseteq> {wildcard_condition f}"
    by (auto simp: conds_of_def g'_def)
  moreover have "wildcard_condition f \<in> set (conds_of g' f)"
    using assms(4) by (auto simp: conds_of_def g'_def wildcard_condition_def)
  ultimately have one: "set (conds_of g' f) = {wildcard_condition f}" by blast
  have "comparisons_of (conds_of g' f) = []" "denies (conds_of g' f) = []"
    using one by (auto simp: comparisons_of_def denies_def splitFieldConditions_def filter_empty_conv
        wildcard_condition_def isComparisonOp_def isAllowOp_def op_defs)
  moreover have "hasWildcardAllow (allows (conds_of g' f))"
    using one by (auto simp: hasWildcardAllow_def list_ex_iff allows_def splitFieldConditions_def
        wildcard_condition_def isComparisonOp_def isAllowOp_def op_defs conditionValues_def IsWildcard_iff)
  ultimately have "param_ok f (conds_of g' f) exec"
    by (auto simp: param_ok_def wildcard_matches_any undenied_def split: option.splits)
  then show ?thesis using assms by (simp add: field_ok_def)
qed

text \<open>Filling in the schema fields lets a group accept, besides its own, exactly the schema fields no
  group mentions, with any value; its conditions stay in force.\<close>

theorem add_missing_accepts:
  assumes "range_order ord" "i < length (sc_groups sc)"
    and "\<And>k. k \<in> set schemaKeys \<Longrightarrow> k \<noteq> DataWindowNamespaceKey \<and> \<not> is_meta_field k"
  shows "group_accepts (sc_groups (AddMissingSchemaFieldsToStructured ord sc schemaKeys) ! i) exec meta \<longleftrightarrow>
    (\<forall>f \<in> fields_of (sc_groups sc ! i). field_ok (sc_groups sc ! i) exec meta f) \<and>
    set (keys exec) \<subseteq> param_fields (sc_groups sc ! i) \<union>
      (set schemaKeys - StructuredConstraintsConfiguredParamFields sc)"
proof (cases "schemaKeys = []")
  case False
  define g where "g = sc_groups sc ! i"
  define missing where "missing = filter (\<lambda>k. k \<notin> StructuredConstraintsConfiguredParamFields sc) (ord schemaKeys)"
  define g' where "g' = g\<lparr>g_conditions := g_conditions g @ map wildcard_condition missing\<rparr>"
  have g': "sc_groups (AddMissingSchemaFieldsToStructured ord sc schemaKeys) ! i = g'"
    using False assms(2) by (auto simp: AddMissingSchemaFieldsToStructured_def g_def g'_def missing_def)
  have m: "set missing = set schemaKeys - StructuredConstraintsConfiguredParamFields sc"
    by (auto simp: missing_def range_order_set [OF assms(1)])
  have "g \<in> set (sc_groups sc)" using assms(2) by (simp add: g_def)
  then have own: "param_fields g \<subseteq> StructuredConstraintsConfiguredParamFields sc"
    by (auto simp: param_fields_def fields_of_def StructuredConstraintsConfiguredParamFields_def)
  have fresh: "k \<notin> fields_of g \<and> k \<noteq> DataWindowNamespaceKey \<and> \<not> is_meta_field k" if "k \<in> set missing" for k
    using that m own assms(3) [of k] by (auto simp: param_fields_def)
  have fields: "fields_of g' = fields_of g \<union> set missing"
    by (auto simp: fields_of_def g'_def wildcard_condition_def)
  have params: "param_fields g' = param_fields g \<union> set missing"
    using fresh by (auto simp: param_fields_def fields)
  have old: "conds_of g' f = conds_of g f" if "f \<in> fields_of g" for f
  proof -
    have "f \<notin> set missing" using that fresh by blast
    then show ?thesis by (auto simp: conds_of_def g'_def wildcard_condition_def filter_empty_conv)
  qed
  have new: "field_ok g' exec meta f" if "f \<in> set missing" for f
    using fresh [OF that] that by (intro wildcard_field_ok [OF _ _ _ _ g'_def]) auto
  have "field_ok g' exec meta f \<longleftrightarrow> field_ok g exec meta f" if "f \<in> fields_of g" for f
    using old [OF that] by (simp add: field_ok_def split: option.splits)
  then show ?thesis
    using new unfolding g' g_def [symmetric] m [symmetric] group_accepts_def params fields by blast
qed (simp add: AddMissingSchemaFieldsToStructured_def group_accepts_def)

lemma add_missing_accepts_witness:
  "group_accepts (sc_groups (AddMissingSchemaFieldsToStructured rev (doc_of [[matches_cond ''a'' (JStr ''x'')]]) [''a'', ''b'']) ! 0)
     [(''a'', JStr ''x''), (''b'', JStr ''y'')] None \<longleftrightarrow>
   (\<forall>f \<in> fields_of (sc_groups (doc_of [[matches_cond ''a'' (JStr ''x'')]]) ! 0).
      field_ok (sc_groups (doc_of [[matches_cond ''a'' (JStr ''x'')]]) ! 0) [(''a'', JStr ''x''), (''b'', JStr ''y'')] None f) \<and>
    set (keys [(''a'', JStr ''x''), (''b'', JStr ''y'')]) \<subseteq> param_fields (sc_groups (doc_of [[matches_cond ''a'' (JStr ''x'')]]) ! 0) \<union>
      (set [''a'', ''b''] - StructuredConstraintsConfiguredParamFields (doc_of [[matches_cond ''a'' (JStr ''x'')]]))"
  by (rule add_missing_accepts [OF range_order_rev])
    (auto simp: is_meta_field_def has_prefix_def key_defs)

text \<open>A document that counts as unrestricted (it matches every possible value, by its comment) can
  still reject a parameter: an all-star pattern only matches strings.\<close>

theorem unrestricted_rejects_number:
  "let r = Doc (marshal_document (doc_of [[matches_cond ''a'' (JObj [(''$pattern'', JStr ''**'')])]]));
       sc = doc_of [[matches_cond ''a'' (JObj [(''$pattern'', JStr ''**'')])]]
   in ConstraintsAreUnrestricted id r \<and> ParseStructuredConstraints id r = Inr sc \<and>
      ValidateParametersAgainstStructuredConfig id sc (Doc (JObj [(''a'', JBool True)])) Empty = Some no_scenario"
  by (simp only: Let_def) code_simp

end
