(* ===== verification/FlatConstraints.thy ===== *)
theory FlatConstraints
  imports StructuredEvaluation
begin

text \<open>
  Flat constraint documents (\<^verbatim>\<open>db/constraint_validate.go\<close>): a map from parameters to wildcards,
  patterns, relative dates or fixed values, with the namespaces \<^verbatim>\<open>$meta\<close> and \<^verbatim>\<open>$data_window\<close>. The shape
  check, the evaluation against the parameters of an action, and the entry point
  \<^verbatim>\<open>ValidateParametersAgainstConfig\<close>, which picks the flat or the version 2 evaluator. The last section
  relates the flat evaluator to the version 2 evaluator on the adapted document.
\<close>

section \<open>Shape\<close>

definition star_missing :: "string \<Rightarrow> string" where
  "star_missing pattern = ''$pattern value '' @ quoted pattern @ '' must contain at least one '' @
     [CHR 0x27] @ ''*'' @ [CHR 0x27] @ '' wildcard; use a plain string for fixed values''"

definition check_pattern :: "string \<Rightarrow> raw \<Rightarrow> go_error option" where
  "check_pattern param val = (case extractPattern val of
       None \<Rightarrow> None
     | Some pattern \<Rightarrow> if CHR ''*'' \<notin> set pattern then Some (ConfigErr param (star_missing pattern)) else None)"

definition validateMetaNamespaceConfig :: "order \<Rightarrow> raw \<Rightarrow> go_error option" where
  "validateMetaNamespaceConfig ord r =
     (let no_object = Some (ConfigErr MetaNamespaceKey ''must be a JSON object'')
      in if r = Empty \<or> r = Doc JNull then no_object
         else (case unmarshal json_map r of
             None \<Rightarrow> no_object
           | Some meta \<Rightarrow>
               if meta = [] then
                 Some (ConfigErr MetaNamespaceKey ''must contain at least one metadata constraint'')
               else first_err (\<lambda>k. check_pattern (MetaNamespaceKey @ ''.'' @ k) (lookup_raw meta k)) (ord (keys meta))))"

definition check_config_key :: "order \<Rightarrow> json gomap \<Rightarrow> string \<Rightarrow> go_error option" where
  "check_config_key ord m key =
     (let val = lookup_raw m key in
      if key = MetaNamespaceKey then validateMetaNamespaceConfig ord val
      else if key = DataWindowNamespaceKey then ValidateDataWindowConstraintShape ord val
      else (case ExtractRelativeDateToken val of
          Some token \<Rightarrow> ValidateRelativeDateToken token
        | None \<Rightarrow> check_pattern key val))"

definition ValidateConfigParameters :: "order \<Rightarrow> raw \<Rightarrow> go_error option" where
  "ValidateConfigParameters ord params =
     (if params = Empty \<or> params = Doc (JObj []) then None
      else (case unmarshal json_map params of
          None \<Rightarrow> Some (OtherErr ''parameters must be a JSON object'')
        | Some m \<Rightarrow> first_err (check_config_key ord m) (ord (keys m))))"

section \<open>Evaluation\<close>

definition validatePerMessageMetaConstraints ::
  "order \<Rightarrow> json gomap \<Rightarrow> json gomap list \<Rightarrow> go_error option" where
  "validatePerMessageMetaConstraints ord constraints messages =
     (if messages = [] then Some MetadataUnresolved
      else first_err (\<lambda>msg. first_err (\<lambda>k.
             validateMetaFieldConstraint (MetaNamespaceKey @ ''.'' @ k) k (lookup_raw constraints k)
               (perMessageMetaSourceValue k msg)) (ord (keys constraints))) messages)"

definition validateResolvedMetaConstraints :: "order \<Rightarrow> raw \<Rightarrow> raw \<Rightarrow> go_error option" where
  "validateResolvedMetaConstraints ord metaConstraints resolvedMeta =
     (case unmarshal json_map metaConstraints of
        None \<Rightarrow> Some (OtherErr ''invalid $meta constraints'')
      | Some constraints \<Rightarrow>
          if constraints = [] then None
          else if resolvedMeta = Empty \<or> resolvedMeta = Doc JNull then Some MetadataUnresolved
          else (case unmarshal json_map resolvedMeta of
              None \<Rightarrow> Some (OtherErr ''invalid resolved metadata'')
            | Some meta \<Rightarrow>
                (let messagesRaw = lookup_raw meta ''messages''
                 in if messagesRaw \<noteq> Empty \<and> messagesRaw \<noteq> Doc JNull then
                      (case unmarshal json_maps messagesRaw of
                         None \<Rightarrow> Some (OtherErr ''invalid resolved messages metadata'')
                       | Some messages \<Rightarrow> validatePerMessageMetaConstraints ord constraints messages)
                    else first_err (\<lambda>k.
                      validateMetaFieldConstraint (MetaNamespaceKey @ ''.'' @ k) k (lookup_raw constraints k)
                        (flatMetaSourceValue k meta)) (ord (keys constraints)))))"

text \<open>The loop body over the configured parameters.\<close>

definition check_configured :: "json gomap \<Rightarrow> json gomap \<Rightarrow> string \<Rightarrow> go_error option" where
  "check_configured config exec key =
     (let configValue = lookup_raw config key; execValue = lookup_raw exec key;
          present = (map_of exec key \<noteq> None)
      in if IsWildcard configValue then None
         else if ExtractRelativeDateToken configValue \<noteq> None then None
         else (case extractPattern configValue of
             Some pattern \<Rightarrow>
               if \<not> present then Some (ConfigErr key ''required pattern parameter is missing'')
               else validateExecPatternConstraint key pattern execValue
           | None \<Rightarrow>
               if \<not> present then Some (ConfigErr key ''required fixed parameter is missing'')
               else if \<not> jsonValuesEqual configValue execValue then
                 Some (ConfigErr key ''value does not match configured value'')
               else None))"

definition decode_flat :: "raw \<Rightarrow> json gomap option" where
  "decode_flat r = (if r = Empty \<or> r = Doc (JObj []) then Some [] else unmarshal json_map r)"

definition validateFlatParametersAgainstConfig :: "order \<Rightarrow> raw \<Rightarrow> raw \<Rightarrow> raw \<Rightarrow> go_error option" where
  "validateFlatParametersAgainstConfig ord configParams execParams resolvedMeta =
     (case decode_flat configParams of
        None \<Rightarrow> Some (OtherErr ''invalid configuration parameters'')
      | Some config0 \<Rightarrow>
          (let metaConstraints = lookup_raw config0 MetaNamespaceKey;
               hasMeta = (map_of config0 MetaNamespaceKey \<noteq> None);
               config = AList.delete DataWindowNamespaceKey (AList.delete MetaNamespaceKey config0)
           in case decode_flat execParams of
                None \<Rightarrow> Some (OtherErr ''invalid execution parameters'')
              | Some exec \<Rightarrow>
                  and_then (first_err (check_configured config exec) (ord (keys config)))
                  (and_then (first_err (\<lambda>k. if map_of config k \<noteq> None then None
                       else Some (ConfigErr k ''parameter not defined in configuration'')) (ord (keys exec)))
                     (if hasMeta then validateResolvedMetaConstraints ord metaConstraints resolvedMeta else None))))"

definition ValidateParametersAgainstConfig :: "order \<Rightarrow> raw \<Rightarrow> raw \<Rightarrow> raw \<Rightarrow> go_error option" where
  "ValidateParametersAgainstConfig ord configParams execParams resolvedMeta =
     (if IsStructuredConstraintsV2 configParams then
        (case ParseStructuredConstraints ord configParams of
           Inl e \<Rightarrow> Some e
         | Inr sc \<Rightarrow> ValidateParametersAgainstStructuredConfig ord sc execParams resolvedMeta)
      else validateFlatParametersAgainstConfig ord configParams execParams resolvedMeta)"

section \<open>What a flat document accepts\<close>

definition flat_value_ok :: "raw \<Rightarrow> json option \<Rightarrow> bool" where
  "flat_value_ok cfg v \<longleftrightarrow> IsWildcard cfg \<or> ExtractRelativeDateToken cfg \<noteq> None \<or>
     (case v of
        None \<Rightarrow> False
      | Some j \<Rightarrow> (case extractPattern cfg of
          Some p \<Rightarrow> (case strings_of (Doc j) of None \<Rightarrow> False | Some vs \<Rightarrow> vs \<noteq> [] \<and> (\<forall>s \<in> set vs. glob p s))
        | None \<Rightarrow> jsonValuesEqual cfg (Doc j)))"

lemma check_configured_ok: "check_configured config exec k = None \<longleftrightarrow> flat_value_ok (lookup_raw config k) (map_of exec k)"
  by (auto simp: check_configured_def flat_value_ok_def Let_def lookup_raw_def validateExecPatternConstraint_ok
      split: option.splits)

text \<open>A metadata field satisfies its constraint.\<close>

definition flat_meta_ok :: "json gomap \<Rightarrow> json gomap \<Rightarrow> string \<Rightarrow> bool" where
  "flat_meta_ok constraints meta k \<longleftrightarrow>
     (let ok = (\<lambda>src. validateMetaFieldConstraint (MetaNamespaceKey @ ''.'' @ k) k (lookup_raw constraints k) src = None);
          messagesRaw = lookup_raw meta ''messages''
      in if messagesRaw \<noteq> Empty \<and> messagesRaw \<noteq> Doc JNull
         then (case unmarshal json_maps messagesRaw of
                 None \<Rightarrow> False
               | Some messages \<Rightarrow> messages \<noteq> [] \<and> (\<forall>msg \<in> set messages. ok (perMessageMetaSourceValue k msg)))
         else ok (flatMetaSourceValue k meta))"

lemma validateResolvedMetaConstraints_ok:
  assumes "range_order ord" "unmarshal json_map mc = Some constraints"
  shows "validateResolvedMetaConstraints ord mc resolvedMeta = None \<longleftrightarrow>
     constraints = [] \<or> (\<exists>meta. decode_meta resolvedMeta = Some (Some meta) \<and>
       (\<forall>k \<in> set (keys constraints). flat_meta_ok constraints meta k))"
proof (cases "constraints = [] \<or> resolvedMeta = Empty \<or> resolvedMeta = Doc JNull \<or> unmarshal json_map resolvedMeta = None")
  case True
  then show ?thesis
    by (auto simp: validateResolvedMetaConstraints_def assms(2) decode_meta_def)
next
  case False
  then obtain meta where "unmarshal json_map resolvedMeta = Some meta" by auto
  moreover have "set (keys constraints) \<noteq> {}" using False by (simp add: keys_def)
  ultimately show ?thesis using False
    by (auto simp: validateResolvedMetaConstraints_def validatePerMessageMetaConstraints_def assms(2) decode_meta_def
        flat_meta_ok_def Let_def range_order_set [OF assms(1)] split: option.splits)
qed

lemma flat_accept_fields:
  assumes "range_order ord" "decode_flat configParams = Some config" "decode_flat execParams = Some exec"
  shows "validateFlatParametersAgainstConfig ord configParams execParams resolvedMeta = None \<longleftrightarrow>
    (\<forall>k \<in> set (keys config) - {MetaNamespaceKey, DataWindowNamespaceKey}.
       flat_value_ok (lookup_raw config k) (map_of exec k)) \<and>
    set (keys exec) \<subseteq> set (keys config) - {MetaNamespaceKey, DataWindowNamespaceKey} \<and>
    (\<forall>mc. map_of config MetaNamespaceKey = Some mc \<longrightarrow>
       validateResolvedMetaConstraints ord (Doc mc) resolvedMeta = None)"
proof -
  let ?c = "AList.delete DataWindowNamespaceKey (AList.delete MetaNamespaceKey config)"
  have d: "map_of ?c = (map_of config) (MetaNamespaceKey := None, DataWindowNamespaceKey := None)"
    by (simp add: delete_conv')
  have keys: "set (keys ?c) = set (keys config) - {MetaNamespaceKey, DataWindowNamespaceKey}"
    by (auto simp: set_keys d)
  have look: "k \<in> set (keys ?c) \<Longrightarrow> lookup_raw ?c k = lookup_raw config k" for k
    by (auto simp: lookup_raw_def d set_keys)
  have "(\<forall>k \<in> set (keys ?c). flat_value_ok (lookup_raw ?c k) (map_of exec k)) \<longleftrightarrow>
      (\<forall>k \<in> set (keys config) - {MetaNamespaceKey, DataWindowNamespaceKey}.
         flat_value_ok (lookup_raw config k) (map_of exec k))"
    unfolding keys [symmetric] using look by simp
  moreover have "(\<forall>k \<in> set (keys exec). map_of ?c k \<noteq> None) \<longleftrightarrow>
      set (keys exec) \<subseteq> set (keys config) - {MetaNamespaceKey, DataWindowNamespaceKey}"
    unfolding keys [symmetric] set_keys [of ?c] by auto
  ultimately show ?thesis
    by (cases "map_of config MetaNamespaceKey")
      (simp_all add: validateFlatParametersAgainstConfig_def assms(2,3) Let_def check_configured_ok
        range_order_set [OF assms(1)] lookup_raw_def)
qed

text \<open>C9: A flat document accepts exactly the parameters each of which is configured, with a value that
  fits for every configured one, and metadata that satisfies every \<^verbatim>\<open>$meta\<close> field; the order in which
  Go walks the maps does not matter.\<close>

theorem flat_accept_iff:
  assumes "range_order ord" "decode_flat configParams = Some config" "decode_flat execParams = Some exec"
  shows "validateFlatParametersAgainstConfig ord configParams execParams resolvedMeta = None \<longleftrightarrow>
    (\<forall>k \<in> set (keys config) - {MetaNamespaceKey, DataWindowNamespaceKey}.
       flat_value_ok (lookup_raw config k) (map_of exec k)) \<and>
    set (keys exec) \<subseteq> set (keys config) - {MetaNamespaceKey, DataWindowNamespaceKey} \<and>
    (\<forall>mc. map_of config MetaNamespaceKey = Some mc \<longrightarrow>
       (\<exists>constraints. json_map mc = Some constraints \<and>
         (constraints = [] \<or> (\<exists>meta. decode_meta resolvedMeta = Some (Some meta) \<and>
            (\<forall>k \<in> set (keys constraints). flat_meta_ok constraints meta k)))))"
proof -
  have "validateResolvedMetaConstraints ord (Doc mc) resolvedMeta = None \<longleftrightarrow>
    (\<exists>constraints. json_map mc = Some constraints \<and>
       (constraints = [] \<or> (\<exists>meta. decode_meta resolvedMeta = Some (Some meta) \<and>
         (\<forall>k \<in> set (keys constraints). flat_meta_ok constraints meta k))))" for mc
  proof (cases "json_map mc")
    case None
    then show ?thesis by (simp add: validateResolvedMetaConstraints_def)
  next
    case (Some c)
    then show ?thesis using validateResolvedMetaConstraints_ok [OF assms(1), of "Doc mc" c] by simp
  qed
  then show ?thesis by (simp add: flat_accept_fields [OF assms])
qed

lemma flat_accept_iff_witness:
  "range_order rev \<and> validateFlatParametersAgainstConfig rev (Doc (JObj [(''a'', JStr ''*'')])) (Doc (JObj [(''a'', JNull)])) Empty = None"
  by (subst flat_accept_iff [OF range_order_rev, where config = "[(''a'', JStr ''*'')]" and exec = "[(''a'', JNull)]"])
    (simp_all add: range_order_rev decode_flat_def last_wins_def keys_def key_defs lookup_raw_def flat_value_ok_def IsWildcard_iff)


section \<open>The flat evaluator and the version 2 evaluator\<close>

text \<open>The conditions on one field of an adapted document are a single match.\<close>

abbreviation match_of :: "string \<Rightarrow> raw \<Rightarrow> condition" where
  "match_of f v \<equiv> \<lparr>c_field = f, c_op = OpMatches, c_values = [], c_value = v\<rparr>"

lemma match_of_parts:
  "allows [match_of f (Doc v)] = [Doc v]" "denies [match_of f (Doc v)] = []" "comparisons_of [match_of f (Doc v)] = []"
  by (simp_all add: allows_def denies_def comparisons_of_def splitFieldConditions_def isAllowOp_def
      isComparisonOp_def op_defs conditionValues_def)

definition no_empty_list :: "raw \<Rightarrow> json option \<Rightarrow> bool" where
  "no_empty_list cfg v \<longleftrightarrow> extractPattern cfg = None \<or> (case v of None \<Rightarrow> True | Some j \<Rightarrow> strings_of (Doc j) \<noteq> Some [])"

lemma match_param_ok:
  assumes "no_empty_list (Doc v) (map_of exec f)"
  shows "param_ok f [match_of f (Doc v)] exec \<longleftrightarrow> flat_value_ok (Doc v) (map_of exec f)"
proof -
  have "IsWildcard (Doc v) \<or> ExtractRelativeDateToken (Doc v) \<noteq> None \<or> value_matches False f (Doc v) (Doc j) \<longleftrightarrow>
      flat_value_ok (Doc v) (Some j)" if "map_of exec f = Some j" for j
    using assms that
    by (auto simp: flat_value_ok_def value_matches_def validateConstraintValueAgainstSource_def no_empty_list_def
        validatePatternConstraint_ok split: option.splits)
  then show ?thesis
    by (cases "map_of exec f")
      (auto simp: param_ok_def match_of_parts undenied_def valueMatchesAnyAllow_def hasWildcardAllow_def
        hasRelativeDateAllow_def flat_value_ok_def)
qed

lemma match_meta_ok:
  assumes "map_of constraints k = Some v" "ExtractRelativeDateToken (Doc v) = None"
  shows "meta_ok (MetaNamespaceKey @ ''.'' @ k) [match_of (MetaNamespaceKey @ ''.'' @ k) (Doc v)] meta \<longleftrightarrow>
    flat_meta_ok constraints meta k"
proof -
  have t: "trim_prefix (MetaNamespaceKey @ CHR ''.'' # k) (MetaNamespaceKey @ ''.'') = k"
    by (simp add: trim_prefix_def has_prefix_def)
  have "IsWildcard (Doc v) \<Longrightarrow> validateMetaFieldConstraint p k (Doc v) src = None" for p src
    by (simp add: validateMetaFieldConstraint_def validateRecipientMetaConstraint_def validateConstraintValueAgainstSource_def)
  then have "source_ok f k [match_of f (Doc v)] src \<longleftrightarrow> validateMetaFieldConstraint f k (Doc v) src = None" for f src
    using assms(2)
    by (auto simp: source_ok_def match_of_parts undenied_def valueMatchesAnyAllow_def value_matches_def
        validateMetaFieldConstraint_def)
  then show ?thesis
    by (simp add: meta_ok_def flat_meta_ok_def t Let_def lookup_raw_def assms(1) split: option.splits)
qed

lemma collect_Inr: "(\<And>x. x \<in> set xs \<Longrightarrow> f x = Inr (h x)) \<Longrightarrow> collect f xs = Inr (concat (map h xs))"
  by (induction xs) auto

definition adapted_conditions :: "order \<Rightarrow> json gomap \<Rightarrow> json gomap \<Rightarrow> string \<Rightarrow> condition list" where
  "adapted_conditions ord config meta k =
     (if k = MetaNamespaceKey then map (\<lambda>m. match_of (MetaNamespaceKey @ ''.'' @ m) (lookup_raw meta m)) (ord (keys meta))
      else [match_of k (lookup_raw config k)])"

definition meta_part :: "json gomap \<Rightarrow> json gomap option" where
  "meta_part config = (case map_of config MetaNamespaceKey of None \<Rightarrow> Some [] | Some j \<Rightarrow> json_map j)"

definition adapted_group :: "order \<Rightarrow> json gomap \<Rightarrow> json gomap \<Rightarrow> cgroup" where
  "adapted_group ord config meta = \<lparr>g_match = GroupMatchAll,
     g_conditions = concat (map (adapted_conditions ord config meta) (ord (keys config)))\<rparr>"

lemma flatMap_adapted:
  assumes "range_order ord" "decode_flat r = Some config" "meta_part config = Some mc"
  shows "flatMapToStructured ord r = Inr \<lparr>sc_version = ConstraintVersionV2, sc_match = GroupMatchAny,
     sc_groups = [adapted_group ord config mc]\<rparr>"
proof -
  have "(if r = Empty \<or> r = Doc JNull then Some [] else unmarshal json_map r) = Some config"
    using assms(2) by (auto simp: decode_flat_def last_wins_def split: if_splits)
  moreover have "collect (flat_conditions ord config) (ord (keys config)) =
      Inr (concat (map (adapted_conditions ord config mc) (ord (keys config))))"
  proof (rule collect_Inr)
    fix k assume "k \<in> set (ord (keys config))"
    then have "k \<in> set (keys config)" by (simp add: range_order_set [OF assms(1)])
    then obtain j where "map_of config k = Some j" by (auto simp: set_keys)
    then show "flat_conditions ord config k = Inr (adapted_conditions ord config mc k)"
      using assms(3) by (auto simp: flat_conditions_def adapted_conditions_def meta_part_def lookup_raw_def Let_def)
  qed
  ultimately show ?thesis by (simp add: flatMapToStructured_def adapted_group_def)
qed

lemma filter_concat_one:
  "distinct ks \<Longrightarrow> f \<in> set ks \<Longrightarrow> (\<And>k. k \<in> set ks \<Longrightarrow> k \<noteq> f \<Longrightarrow> filter P (h k) = []) \<Longrightarrow>
     filter P (concat (map h ks)) = filter P (h f)"
proof (induction ks)
  case (Cons k ks)
  have none: "filter P (concat (map h ks)) = []" if "f \<notin> set ks"
    using Cons.prems(3) that by (auto simp: filter_concat filter_empty_conv)
  show ?case
  proof (cases "k = f")
    case True
    with Cons.prems none show ?thesis by simp
  next
    case False
    with Cons show ?thesis by simp
  qed
qed simp

lemma meta_key_present: "meta_part config = Some mc \<Longrightarrow> m \<in> set (keys mc) \<Longrightarrow> MetaNamespaceKey \<in> set (keys config)"
  by (cases "map_of config MetaNamespaceKey") (auto simp: meta_part_def set_keys)

lemma adapted_fields:
  assumes "range_order ord" "meta_part config = Some mc"
  shows "fields_of (adapted_group ord config mc) =
    (set (keys config) - {MetaNamespaceKey}) \<union> (\<lambda>m. MetaNamespaceKey @ ''.'' @ m) ` set (keys mc)"
proof -
  have "c_field ` set (adapted_conditions ord config mc k) =
      (if k = MetaNamespaceKey then (\<lambda>m. MetaNamespaceKey @ ''.'' @ m) ` set (keys mc) else {k})" for k
    by (auto simp: adapted_conditions_def image_image range_order_set [OF assms(1)])
  then have "fields_of (adapted_group ord config mc) = (\<Union>k \<in> set (keys config).
      if k = MetaNamespaceKey then (\<lambda>m. MetaNamespaceKey @ ''.'' @ m) ` set (keys mc) else {k})"
    by (simp add: fields_of_def adapted_group_def image_UN range_order_set [OF assms(1)])
  with meta_key_present [OF assms(2)] show ?thesis by (auto split: if_splits)
qed

lemma adapted_conds_param:
  assumes "range_order ord" "distinct (keys config)" "f \<in> set (keys config)" "f \<noteq> MetaNamespaceKey" "\<not> is_meta_field f"
  shows "conds_of (adapted_group ord config mc) f = [match_of f (lookup_raw config f)]"
proof -
  have "MetaNamespaceKey @ ''.'' @ m \<noteq> f" for m
    using assms(5) has_prefix_append [of "MetaNamespaceKey @ ''.''" m] by (auto simp: is_meta_field_def)
  then have "filter (\<lambda>c. c_field c = f) (concat (map (adapted_conditions ord config mc) (ord (keys config)))) =
      filter (\<lambda>c. c_field c = f) (adapted_conditions ord config mc f)"
    by (intro filter_concat_one) (auto simp: range_order_distinct assms range_order_set [OF assms(1)]
        adapted_conditions_def filter_empty_conv)
  then show ?thesis using assms(4) by (simp add: conds_of_def adapted_group_def adapted_conditions_def)
qed

lemma adapted_conds_meta:
  assumes "range_order ord" "distinct (keys config)" "distinct (keys mc)" "meta_part config = Some mc" "m \<in> set (keys mc)"
    and "\<And>k. k \<in> set (keys config) \<Longrightarrow> \<not> is_meta_field k"
  shows "conds_of (adapted_group ord config mc) (MetaNamespaceKey @ ''.'' @ m) =
    [match_of (MetaNamespaceKey @ ''.'' @ m) (lookup_raw mc m)]"
proof -
  let ?f = "MetaNamespaceKey @ ''.'' @ m"
  let ?P = "\<lambda>c. c_field c = ?f"
  have "MetaNamespaceKey \<in> set (keys config)" by (rule meta_key_present [OF assms(4,5)])
  moreover have "is_meta_field ?f"
    using has_prefix_append [of "MetaNamespaceKey @ ''.''" m] by (simp add: is_meta_field_def)
  ultimately have "filter ?P (concat (map (adapted_conditions ord config mc) (ord (keys config)))) =
      filter ?P (adapted_conditions ord config mc MetaNamespaceKey)"
    using assms(6) by (intro filter_concat_one)
      (auto simp: range_order_distinct assms(1,2) range_order_set [OF assms(1)] adapted_conditions_def filter_empty_conv)
  also have "\<dots> = filter ?P (concat (map (\<lambda>m. [match_of (MetaNamespaceKey @ ''.'' @ m) (lookup_raw mc m)]) (ord (keys mc))))"
    by (simp add: adapted_conditions_def concat_map_singleton)
  also have "\<dots> = [match_of ?f (lookup_raw mc m)]"
    by (subst filter_concat_one [where f = m]) (use assms(3,5) in \<open>auto simp: range_order_distinct assms(1) range_order_set [OF assms(1)]\<close>)
  finally show ?thesis by (simp add: conds_of_def adapted_group_def)
qed


lemma adapted_meta_field:
  "is_meta_field (MetaNamespaceKey @ ''.'' @ m)" "MetaNamespaceKey @ ''.'' @ m \<noteq> DataWindowNamespaceKey"
proof -
  show mf: "is_meta_field (MetaNamespaceKey @ ''.'' @ m)"
    using has_prefix_append [of "MetaNamespaceKey @ ''.''" m] by (simp add: is_meta_field_def)
  have "\<not> is_meta_field DataWindowNamespaceKey"
    by (simp add: is_meta_field_def has_prefix_def key_defs)
  then show "MetaNamespaceKey @ ''.'' @ m \<noteq> DataWindowNamespaceKey" using mf by metis
qed

lemma adapted_param_ok:
  assumes "range_order ord" "distinct (keys config)" "k \<in> set (keys config)" "k \<noteq> MetaNamespaceKey"
    and "\<not> is_meta_field k" "no_empty_list (lookup_raw config k) (map_of exec k)"
  shows "field_ok (adapted_group ord config mc) exec meta k \<longleftrightarrow>
    k = DataWindowNamespaceKey \<or> flat_value_ok (lookup_raw config k) (map_of exec k)"
proof -
  obtain j where "map_of config k = Some j" using assms(3) by (auto simp: set_keys)
  then show ?thesis
    using assms(5,6) match_param_ok [of j exec k] adapted_conds_param [OF assms(1,2,3,4)]
    by (simp add: field_ok_def lookup_raw_def)
qed

lemma adapted_meta_ok:
  assumes "range_order ord" "distinct (keys config)" "meta_part config = Some mc" "distinct (keys mc)" "m \<in> set (keys mc)"
    and "\<And>k. k \<in> set (keys config) \<Longrightarrow> \<not> is_meta_field k" "ExtractRelativeDateToken (lookup_raw mc m) = None"
  shows "field_ok (adapted_group ord config mc) exec meta (MetaNamespaceKey @ ''.'' @ m) \<longleftrightarrow>
    (\<exists>mm. meta = Some mm \<and> flat_meta_ok mc mm m)"
proof -
  obtain j where j: "map_of mc m = Some j" using assms(5) by (auto simp: set_keys)
  have "conds_of (adapted_group ord config mc) (MetaNamespaceKey @ ''.'' @ m) = [match_of (MetaNamespaceKey @ ''.'' @ m) (lookup_raw mc m)]"
    using assms(6) by (intro adapted_conds_meta assms(1-5)) blast
  then show ?thesis
    using j assms(7) match_meta_ok [OF j] adapted_meta_field [of m]
    by (cases meta) (simp_all add: field_ok_def lookup_raw_def)
qed

text \<open>The \<^verbatim>\<open>$meta\<close> object of a flat document is checked where it is present.\<close>

lemma flat_meta_part_ok:
  assumes "range_order ord" "meta_part config = Some mc" "decode_meta resolvedMeta = Some meta"
  shows "(\<forall>mcj. map_of config MetaNamespaceKey = Some mcj \<longrightarrow>
      validateResolvedMetaConstraints ord (Doc mcj) resolvedMeta = None) \<longleftrightarrow>
    (\<forall>m \<in> set (keys mc). \<exists>mm. meta = Some mm \<and> flat_meta_ok mc mm m)"
proof (cases "map_of config MetaNamespaceKey")
  case None
  then have "mc = []" using assms(2) by (simp add: meta_part_def)
  with None show ?thesis by (simp add: keys_def)
next
  case (Some mcj)
  then have "unmarshal json_map (Doc mcj) = Some mc" using assms(2) by (simp add: meta_part_def)
  moreover have "keys mc = [] \<longleftrightarrow> mc = []" by (simp add: keys_def)
  ultimately show ?thesis using Some assms(3)
    by (cases meta) (auto simp: validateResolvedMetaConstraints_ok [OF assms(1)])
qed

text \<open>C25: A flat document and its version 2 form accept the same parameters, unless a parameter is named like
  a metadata field, a metadata value looks like a relative date, or a parameter under a pattern is
  null or an empty array.\<close>

theorem flat_matches_adapted:
  assumes "range_order ord" "decode_flat r = Some config" "distinct (keys config)"
    and "meta_part config = Some mc" "distinct (keys mc)"
    and "decode_flat execParams = Some exec" "decode_meta resolvedMeta = Some meta"
    and "\<And>k. k \<in> set (keys config) \<Longrightarrow> \<not> is_meta_field k \<and> no_empty_list (lookup_raw config k) (map_of exec k)"
    and "\<And>m. m \<in> set (keys mc) \<Longrightarrow> ExtractRelativeDateToken (lookup_raw mc m) = None"
  shows "\<exists>sc. flatMapToStructured ord r = Inr sc \<and>
    (ValidateParametersAgainstStructuredConfig ord sc execParams resolvedMeta = None \<longleftrightarrow>
     validateFlatParametersAgainstConfig ord r execParams resolvedMeta = None)"
proof -
  let ?g = "adapted_group ord config mc"
  let ?flat = "\<forall>k \<in> set (keys config) - {MetaNamespaceKey, DataWindowNamespaceKey}.
      flat_value_ok (lookup_raw config k) (map_of exec k)"
  let ?meta = "\<forall>m \<in> set (keys mc). \<exists>mm. meta = Some mm \<and> flat_meta_ok mc mm m"
  let ?only = "set (keys exec) \<subseteq> set (keys config) - {MetaNamespaceKey, DataWindowNamespaceKey}"
  have param: "field_ok ?g exec meta k \<longleftrightarrow> k = DataWindowNamespaceKey \<or> flat_value_ok (lookup_raw config k) (map_of exec k)"
    if "k \<in> set (keys config)" "k \<noteq> MetaNamespaceKey" for k
    using assms(8) [OF that(1)] by (intro adapted_param_ok assms(1,3) that) simp_all
  have metaf: "field_ok ?g exec meta (MetaNamespaceKey @ ''.'' @ m) \<longleftrightarrow> (\<exists>mm. meta = Some mm \<and> flat_meta_ok mc mm m)"
    if "m \<in> set (keys mc)" for m
    using assms(8) by (intro adapted_meta_ok assms(1,3-5) assms(9) that) blast
  have fields: "(\<forall>f \<in> fields_of ?g. field_ok ?g exec meta f) \<longleftrightarrow> ?flat \<and> ?meta"
    unfolding adapted_fields [OF assms(1,4)] ball_Un using param metaf by auto
  have params: "param_fields ?g = set (keys config) - {MetaNamespaceKey, DataWindowNamespaceKey}"
    using assms(8) adapted_meta_field by (auto simp: param_fields_def adapted_fields [OF assms(1,4)])
  have flat: "validateFlatParametersAgainstConfig ord r execParams resolvedMeta = None \<longleftrightarrow> ?flat \<and> ?only \<and> ?meta"
    by (simp add: flat_accept_fields [OF assms(1,2,6)] flat_meta_part_ok [OF assms(1,4,7)])
  have "decode_exec execParams = Some exec"
    using assms(6) by (auto simp: decode_exec_def decode_flat_def last_wins_def split: if_splits)
  then have "ValidateParametersAgainstStructuredConfig ord \<lparr>sc_version = ConstraintVersionV2, sc_match = GroupMatchAny,
      sc_groups = [?g]\<rparr> execParams resolvedMeta = None \<longleftrightarrow> group_accepts ?g exec meta"
    by (simp add: ValidateParametersAgainstStructuredConfig_def assms(7)
        evaluateConstraintGroup_accepts [OF assms(1), symmetric] split: sum.splits)
  then show ?thesis
    using flatMap_adapted [OF assms(1,2,4)] flat fields params by (auto simp: group_accepts_def)
qed


lemma flat_matches_adapted_witness:
  "\<exists>sc. flatMapToStructured rev (Doc (JObj [(''a'', JStr ''x''), (''$meta'', JObj [(''sender'', JStr ''bob'')])])) = Inr sc \<and>
    (ValidateParametersAgainstStructuredConfig rev sc (Doc (JObj [(''a'', JStr ''x'')])) (Doc (JObj [(''sender'', JStr ''bob'')])) = None
       \<longleftrightarrow>
     validateFlatParametersAgainstConfig rev (Doc (JObj [(''a'', JStr ''x''), (''$meta'', JObj [(''sender'', JStr ''bob'')])]))
       (Doc (JObj [(''a'', JStr ''x'')])) (Doc (JObj [(''sender'', JStr ''bob'')])) = None)"
proof (rule flat_matches_adapted [OF range_order_rev])
  let ?config = "[(''a'', JStr ''x''), (''$meta'', JObj [(''sender'', JStr ''bob'')])]"
  show "decode_flat (Doc (JObj ?config)) = Some ?config" by code_simp
  show "meta_part ?config = Some [(''sender'', JStr ''bob'')]" by code_simp
  show "decode_flat (Doc (JObj [(''a'', JStr ''x'')])) = Some [(''a'', JStr ''x'')]" by code_simp
  show "decode_meta (Doc (JObj [(''sender'', JStr ''bob'')])) = Some (Some [(''sender'', JStr ''bob'')])" by code_simp
  have "\<not> is_meta_field ''a''" "\<not> is_meta_field ''$meta''"
    "no_empty_list (lookup_raw ?config ''a'') (Some (JStr ''x''))" "no_empty_list (lookup_raw ?config ''$meta'') None"
    by code_simp+
  then show "\<And>k. k \<in> set (keys ?config) \<Longrightarrow> \<not> is_meta_field k \<and>
      no_empty_list (lookup_raw ?config k) (map_of [(''a'', JStr ''x'')] k)"
    by (auto simp: keys_def)
  have "ExtractRelativeDateToken (lookup_raw [(''sender'', JStr ''bob'')] ''sender'') = None" by code_simp
  then show "\<And>m. m \<in> set (keys [(''sender'', JStr ''bob'')]) \<Longrightarrow>
      ExtractRelativeDateToken (lookup_raw [(''sender'', JStr ''bob'')] m) = None"
    by (auto simp: keys_def)
qed (simp_all add: keys_def)


end
