(* ===== verification/ReadonlySql.thy ===== *)
theory ReadonlySql
  imports Prelude
begin

text \<open>
  \<^verbatim>\<open>pkg/sqldb/readonly_sql.go\<close>: the check the BigQuery and Snowflake connectors run before a query is
  sent. The masking loop is a scanner with one state per loop of the code. Inside a literal the code
  blanks rune by rune; no byte of a longer rune is a quote, a star or a backslash, so byte by byte is
  the same. \<^verbatim>\<open>connectors.ValidationError\<close> is its message.
\<close>

section \<open>Masking of literals and comments\<close>

datatype scan = Code | LineComment | BlockComment | TripleQuote char | Quote char | Backtick

definition quote :: char where "quote = CHR 0x27"
definition dquote :: char where "dquote = CHR 0x22"
definition newline :: char where "newline = CHR 0x0A"
definition backslash :: char where "backslash = CHR 0x5C"
definition tick :: char where "tick = CHR 0x60"

definition blanks :: "nat \<Rightarrow> string" where
  "blanks n = replicate n CHR '' ''"

lemma length_blanks [simp]: "length (blanks n) = n"
  by (simp add: blanks_def)

function scrub :: "scan \<Rightarrow> string \<Rightarrow> string" where
  "scrub st [] = []"
| "scrub st (c # r) = (case st of
      Code \<Rightarrow>
        if c = CHR ''-'' \<and> take 1 r = ''-'' then blanks 2 @ scrub LineComment (drop 1 r)
        else if c = CHR ''/'' \<and> take 1 r = ''*'' then blanks 2 @ scrub BlockComment (drop 1 r)
        else if (c = quote \<or> c = dquote) \<and> take 2 r = [c, c] then blanks 3 @ scrub (TripleQuote c) (drop 2 r)
        else if c = quote \<or> c = dquote then blanks 1 @ scrub (Quote c) r
        else if c = tick then blanks 1 @ scrub Backtick r
        else c # scrub Code r
    | LineComment \<Rightarrow> if c = newline then c # scrub Code r else blanks 1 @ scrub LineComment r
    | BlockComment \<Rightarrow>
        if c = CHR ''*'' \<and> take 1 r = ''/'' then blanks 2 @ scrub Code (drop 1 r)
        else blanks 1 @ scrub BlockComment r
    | TripleQuote q \<Rightarrow>
        if c = q \<and> take 2 r = [q, q] then blanks 3 @ scrub Code (drop 2 r)
        else blanks 1 @ scrub (TripleQuote q) r
    | Quote q \<Rightarrow>
        if c = q then (if take 1 r = [q] then blanks 2 @ scrub (Quote q) (drop 1 r) else blanks 1 @ scrub Code r)
        else if c = backslash \<and> r \<noteq> [] then blanks 2 @ scrub (Quote q) (drop 1 r)
        else blanks 1 @ scrub (Quote q) r
    | Backtick \<Rightarrow> if c = tick then blanks 1 @ scrub Code r else CHR ''_'' # scrub Backtick r)"
  by pat_completeness auto
termination by (relation "measure (\<lambda>(st, s). length s)") auto

definition scrubSQLMasking :: "string \<Rightarrow> string" where
  "scrubSQLMasking sql = scrub Code sql"

section \<open>Checks on the masked text\<close>

definition isIdentStart :: "char \<Rightarrow> bool" where
  "isIdentStart b \<longleftrightarrow> (65 \<le> (of_char b :: nat) \<and> (of_char b :: nat) \<le> 90) \<or> b = CHR ''_''"

definition isIdentCont :: "char \<Rightarrow> bool" where
  "isIdentCont b \<longleftrightarrow> isIdentStart b \<or> (48 \<le> (of_char b :: nat) \<and> (of_char b :: nat) \<le> 57)"

fun multi_statement :: "nat \<Rightarrow> string \<Rightarrow> go_error option" where
  "multi_statement depth [] = None"
| "multi_statement depth (c # cs) =
     (if c = CHR ''('' then multi_statement (Suc depth) cs
      else if c = CHR '')'' then multi_statement (depth - 1) cs
      else if c = CHR '';'' \<and> depth = 0 then
        Some (OtherErr ''query must not contain semicolons (multi-statement not allowed)'')
      else multi_statement depth cs)"

definition rejectMultiStatement :: "string \<Rightarrow> go_error option" where
  "rejectMultiStatement u = multi_statement 0 u"

text \<open>The index of the parenthesis that closes the first byte.\<close>

fun paren_end :: "nat \<Rightarrow> nat \<Rightarrow> string \<Rightarrow> nat option" where
  "paren_end i depth [] = None"
| "paren_end i depth (c # cs) =
     (if c = CHR ''('' then paren_end (Suc i) (Suc depth) cs
      else if c = CHR '')'' then (if depth = 1 then Some i else paren_end (Suc i) (depth - 1) cs)
      else paren_end (Suc i) depth cs)"

definition matchingParen :: "string \<Rightarrow> nat result" where
  "matchingParen u =
     (if take 1 u \<noteq> ''('' then Inl (OtherErr ''expected opening parenthesis'')
      else (case paren_end 0 0 u of
          None \<Rightarrow> Inl (OtherErr ''unbalanced parentheses in WITH clause'')
        | Some i \<Rightarrow> Inr i))"

text \<open>One table expression \<^verbatim>\<open>name AS (...)\<close> of a WITH clause, at the start of the text: what follows it.\<close>

definition skip_cte :: "string \<Rightarrow> string result" where
  "skip_cte s =
     (if s = [] then Inl (OtherErr ''incomplete WITH clause'')
      else if \<not> isIdentStart (hd s) then Inl (OtherErr ''invalid WITH clause syntax'')
      else (let s1 = trim_left_space (dropWhile isIdentCont (tl s))
            in if \<not> has_prefix s1 ''AS'' then Inl (OtherErr ''invalid WITH clause: expected AS'')
               else if 2 < length s1 \<and> isIdentCont (s1 ! 2) then
                 Inl (OtherErr ''invalid WITH clause: expected AS keyword'')
               else (let s2 = trim_left_space (drop 2 s1)
                     in if take 1 s2 \<noteq> ''('' then Inl (OtherErr ''invalid WITH clause: expected ('')
                        else (case matchingParen s2 of
                            Inl e \<Rightarrow> Inl e
                          | Inr end_idx \<Rightarrow> Inr (trim_left_space (drop (end_idx + 1) s2))))))"

lemma length_dropWhile_tl: "s \<noteq> [] \<Longrightarrow> length (dropWhile P (tl s)) < length s"
  by (metis length_dropWhile_le length_tl diff_less le_less_trans length_greater_0_conv zero_less_one)

lemma skip_cte_shorter: "skip_cte s = Inr r \<Longrightarrow> length r < length s"
proof -
  assume ok: "skip_cte s = Inr r"
  then have "s \<noteq> []" by (auto simp: skip_cte_def)
  then have "length (trim_left_space (dropWhile isIdentCont (tl s))) < length s"
    using length_dropWhile_tl length_trim_left_space le_less_trans by blast
  moreover obtain s1 s2 i where "s1 = trim_left_space (dropWhile isIdentCont (tl s))"
      "s2 = trim_left_space (drop 2 s1)" "r = trim_left_space (drop (i + 1) s2)"
    using ok by (auto simp: skip_cte_def Let_def split: if_splits sum.splits)
  moreover have "length (trim_left_space (drop n t)) \<le> length t" for n t
    using length_trim_left_space [of "drop n t"] by simp
  ultimately show ?thesis by (meson le_less_trans)
qed

function mainKeywordAfterCTEs :: "string \<Rightarrow> string result" where
  "mainKeywordAfterCTEs rest =
     (case skip_cte (trim_left_space rest) of
        Inl e \<Rightarrow> Inl e
      | Inr s \<Rightarrow>
          if has_prefix s '','' then mainKeywordAfterCTEs (trim_left_space (drop 1 s))
          else (let t = trim_left_space s
                in if t = [] then Inl (OtherErr ''missing query after WITH clause'')
                   else if \<not> isIdentStart (hd t) then Inl (OtherErr ''invalid token after WITH clause'')
                   else Inr (hd t # takeWhile isIdentCont (tl t))))"
  by pat_completeness auto
termination
proof (relation "measure length")
  fix rest s
  assume "skip_cte (trim_left_space rest) = Inr s" "has_prefix s '',''"
  then have "length s < length rest"
    using skip_cte_shorter length_trim_left_space less_le_trans by blast
  moreover have "length (trim_left_space (drop 1 s)) \<le> length s"
    using length_trim_left_space [of "drop 1 s"] by simp
  ultimately show "(trim_left_space (drop 1 s), rest) \<in> measure length" by simp
qed simp

declare mainKeywordAfterCTEs.simps [simp del]

definition isForbiddenTopLevelKeyword :: "string \<Rightarrow> bool" where
  "isForbiddenTopLevelKeyword word \<longleftrightarrow>
     word \<in> {''INSERT'', ''UPDATE'', ''DELETE'', ''MERGE'', ''CREATE'', ''DROP'', ''ALTER'', ''TRUNCATE'', ''GRANT'', ''REVOKE''}"

function dangerous :: "nat \<Rightarrow> string \<Rightarrow> go_error option" where
  "dangerous depth [] = None"
| "dangerous depth (c # cs) =
     (if c = CHR ''('' then dangerous (Suc depth) cs
      else if c = CHR '')'' then dangerous (depth - 1) cs
      else if depth > 0 then dangerous depth cs
      else if \<not> isIdentStart c then dangerous depth cs
      else (let word = c # takeWhile isIdentCont cs
            in if isForbiddenTopLevelKeyword word
               then Some (OtherErr (''query contains disallowed statement or keyword: '' @ word))
               else dangerous depth (dropWhile isIdentCont cs)))"
  by pat_completeness auto
termination
  by (relation "measure (\<lambda>(d, s). length s)") (auto simp: le_imp_less_Suc length_dropWhile_le)

definition rejectDangerousKeywords :: "string \<Rightarrow> go_error option" where
  "rejectDangerousKeywords u = dangerous 0 u"

definition starts_with_word :: "string \<Rightarrow> string \<Rightarrow> bool" where
  "starts_with_word u w \<longleftrightarrow> has_prefix u w \<and> (length u = length w \<or> \<not> isIdentCont (u ! length w))"

definition ValidateReadOnlyWarehouseSQL :: "string \<Rightarrow> go_error option" where
  "ValidateReadOnlyWarehouseSQL sql =
     (let s = trim_space (scrubSQLMasking sql)
      in if s = [] then Some (OtherErr ''missing required parameter: sql'')
         else (let u = to_upper s
               in and_then (rejectMultiStatement u)
                    (if starts_with_word u ''WITH'' then
                       (case mainKeywordAfterCTEs (trim_space (drop 4 u)) of
                          Inl e \<Rightarrow> Some e
                        | Inr kw \<Rightarrow>
                            if kw = ''SELECT'' then rejectDangerousKeywords u
                            else if kw \<in> {''INSERT'', ''UPDATE'', ''DELETE'', ''MERGE''} then
                              Some (OtherErr (''only SELECT queries are allowed (found '' @ kw @ '' after WITH clause)''))
                            else Some (OtherErr (''only SELECT is allowed after WITH clause (found '' @ kw @ '')'')))
                     else if starts_with_word u ''SELECT'' then rejectDangerousKeywords u
                     else Some (OtherErr ''only SELECT queries are allowed (query must start with SELECT or WITH ... SELECT)''))))"

section \<open>Masking keeps positions\<close>

definition masked :: "char \<Rightarrow> char \<Rightarrow> bool" where
  "masked a b \<longleftrightarrow> b = a \<or> b = CHR '' '' \<or> b = CHR ''_''"

lemma take_oneD: "take (Suc 0) r = [x] \<Longrightarrow> \<exists>r'. r = x # r'"
  by (cases r) auto

lemma take_twoD: "take 2 r = [x, y] \<Longrightarrow> \<exists>r'. r = x # y # r'"
  by (cases r; cases "tl r") auto

lemma blanks_simps: "blanks 1 = '' ''" "blanks (Suc 0) = '' ''" "blanks 2 = ''  ''" "blanks 3 = ''   ''"
  by (simp_all add: blanks_def numeral_2_eq_2 numeral_3_eq_3)

lemma scrub_masked: "list_all2 masked s (scrub st s)"
proof (induction "length s" arbitrary: st s rule: less_induct)
  case less
  show ?case
  proof (cases s)
    case (Cons c r)
    have IH: "list_all2 masked t (scrub st' t)" if "length t \<le> length r" for t st'
      using less that Cons by simp
    have plain: "list_all2 masked (c # t) (c # scrub st' t)" if "length t \<le> length r" for t st'
      using IH [OF that] by (simp add: masked_def)
    have blank: "list_all2 masked (k @ t) (blanks (length k) @ scrub st' t)" if "length t \<le> length r" for k t st'
      using IH [OF that] by (intro list_all2_appendI) (auto simp: blanks_def masked_def list_all2_conv_all_nth)
    have one: "list_all2 masked s (blanks 1 @ scrub st' r)" for st'
      using blank [of r "[c]" st'] by (simp add: Cons)
    show ?thesis
    proof (cases st)
      case Code
      consider (line) r' where "c = CHR ''-''" "r = CHR ''-'' # r'"
        | (block) r' where "c = CHR ''/''" "r = CHR ''*'' # r'"
        | (triple) r' where "c = quote \<or> c = dquote" "r = c # c # r'"
        | (other) "\<not> (c = CHR ''-'' \<and> take 1 r = ''-'')" "\<not> (c = CHR ''/'' \<and> take 1 r = ''*'')"
            "\<not> ((c = quote \<or> c = dquote) \<and> take 2 r = [c, c])"
        by (metis One_nat_def take_oneD take_twoD)
      then show ?thesis
      proof cases
        case line
        then show ?thesis using blank [of r' "[c, hd r]" LineComment] by (simp add: Code Cons numeral_2_eq_2)
      next
        case block
        then show ?thesis using blank [of r' "[c, hd r]" BlockComment] by (simp add: Code Cons numeral_2_eq_2)
      next
        case triple
        then have "scrub Code s = blanks 3 @ scrub (TripleQuote c) r'"
          by (elim conjE disjE) (simp_all add: Cons quote_def dquote_def)
        then show ?thesis using triple blank [of r' "[c, c, c]" "TripleQuote c"] by (simp add: Code Cons numeral_3_eq_3)
      next
        case other
        then have s: "scrub Code s = (if c = quote \<or> c = dquote then blanks 1 @ scrub (Quote c) r
            else if c = tick then blanks 1 @ scrub Backtick r else c # scrub Code r)"
          by (simp only: Cons scrub.simps scan.case if_False)
        show ?thesis using one plain [of r] unfolding Code s by (auto simp: Cons)
      qed
    next
      case (Quote q)
      show ?thesis
      proof (cases r)
        case Nil
        then show ?thesis using one [of Code] one [of "Quote q"] by (auto simp: Quote Cons)
      next
        case (Cons d r')
        then have "s = c # d # r'" using \<open>s = c # r\<close> by simp
        moreover have "scrub (Quote q) (c # d # r') \<in> {blanks 2 @ scrub (Quote q) r', blanks 1 @ scrub Code r, blanks 1 @ scrub (Quote q) r}"
          using Cons by simp
        ultimately have out: "scrub st s \<in> {blanks 2 @ scrub (Quote q) r', blanks 1 @ scrub Code r, blanks 1 @ scrub (Quote q) r}"
          by (simp only: Quote)
        have "list_all2 masked s (blanks 2 @ scrub (Quote q) r')"
          using blank [of r' "[c, d]" "Quote q"] Cons \<open>s = c # d # r'\<close> by (simp add: numeral_2_eq_2)
        with out show ?thesis using one [of Code] one [of "Quote q"]
          by (elim insertE emptyE) (simp_all only:)
      qed
    next
      case LineComment
      then have "scrub st s = (if c = newline then c # scrub Code r else blanks 1 @ scrub LineComment r)"
        by (simp add: Cons)
      then show ?thesis using plain [of r Code] one [of LineComment] by (auto simp: Cons)
    next
      case BlockComment
      show ?thesis
      proof (cases "c = CHR ''*'' \<and> take 1 r = ''/''")
        case True
        then obtain r' where "r = CHR ''/'' # r'" using take_oneD [of r "CHR ''/''"] by auto
        then show ?thesis using True blank [of r' "[c, hd r]" Code] by (simp add: BlockComment Cons numeral_2_eq_2)
      next
        case False
        then have "scrub st s = blanks 1 @ scrub BlockComment r" unfolding BlockComment Cons scrub.simps scan.case by argo
        then show ?thesis using one by simp
      qed
    next
      case (TripleQuote q)
      show ?thesis
      proof (cases "c = q \<and> take 2 r = [q, q]")
        case True
        then obtain r' where "r = q # q # r'" using take_twoD [of r q q] by auto
        then have s: "s = q # q # q # r'" "length r' \<le> length r" using True Cons by simp_all
        have "scrub (TripleQuote q) (q # q # q # r') = blanks (length [q, q, q]) @ scrub Code r'"
          by (simp add: eval_nat_numeral)
        then show ?thesis using blank [OF s(2), of "[q, q, q]" Code] unfolding TripleQuote s(1) by simp
      next
        case False
        then have "scrub st s = blanks 1 @ scrub (TripleQuote q) r" unfolding TripleQuote Cons scrub.simps scan.case by argo
        then show ?thesis using one by simp
      qed
    next
      case Backtick
      then have "scrub st s = (if c = tick then blanks 1 @ scrub Code r else CHR ''_'' # scrub Backtick r)"
        by (simp add: Cons)
      then show ?thesis using one [of Code] IH [of r Backtick] by (auto simp: Cons masked_def)
    qed
  qed simp
qed

lemma length_scrub [simp]: "length (scrub st s) = length s"
  using list_all2_lengthD [OF scrub_masked] by simp

text \<open>Masking keeps every position: a byte is left as it is or becomes a blank or an underscore, so no
  keyword or separator is made up and none moves.\<close>

theorem scrub_keeps_positions: "list_all2 masked sql (scrubSQLMasking sql)"
  by (simp add: scrubSQLMasking_def scrub_masked)

section \<open>What an accepted query cannot contain\<close>

text \<open>The nesting depth after a text, as the code counts it.\<close>

definition depth_after :: "nat \<Rightarrow> string \<Rightarrow> nat" where
  "depth_after d p = foldl (\<lambda>d c. if c = CHR ''('' then Suc d else if c = CHR '')'' then d - 1 else d) d p"

lemma depth_after_simps [simp]:
  "depth_after d [] = d"
  "depth_after d (c # p) = depth_after (if c = CHR ''('' then Suc d else if c = CHR '')'' then d - 1 else d) p"
  by (simp_all add: depth_after_def)

lemma depth_after_append: "depth_after d (p @ q) = depth_after (depth_after d p) q"
  by (simp add: depth_after_def)

lemma multi_statement_semicolon:
  "multi_statement d (p @ CHR '';'' # r) = None \<Longrightarrow> depth_after d p \<noteq> 0"
  by (induction p arbitrary: d) (auto split: if_splits)

lemma forbidden_word:
  assumes "isForbiddenTopLevelKeyword w"
  shows "w \<noteq> []" "isIdentStart (hd w)" "\<And>c. c \<in> set w \<Longrightarrow> isIdentCont c"
  using assms by (auto simp: isForbiddenTopLevelKeyword_def isIdentCont_def isIdentStart_def)

lemma ident_not_paren: "isIdentCont c \<Longrightarrow> c \<noteq> CHR ''('' \<and> c \<noteq> CHR '')''"
  by (auto simp: isIdentCont_def isIdentStart_def)

lemma depth_after_ident: "(\<And>c. c \<in> set p \<Longrightarrow> isIdentCont c) \<Longrightarrow> depth_after d p = d"
  by (induction p arbitrary: d) (use ident_not_paren in auto)

definition word_at :: "string \<Rightarrow> string \<Rightarrow> string \<Rightarrow> bool" where
  "word_at p w r \<longleftrightarrow> (p = [] \<or> \<not> isIdentCont (last p)) \<and> (r = [] \<or> \<not> isIdentCont (hd r))"

lemma dangerous_word:
  assumes "isForbiddenTopLevelKeyword w" "word_at p w r" "depth_after d p = 0"
  shows "dangerous d (p @ w @ r) \<noteq> None"
  using assms(2,3)
proof (induction "length p" arbitrary: d p rule: less_induct)
  case less
  note w = forbidden_word [OF assms(1)]
  show ?case
  proof (cases p)
    case Nil
    obtain c w' where cw: "w = c # w'" using w(1) by (cases w) auto
    have "takeWhile isIdentCont (w' @ r) = w'"
      using w(3) less.prems(1) cw by (cases r) (auto simp: word_at_def takeWhile_append2)
    moreover have "isIdentStart c" using w(2) cw by simp
    moreover have "c \<noteq> CHR ''('' \<and> c \<noteq> CHR '')''" using \<open>isIdentStart c\<close> by (auto simp: isIdentStart_def)
    ultimately show ?thesis using Nil less.prems(2) assms(1) cw by (simp add: Let_def)
  next
    case (Cons c p')
    have tail: "word_at p' w r" using less.prems(1) Cons by (auto simp: word_at_def split: if_splits)
    show ?thesis
    proof (cases "c = CHR ''('' \<or> c = CHR '')'' \<or> d > 0 \<or> \<not> isIdentStart c")
      case True
      then show ?thesis using less.hyps [of p'] tail less.prems(2) Cons by auto
    next
      case False
      then have c: "isIdentCont c" "isIdentStart c" "c \<noteq> CHR ''(''" "c \<noteq> CHR '')''" "d = 0"
        by (auto simp: isIdentCont_def)
      then have p': "p' \<noteq> []" "\<not> isIdentCont (last p')" using less.prems(1) Cons by (auto simp: word_at_def split: if_splits)
      let ?q = "dropWhile isIdentCont p'"
      have drop: "dropWhile isIdentCont (p' @ w @ r) = ?q @ w @ r"
        using p' by (intro dropWhile_append1 [of "last p'"]) auto
      have q: "?q \<noteq> []" using p' by (metis dropWhile_eq_Nil_conv last_in_set)
      then have last_q: "last ?q = last p'" by (metis last_appendR takeWhile_dropWhile_id)
      have "depth_after 0 p' = depth_after (depth_after 0 (takeWhile isIdentCont p')) ?q"
        by (metis depth_after_append takeWhile_dropWhile_id)
      also have "depth_after 0 (takeWhile isIdentCont p') = 0"
        by (rule depth_after_ident) (metis set_takeWhileD)
      finally have "depth_after 0 ?q = 0" using less.prems(2) Cons c by simp
      moreover have "word_at ?q w r" using less.prems(1) p' last_q q by (auto simp: word_at_def)
      moreover have "length ?q < length p" using Cons length_dropWhile_le [of isIdentCont p'] by simp
      ultimately have "dangerous 0 (?q @ w @ r) \<noteq> None" using less.hyps by blast
      then show ?thesis using c Cons drop by (simp add: Let_def)
    qed
  qed
qed

text \<open>C26: In a query the check accepts, the masked text in upper case starts with the word SELECT or WITH,
  every semicolon lies inside parentheses, and so does every occurrence of a forbidden statement as a
  word of its own.\<close>

theorem readonly_query_safe:
  assumes "ValidateReadOnlyWarehouseSQL sql = None" "u = to_upper (trim_space (scrubSQLMasking sql))"
  shows "(starts_with_word u ''SELECT'' \<or> starts_with_word u ''WITH'') \<and>
    (\<forall>p r. u = p @ CHR '';'' # r \<longrightarrow> depth_after 0 p \<noteq> 0) \<and>
    (\<forall>p w r. u = p @ w @ r \<and> isForbiddenTopLevelKeyword w \<and> word_at p w r \<longrightarrow> depth_after 0 p \<noteq> 0)"
proof -
  have ok: "rejectMultiStatement u = None" "rejectDangerousKeywords u = None"
    "starts_with_word u ''SELECT'' \<or> starts_with_word u ''WITH''"
    using assms(1) unfolding ValidateReadOnlyWarehouseSQL_def Let_def assms(2) [symmetric]
    by (auto split: if_splits sum.splits)
  moreover have "depth_after 0 p \<noteq> 0" if "u = p @ CHR '';'' # r" for p r
    using multi_statement_semicolon ok(1) that by (simp add: rejectMultiStatement_def)
  moreover have "depth_after 0 p \<noteq> 0"
    if "u = p @ w @ r" "isForbiddenTopLevelKeyword w" "word_at p w r" for p w r
    using dangerous_word [OF that(2,3)] ok(2) that(1) by (metis rejectDangerousKeywords_def)
  ultimately show ?thesis by blast
qed

lemma readonly_query_safe_witness:
  "starts_with_word ''SELECT A FROM T'' ''SELECT''"
proof -
  have "ValidateReadOnlyWarehouseSQL ''select a from t'' = None" by code_simp
  moreover have "''SELECT A FROM T'' = to_upper (trim_space (scrubSQLMasking ''select a from t''))" by code_simp
  moreover have "\<not> starts_with_word ''SELECT A FROM T'' ''WITH''" by code_simp
  ultimately show ?thesis using readonly_query_safe by blast
qed

text \<open>A comment of the BigQuery form \<^verbatim>\<open># ...\<close> is not masked as one: a quote inside it opens a literal for
  the check, so the statement on the next line, which the warehouse runs, is masked away.\<close>

theorem hash_comment_hides_statement:
  "ValidateReadOnlyWarehouseSQL
     (''SELECT 1 # it'' @ [quote] @ ''s'' @ [newline] @ ''; DROP TABLE t; -- '' @ [quote]) = None"
  by code_simp

end
