(* ===== verification/RateLimiter.thy ===== *)
theory RateLimiter
  imports Complex_Main Prelude
begin

text \<open>
  \<^verbatim>\<open>api/rate_limiter.go\<close>: token buckets per key and one for all keys. Times are nanoseconds. The number
  of tokens is a \<^verbatim>\<open>float64\<close> in the code and an exact rational here; nothing else is simplified. Each
  operation runs under the mutex, so the operations of a history come one after the other.
\<close>

record bucket =
  b_tokens :: rat
  b_lastFill :: int
  b_rate :: rat
  b_burst :: int

record rate_limiter =
  perKeyRate :: rat
  perKeyBurst :: int
  buckets :: "bucket gomap"
  global_bucket :: bucket
  staleAfter :: int
  lastClean :: int

record limiter_config =
  cfg_PerKeyRate :: rat
  cfg_PerKeyBurst :: int
  cfg_GlobalRate :: rat
  cfg_GlobalBurst :: int

definition secs :: "int \<Rightarrow> rat" where
  "secs d = of_int d / 1000000000"

section \<open>Buckets\<close>

definition refill :: "int \<Rightarrow> bucket \<Rightarrow> bucket" where
  "refill now b =
     (let elapsed = secs (now - b_lastFill b)
      in if elapsed \<le> 0 then b
         else (let t = b_tokens b + elapsed * b_rate b
               in b\<lparr>b_tokens := (if t > of_int (b_burst b) then of_int (b_burst b) else t), b_lastFill := now\<rparr>))"

definition bucket_allow :: "int \<Rightarrow> bucket \<Rightarrow> bool \<times> bucket" where
  "bucket_allow now b =
     (let b' = refill now b
      in if b_tokens b' < 1 then (False, b') else (True, b'\<lparr>b_tokens := b_tokens b' - 1\<rparr>))"

definition refund :: "bucket \<Rightarrow> bucket" where
  "refund b = (if b_tokens b < of_int (b_burst b) then b\<lparr>b_tokens := b_tokens b + 1\<rparr> else b)"

definition retryAfter :: "int \<Rightarrow> bucket \<Rightarrow> int \<times> bucket" where
  "retryAfter now b =
     (let b' = refill now b; deficit = 1 - b_tokens b'
      in (if b_rate b' \<le> 0 then 1
          else if deficit \<le> 0 then 1
          else (let s = \<lceil>deficit / b_rate b'\<rceil> in if s < 1 then 1 else s), b'))"

section \<open>The limiter\<close>

definition minutes :: "int \<Rightarrow> int" where
  "minutes m = m * 60 * 1000000000"

definition NewRateLimiter :: "limiter_config \<Rightarrow> int \<Rightarrow> rate_limiter" where
  "NewRateLimiter cfg now =
     \<lparr>perKeyRate = cfg_PerKeyRate cfg, perKeyBurst = cfg_PerKeyBurst cfg, buckets = [],
      global_bucket = \<lparr>b_tokens = of_int (cfg_GlobalBurst cfg), b_lastFill = now,
                       b_rate = cfg_GlobalRate cfg, b_burst = cfg_GlobalBurst cfg\<rparr>,
      staleAfter = minutes 10, lastClean = now\<rparr>"

text \<open>\<^verbatim>\<open>rl.staleAfter/2\<close> is an integer division that truncates.\<close>

definition maybeClean :: "int \<Rightarrow> rate_limiter \<Rightarrow> rate_limiter" where
  "maybeClean now rl =
     (if now - lastClean rl < staleAfter rl div 2 then rl
      else (let cutoff = now - staleAfter rl
            in rl\<lparr>buckets := filter (\<lambda>(k, b). \<not> b_lastFill b < cutoff) (buckets rl), lastClean := now\<rparr>))"

definition bucket_for :: "rate_limiter \<Rightarrow> int \<Rightarrow> string \<Rightarrow> bucket" where
  "bucket_for rl now key = (case map_of (buckets rl) key of
       Some b \<Rightarrow> b
     | None \<Rightarrow> \<lparr>b_tokens = of_int (perKeyBurst rl), b_lastFill = now,
                 b_rate = perKeyRate rl, b_burst = perKeyBurst rl\<rparr>)"

definition store_bucket :: "string \<Rightarrow> bucket \<Rightarrow> rate_limiter \<Rightarrow> rate_limiter" where
  "store_bucket key b rl = rl\<lparr>buckets := AList.update key b (buckets rl)\<rparr>"

text \<open>The result is the verdict, the seconds to wait, and the limiter afterwards.\<close>

definition Allow :: "rate_limiter \<Rightarrow> int \<Rightarrow> string \<Rightarrow> bool \<times> int \<times> rate_limiter" where
  "Allow rl0 now key =
     (let rl = maybeClean now rl0; (ok, g) = bucket_allow now (global_bucket rl)
      in if \<not> ok then
           (let (retry, g') = retryAfter now g in (False, retry, rl\<lparr>global_bucket := g'\<rparr>))
         else if key \<noteq> [] then
           (let (okb, b) = bucket_allow now (bucket_for rl now key)
            in if \<not> okb then
                 (let (retry, b') = retryAfter now b
                  in (False, retry, store_bucket key b' (rl\<lparr>global_bucket := refund g\<rparr>)))
               else (True, 0, store_bucket key b (rl\<lparr>global_bucket := g\<rparr>)))
         else (True, 0, rl\<lparr>global_bucket := g\<rparr>))"

definition AllowKey :: "rate_limiter \<Rightarrow> int \<Rightarrow> string \<Rightarrow> bool \<times> int \<times> rate_limiter" where
  "AllowKey rl0 now key =
     (if key = [] then (True, 0, rl0)
      else (let rl = maybeClean now rl0; (ok, b) = bucket_allow now (bucket_for rl now key)
            in if \<not> ok then
                 (let (retry, b') = retryAfter now b in (False, retry, store_bucket key b' rl))
               else (True, 0, store_bucket key b rl)))"

section \<open>Meters\<close>

text \<open>The grants of a history of requests that count.\<close>

fun granted :: "('s \<Rightarrow> int \<Rightarrow> 'r \<Rightarrow> bool \<times> 's) \<Rightarrow> ('r \<Rightarrow> bool) \<Rightarrow> 's \<Rightarrow> (int \<times> 'r) list \<Rightarrow> nat" where
  "granted step counts s [] = 0"
| "granted step counts s ((u, r) # h) =
     (let (ok, s') = step s u r in (if ok \<and> counts r then 1 else 0) + granted step counts s' h)"

text \<open>
  What a limiter promises: \<open>avail\<close> is what a state would still grant at a time. A grant that counts uses
  one unit, nothing else adds to it, and it grows no faster than \<open>rate\<close> per second. Then any history
  is granted at most what was there at the start and what grew since.
\<close>

locale meter =
  fixes step :: "'s \<Rightarrow> int \<Rightarrow> 'r \<Rightarrow> bool \<times> 's"
    and counts :: "'r \<Rightarrow> bool"
    and avail :: "'s \<Rightarrow> int \<Rightarrow> rat"
    and wf :: "'s \<Rightarrow> int \<Rightarrow> bool"
    and rate :: rat
  assumes step_wf: "wf s t \<Longrightarrow> t \<le> u \<Longrightarrow> wf (snd (step s u r)) u"
    and step_avail: "wf s t \<Longrightarrow> t \<le> u \<Longrightarrow>
      avail (snd (step s u r)) u + (if fst (step s u r) \<and> counts r then 1 else 0) \<le> avail s u"
    and avail_nonneg: "wf s t \<Longrightarrow> t \<le> u \<Longrightarrow> 0 \<le> avail s u"
    and avail_grows: "wf s t \<Longrightarrow> t \<le> u \<Longrightarrow> avail s u \<le> avail s t + rate * secs (u - t)"
begin

lemma granted_bound:
  assumes "wf s t" "sorted (t # map fst h @ [e])"
  shows "of_nat (granted step counts s h) \<le> avail s t + rate * secs (e - t)"
  using assms
proof (induction h arbitrary: s t)
  case Nil
  then have "0 \<le> avail s e" "avail s e \<le> avail s t + rate * secs (e - t)"
    using avail_nonneg avail_grows by auto
  then show ?case by simp
next
  case (Cons a h)
  obtain u r where a: "a = (u, r)" by force
  obtain ok s' where st: "step s u r = (ok, s')" by force
  have tu: "t \<le> u" "u \<le> e" using Cons.prems a by auto
  have "wf s' u" using step_wf [OF Cons.prems(1) tu(1), of r] st by simp
  then have "of_nat (granted step counts s' h) \<le> avail s' u + rate * secs (e - u)"
    using Cons.prems a tu by (intro Cons.IH) auto
  moreover have "avail s' u + (if ok \<and> counts r then 1 else 0) \<le> avail s u"
    using step_avail [OF Cons.prems(1) tu(1), of r] st by simp
  moreover have "avail s u \<le> avail s t + rate * secs (u - t)"
    by (rule avail_grows [OF Cons.prems(1) tu(1)])
  moreover have "rate * secs (e - u) + rate * secs (u - t) = rate * secs (e - t)"
    by (simp add: secs_def algebra_simps add_divide_distrib diff_divide_distrib)
  ultimately have "of_nat (granted step counts s' h) + (if ok \<and> counts r then 1 else 0) \<le> avail s t + rate * secs (e - t)"
    by linarith
  then show ?case by (auto simp: a st)
qed

end

section \<open>A bucket is a meter\<close>

definition bucket_ok :: "bucket \<Rightarrow> int \<Rightarrow> bool" where
  "bucket_ok b t \<longleftrightarrow> 0 \<le> b_tokens b \<and> b_tokens b \<le> of_int (b_burst b) \<and> b_lastFill b \<le> t \<and> 0 \<le> b_rate b"

definition available :: "bucket \<Rightarrow> int \<Rightarrow> rat" where
  "available b t = b_tokens (refill t b)"

lemma refill_fields [simp]: "b_rate (refill t b) = b_rate b" "b_burst (refill t b) = b_burst b"
  by (simp_all add: refill_def Let_def)

lemma refill_ok: "bucket_ok b t \<Longrightarrow> t \<le> u \<Longrightarrow> bucket_ok (refill u b) u"
  by (auto simp: bucket_ok_def refill_def Let_def secs_def)

lemma available_min:
  assumes "bucket_ok b t" "t \<le> u"
  shows "available b u = min (of_int (b_burst b)) (b_tokens b + b_rate b * secs (u - b_lastFill b))"
proof -
  have "secs (u - b_lastFill b) \<le> 0 \<longleftrightarrow> secs (u - b_lastFill b) = 0"
    using assms by (auto simp: secs_def bucket_ok_def)
  then show ?thesis
    using assms(1) by (auto simp: available_def refill_def Let_def bucket_ok_def min_def mult.commute)
qed

lemma secs_split: "secs (u - l) = secs (u - t) + secs (t - l)"
  by (simp add: secs_def algebra_simps add_divide_distrib diff_divide_distrib)

lemma available_grows:
  assumes "bucket_ok b t" "t \<le> u"
  shows "available b u \<le> available b t + b_rate b * secs (u - t)"
proof -
  have "0 \<le> b_rate b * secs (u - t)"
    using assms by (intro mult_nonneg_nonneg) (simp_all add: secs_def bucket_ok_def)
  moreover have "b_rate b * secs (u - b_lastFill b) = b_rate b * secs (u - t) + b_rate b * secs (t - b_lastFill b)"
    unfolding secs_split [of u "b_lastFill b" t] by (rule distrib_left)
  ultimately show ?thesis
    by (simp add: available_min [OF assms] available_min [OF assms(1) order_refl] min_def)
qed

lemma refill_again: "available (refill u b) u = available b u"
  by (auto simp: available_def refill_def Let_def secs_def)

lemma available_now: "b_lastFill b = u \<Longrightarrow> available b u = b_tokens b"
  by (simp add: available_def refill_def secs_def)

lemma refill_lastFill: "b_lastFill b \<le> u \<Longrightarrow> b_lastFill (refill u b) = u"
  by (auto simp: refill_def Let_def secs_def)

lemma bucket_allow_spec:
  assumes "bucket_ok b t" "t \<le> u"
  shows "bucket_ok (snd (bucket_allow u b)) u"
    "available (snd (bucket_allow u b)) u + (if fst (bucket_allow u b) then 1 else 0) = available b u"
    "b_rate (snd (bucket_allow u b)) = b_rate b" "b_burst (snd (bucket_allow u b)) = b_burst b"
    "b_lastFill (snd (bucket_allow u b)) = u"
proof -
  have r: "bucket_ok (refill u b) u" by (rule refill_ok [OF assms])
  have l: "b_lastFill (refill u b) = u" using assms by (intro refill_lastFill) (simp add: bucket_ok_def)
  show "bucket_ok (snd (bucket_allow u b)) u"
    using r by (auto simp: bucket_allow_def Let_def bucket_ok_def)
  show "available (snd (bucket_allow u b)) u + (if fst (bucket_allow u b) then 1 else 0) = available b u"
    using l refill_again [of u b] by (auto simp: bucket_allow_def Let_def available_now)
  show "b_rate (snd (bucket_allow u b)) = b_rate b" "b_burst (snd (bucket_allow u b)) = b_burst b"
    "b_lastFill (snd (bucket_allow u b)) = u"
    using l by (simp_all add: bucket_allow_def Let_def)
qed

interpretation bucket_meter: meter "\<lambda>b u (_ :: unit). bucket_allow u b" "\<lambda>_. True" available
    "\<lambda>b t. bucket_ok b t \<and> b_rate b = r" r for r
proof unfold_locales
  fix b t u and q :: unit assume b: "bucket_ok b t \<and> b_rate b = r" and tu: "t \<le> (u :: int)"
  note spec = bucket_allow_spec [OF conjunct1 [OF b] tu]
  show "bucket_ok (snd (bucket_allow u b)) u \<and> b_rate (snd (bucket_allow u b)) = r"
    using spec b by simp
  show "available (snd (bucket_allow u b)) u + (if fst (bucket_allow u b) \<and> True then 1 else 0) \<le> available b u"
    using spec(2) by simp
  show "0 \<le> available b u"
    using refill_ok [OF conjunct1 [OF b] tu] by (simp add: available_def bucket_ok_def)
  show "available b u \<le> available b t + r * secs (u - t)"
    using available_grows [OF conjunct1 [OF b] tu] b by simp
qed


section \<open>A key of the limiter is a meter\<close>

text \<open>Eviction forgets only buckets that are full again: that takes \<open>perKeyBurst\<close> tokens to grow within
  \<open>staleAfter\<close>.\<close>

definition limiter_ok :: "rate_limiter \<Rightarrow> int \<Rightarrow> bool" where
  "limiter_ok rl t \<longleftrightarrow>
     (\<forall>k b. map_of (buckets rl) k = Some b \<longrightarrow>
        bucket_ok b t \<and> b_rate b = perKeyRate rl \<and> b_burst b = perKeyBurst rl) \<and>
     distinct (keys (buckets rl)) \<and> 0 \<le> perKeyRate rl \<and> 0 \<le> perKeyBurst rl \<and>
     of_int (perKeyBurst rl) \<le> perKeyRate rl * secs (staleAfter rl)"

definition key_available :: "string \<Rightarrow> rate_limiter \<Rightarrow> int \<Rightarrow> rat" where
  "key_available k rl t = available (bucket_for rl t k) t"

lemma bucket_for_ok:
  assumes "limiter_ok rl t" "t \<le> u"
  shows "bucket_ok (bucket_for rl u k) u" "b_rate (bucket_for rl u k) = perKeyRate rl"
    "b_burst (bucket_for rl u k) = perKeyBurst rl"
  using assms by (auto simp: limiter_ok_def bucket_for_def bucket_ok_def split: option.splits) fastforce+

lemma maybeClean_fields [simp]:
  "perKeyRate (maybeClean u rl) = perKeyRate rl" "perKeyBurst (maybeClean u rl) = perKeyBurst rl"
  "staleAfter (maybeClean u rl) = staleAfter rl" "global_bucket (maybeClean u rl) = global_bucket rl"
  by (simp_all add: maybeClean_def Let_def)

lemma map_of_filter_values:
  "distinct (map fst m) \<Longrightarrow> map_of (filter (\<lambda>(k, b). P b) m) k =
     (case map_of m k of None \<Rightarrow> None | Some b \<Rightarrow> if P b then Some b else None)"
  by (induction m) (auto split: option.splits dest: map_of_SomeD, force dest: map_of_SomeD)

lemma map_of_maybeClean:
  assumes "distinct (keys (buckets rl))"
  shows "map_of (buckets (maybeClean u rl)) k \<in> {map_of (buckets rl) k, None}"
    "map_of (buckets (maybeClean u rl)) k \<noteq> map_of (buckets rl) k \<Longrightarrow>
       \<exists>b. map_of (buckets rl) k = Some b \<and> b_lastFill b < u - staleAfter rl"
    "distinct (keys (buckets (maybeClean u rl)))"
  using assms map_of_filter_values [of "buckets rl" "\<lambda>b. \<not> b_lastFill b < u - staleAfter rl" k]
  by (auto simp: maybeClean_def Let_def keys_def distinct_map_filter split: option.splits if_splits)

lemma maybeClean_ok:
  assumes "limiter_ok rl t"
  shows "limiter_ok (maybeClean u rl) t"
proof -
  have d: "distinct (keys (buckets rl))" using assms by (simp add: limiter_ok_def)
  have "map_of (buckets rl) k = Some b" if "map_of (buckets (maybeClean u rl)) k = Some b" for k b
    using map_of_maybeClean(1) [OF d, of u k] that by auto
  then show ?thesis using assms map_of_maybeClean(3) [OF d, of u] by (auto simp: limiter_ok_def)
qed

lemma maybeClean_available:
  assumes rl: "limiter_ok rl t" and tu: "t \<le> u"
  shows "key_available k (maybeClean u rl) u = key_available k rl u"
proof (cases "map_of (buckets (maybeClean u rl)) k = map_of (buckets rl) k")
  case True
  then show ?thesis by (simp add: key_available_def bucket_for_def split: option.splits)
next
  case False
  have d: "distinct (keys (buckets rl))" using rl by (simp add: limiter_ok_def)
  obtain b where b: "map_of (buckets rl) k = Some b" "b_lastFill b < u - staleAfter rl"
    using map_of_maybeClean(2) [OF d False] by blast
  have none: "map_of (buckets (maybeClean u rl)) k = None"
    using map_of_maybeClean(1) [OF d, of u k] False by auto
  have ok: "bucket_ok b t" "b_rate b = perKeyRate rl" "b_burst b = perKeyBurst rl"
    using rl b(1) by (auto simp: limiter_ok_def)
  have "perKeyRate rl * secs (staleAfter rl) \<le> perKeyRate rl * secs (u - b_lastFill b)"
    using rl b(2) by (intro mult_left_mono) (auto simp: limiter_ok_def secs_def)
  then have "of_int (perKeyBurst rl) \<le> perKeyRate rl * secs (u - b_lastFill b)"
    using rl by (auto simp: limiter_ok_def)
  then have "available b u = of_int (perKeyBurst rl)"
    using available_min [OF ok(1) tu] ok by (simp add: bucket_ok_def min_def)
  moreover have "key_available k (maybeClean u rl) u = of_int (perKeyBurst rl)"
    by (simp add: key_available_def bucket_for_def none available_now)
  ultimately show ?thesis by (simp add: key_available_def bucket_for_def b(1))
qed


lemma limiter_ok_mono: "limiter_ok rl t \<Longrightarrow> t \<le> u \<Longrightarrow> limiter_ok rl u"
  by (fastforce simp: limiter_ok_def bucket_ok_def)

lemma store_bucket_ok:
  assumes "limiter_ok rl u" "bucket_ok b u" "b_rate b = perKeyRate rl" "b_burst b = perKeyBurst rl"
  shows "limiter_ok (store_bucket key b rl) u"
  using assms by (auto simp: limiter_ok_def store_bucket_def update_conv' keys_def distinct_update)

lemma store_bucket_available:
  "key_available k (store_bucket key b rl) u = (if k = key then available b u else key_available k rl u)"
  by (auto simp: key_available_def bucket_for_def store_bucket_def update_conv' split: option.splits)

lemma global_irrelevant [simp]:
  "key_available k (rl\<lparr>global_bucket := g\<rparr>) u = key_available k rl u"
  "limiter_ok (rl\<lparr>global_bucket := g\<rparr>) u \<longleftrightarrow> limiter_ok rl u"
  by (auto simp: key_available_def bucket_for_def limiter_ok_def split: option.splits)

lemma store_bucket_fields [simp]: "perKeyRate (store_bucket key b rl) = perKeyRate rl"
  by (simp add: store_bucket_def)

lemma retryAfter_bucket: "snd (retryAfter u b) = refill u b"
  by (simp add: retryAfter_def Let_def)

text \<open>One consultation of the bucket of a key: the verdict and what the stored bucket has left.\<close>

lemma consult_key:
  assumes "limiter_ok rl t" "t \<le> u" "bucket_allow u (bucket_for (maybeClean u rl) u key) = (ok, b)"
  shows "limiter_ok (store_bucket key b (maybeClean u rl)) u"
    "key_available k (store_bucket key b (maybeClean u rl)) u + (if ok \<and> key = k then 1 else 0) \<le> key_available k rl u"
    "limiter_ok (store_bucket key (refill u b) (maybeClean u rl)) u"
    "key_available k (store_bucket key (refill u b) (maybeClean u rl)) u \<le> key_available k rl u"
proof -
  have cl: "limiter_ok (maybeClean u rl) u" by (rule maybeClean_ok [OF limiter_ok_mono [OF assms(1,2)]])
  note b0 = bucket_for_ok [OF cl order_refl, of key]
  note spec = bucket_allow_spec [OF b0(1) order_refl, unfolded assms(3)]
  have r: "b_rate b = perKeyRate (maybeClean u rl)" "b_burst b = perKeyBurst (maybeClean u rl)"
    using spec(3,4) b0(2,3) by simp_all
  have same: "key_available k (maybeClean u rl) u = key_available k rl u"
    by (rule maybeClean_available [OF assms(1,2)])
  have av: "available b u + (if ok then 1 else 0) = key_available key (maybeClean u rl) u"
    using spec(2) by (simp add: key_available_def)
  show "limiter_ok (store_bucket key b (maybeClean u rl)) u"
    using spec(1) r by (intro store_bucket_ok cl) simp_all
  show "limiter_ok (store_bucket key (refill u b) (maybeClean u rl)) u"
    using refill_ok [OF _ order_refl] spec(1) r by (intro store_bucket_ok cl) simp_all
  show "key_available k (store_bucket key b (maybeClean u rl)) u + (if ok \<and> key = k then 1 else 0) \<le> key_available k rl u"
    using av same by (auto simp: store_bucket_available)
  show "key_available k (store_bucket key (refill u b) (maybeClean u rl)) u \<le> key_available k rl u"
    using av same by (auto simp: store_bucket_available refill_again split: if_splits)
qed

definition allow_key_step :: "rate_limiter \<Rightarrow> int \<Rightarrow> string \<Rightarrow> bool \<times> rate_limiter" where
  "allow_key_step rl u key = (fst (AllowKey rl u key), snd (snd (AllowKey rl u key)))"

definition allow_step :: "rate_limiter \<Rightarrow> int \<Rightarrow> string \<Rightarrow> bool \<times> rate_limiter" where
  "allow_step rl u key = (fst (Allow rl u key), snd (snd (Allow rl u key)))"

lemma allow_key_step_cases:
  assumes "limiter_ok rl t" "t \<le> u"
  shows "limiter_ok (snd (allow_key_step rl u key)) u \<and>
    key_available k (snd (allow_key_step rl u key)) u + (if fst (allow_key_step rl u key) \<and> key = k \<and> key \<noteq> [] then 1 else 0)
      \<le> key_available k rl u \<and> perKeyRate (snd (allow_key_step rl u key)) = perKeyRate rl"
proof (cases "key = []")
  case True
  then show ?thesis using limiter_ok_mono [OF assms] by (simp add: allow_key_step_def AllowKey_def)
next
  case False
  obtain ok b where b: "bucket_allow u (bucket_for (maybeClean u rl) u key) = (ok, b)" by force
  note c = consult_key [OF assms b]
  have step: "allow_key_step rl u key = (ok, store_bucket key (if ok then b else refill u b) (maybeClean u rl))"
    using False by (simp add: allow_key_step_def AllowKey_def Let_def b case_prod_unfold retryAfter_bucket)
  show ?thesis using c(1,3) c(2) [of k] c(4) [of k] unfolding step by (cases ok; cases "key = k") auto
qed

lemma allow_step_cases:
  assumes "limiter_ok rl t" "t \<le> u"
  shows "limiter_ok (snd (allow_step rl u key)) u \<and>
    key_available k (snd (allow_step rl u key)) u + (if fst (allow_step rl u key) \<and> key = k \<and> key \<noteq> [] then 1 else 0)
      \<le> key_available k rl u \<and> perKeyRate (snd (allow_step rl u key)) = perKeyRate rl"
proof -
  have cl: "limiter_ok (maybeClean u rl) u" "key_available k (maybeClean u rl) u = key_available k rl u"
    using maybeClean_ok [OF limiter_ok_mono [OF assms]] maybeClean_available [OF assms] by blast+
  obtain ok b where b: "bucket_allow u (bucket_for (maybeClean u rl) u key) = (ok, b)" by force
  note c = consult_key [OF assms b]
  have g: "store_bucket key x (y\<lparr>global_bucket := z\<rparr>) = (store_bucket key x y)\<lparr>global_bucket := z\<rparr>" for x y z
    by (simp add: store_bucket_def)
  have "\<exists>gb. allow_step rl u key \<in> {(False, (maybeClean u rl)\<lparr>global_bucket := gb\<rparr>)} \<union>
      (if key = [] then {(True, (maybeClean u rl)\<lparr>global_bucket := gb\<rparr>)}
       else {(ok, (store_bucket key (if ok then b else refill u b) (maybeClean u rl))\<lparr>global_bucket := gb\<rparr>)})"
  proof -
    obtain okg g where gb: "bucket_allow u (global_bucket rl) = (okg, g)" by force
    show ?thesis
      by (auto simp: allow_step_def Allow_def Let_def b gb case_prod_unfold retryAfter_bucket g)
  qed
  then show ?thesis using cl c(1,3) c(2) [of k] c(4) [of k]
    by (cases ok; cases "key = []") auto
qed


interpretation key_meter: meter allow_key_step "\<lambda>key. key = k \<and> key \<noteq> []" "key_available k"
    "\<lambda>rl t. limiter_ok rl t \<and> perKeyRate rl = r" r for k r
proof unfold_locales
  fix rl t u key assume rl: "limiter_ok rl t \<and> perKeyRate rl = r" and tu: "t \<le> (u :: int)"
  note step = allow_key_step_cases [OF conjunct1 [OF rl] tu, of key]
  show "limiter_ok (snd (allow_key_step rl u key)) u \<and> perKeyRate (snd (allow_key_step rl u key)) = r"
    using step rl by simp
  show "key_available k (snd (allow_key_step rl u key)) u +
      (if fst (allow_key_step rl u key) \<and> key = k \<and> key \<noteq> [] then 1 else 0) \<le> key_available k rl u"
    using step [of k] by blast
next
  fix rl t u assume rl: "limiter_ok rl t \<and> perKeyRate rl = r" and tu: "t \<le> (u :: int)"
  show "0 \<le> key_available k rl u"
    using refill_ok [OF bucket_for_ok(1) [OF conjunct1 [OF rl] tu] order_refl]
    by (simp add: key_available_def available_def bucket_ok_def)
  show "key_available k rl u \<le> key_available k rl t + r * secs (u - t)"
  proof (cases "map_of (buckets rl) k")
    case None
    then show ?thesis using rl tu
      by (simp add: key_available_def bucket_for_def available_now limiter_ok_def secs_def)
  next
    case (Some b)
    then have "bucket_ok b t" "b_rate b = r" using rl by (auto simp: limiter_ok_def)
    with Some available_grows [OF _ tu] show ?thesis by (auto simp: key_available_def bucket_for_def)
  qed
qed

text \<open>The global bucket: a token taken for a request its key then rejects is given back.\<close>

lemma refund_undoes:
  assumes "bucket_ok b t" "t \<le> u" "bucket_allow u b = (True, g)"
  shows "refund g = refill u b"
proof -
  have "b_tokens (refill u b) \<le> of_int (b_burst b)"
    using refill_ok [OF assms(1,2)] by (simp add: bucket_ok_def)
  moreover have "g = (refill u b)\<lparr>b_tokens := b_tokens (refill u b) - 1\<rparr>"
    using assms(3) by (simp add: bucket_allow_def Let_def split: if_splits)
  ultimately show ?thesis by (simp add: refund_def)
qed

lemma allow_step_global:
  assumes "bucket_ok (global_bucket rl) t" "t \<le> u"
  shows "bucket_ok (global_bucket (snd (allow_step rl u key))) u \<and>
    b_rate (global_bucket (snd (allow_step rl u key))) = b_rate (global_bucket rl) \<and>
    b_burst (global_bucket (snd (allow_step rl u key))) = b_burst (global_bucket rl) \<and>
    available (global_bucket (snd (allow_step rl u key))) u + (if fst (allow_step rl u key) then 1 else 0)
      = available (global_bucket rl) u"
proof -
  obtain ok g where g: "bucket_allow u (global_bucket rl) = (ok, g)" by force
  note spec = bucket_allow_spec [OF assms, unfolded g]
  have r: "bucket_ok (refill u (global_bucket rl)) u" "bucket_ok (refill u g) u"
    using refill_ok [OF assms] refill_ok [OF _ order_refl] spec(1) by simp_all
  have "ok \<Longrightarrow> refund g = refill u (global_bucket rl)" using refund_undoes [OF assms] g by simp
  then show ?thesis using spec r refill_again [of u g] refill_again [of u "global_bucket rl"]
    by (cases ok; cases "key = []")
      (auto simp: allow_step_def Allow_def Let_def g case_prod_unfold retryAfter_bucket store_bucket_def)
qed

interpretation global_meter: meter allow_step "\<lambda>_. True" "\<lambda>rl t. available (global_bucket rl) t"
    "\<lambda>rl t. bucket_ok (global_bucket rl) t \<and> b_rate (global_bucket rl) = r" r for r
proof unfold_locales
  fix rl :: rate_limiter and t u key assume rl: "bucket_ok (global_bucket rl) t \<and> b_rate (global_bucket rl) = r" and tu: "t \<le> (u :: int)"
  note step = allow_step_global [OF conjunct1 [OF rl] tu, of key]
  show "bucket_ok (global_bucket (snd (allow_step rl u key))) u \<and> b_rate (global_bucket (snd (allow_step rl u key))) = r"
    using step rl by simp
  show "available (global_bucket (snd (allow_step rl u key))) u + (if fst (allow_step rl u key) \<and> True then 1 else 0)
      \<le> available (global_bucket rl) u"
    using step by simp
  show "0 \<le> available (global_bucket rl) u"
    using refill_ok [OF conjunct1 [OF rl] tu] by (simp add: available_def bucket_ok_def)
  show "available (global_bucket rl) u \<le> available (global_bucket rl) t + r * secs (u - t)"
    using available_grows [OF conjunct1 [OF rl] tu] rl by simp
qed

lemma key_available_burst: "limiter_ok rl t \<Longrightarrow> key_available k rl t \<le> of_int (perKeyBurst rl)"
  using bucket_for_ok [of rl t t k] refill_ok [of "bucket_for rl t k" t t]
  by (simp add: key_available_def available_def bucket_ok_def)

lemma new_limiter_ok:
  "0 \<le> cfg_PerKeyRate cfg \<Longrightarrow> 0 \<le> cfg_PerKeyBurst cfg \<Longrightarrow>
   of_int (cfg_PerKeyBurst cfg) \<le> cfg_PerKeyRate cfg * 600 \<Longrightarrow> limiter_ok (NewRateLimiter cfg t) t"
  by (simp add: limiter_ok_def NewRateLimiter_def minutes_def secs_def)

section \<open>Properties\<close>

text \<open>C28: However requests for all keys are interleaved, one key is granted at most its burst plus what its
  rate adds over the time they span, although idle buckets are evicted; the burst must grow back
  within the ten minutes after which a bucket counts as stale.\<close>

theorem rate_limit_key_bound:
  assumes "0 \<le> cfg_PerKeyRate cfg" "0 \<le> cfg_PerKeyBurst cfg"
    and "of_int (cfg_PerKeyBurst cfg) \<le> cfg_PerKeyRate cfg * 600"
    and "sorted (t # map fst h @ [e])"
  shows "of_nat (granted allow_key_step (\<lambda>key. key = k \<and> key \<noteq> []) (NewRateLimiter cfg t) h)
    \<le> of_int (cfg_PerKeyBurst cfg) + cfg_PerKeyRate cfg * secs (e - t)"
proof -
  have ok: "limiter_ok (NewRateLimiter cfg t) t" by (rule new_limiter_ok [OF assms(1-3)])
  moreover have "perKeyRate (NewRateLimiter cfg t) = cfg_PerKeyRate cfg" by (simp add: NewRateLimiter_def)
  ultimately have "of_nat (granted allow_key_step (\<lambda>key. key = k \<and> key \<noteq> []) (NewRateLimiter cfg t) h)
      \<le> key_available k (NewRateLimiter cfg t) t + cfg_PerKeyRate cfg * secs (e - t)"
    using key_meter.granted_bound [OF _ assms(4)] by blast
  then show ?thesis using key_available_burst [OF ok, of k] by (simp add: NewRateLimiter_def)
qed

lemma rate_limit_key_bound_witness:
  "of_nat (granted allow_key_step (\<lambda>key. key = ''a'' \<and> key \<noteq> [])
      (NewRateLimiter \<lparr>cfg_PerKeyRate = 1, cfg_PerKeyBurst = 2, cfg_GlobalRate = 1, cfg_GlobalBurst = 1\<rparr> 0)
      [(0, ''a''), (0, ''b''), (5, ''a''), (5, ''a'')]) \<le> (2 + 1 * secs (1000000000 - 0) :: rat)"
  using rate_limit_key_bound [of "\<lparr>cfg_PerKeyRate = 1, cfg_PerKeyBurst = 2, cfg_GlobalRate = 1, cfg_GlobalBurst = 1\<rparr>"
      0 "[(0, ''a''), (0, ''b''), (5, ''a''), (5, ''a'')]" 1000000000 "''a''"]
  by simp




end
