(* ===== verification/Encodings.thy ===== *)
theory Encodings
  imports GoNumbers
begin

text \<open>
  Text encodings of Go's standard library the signature code calls: decimal integers
  (\<^verbatim>\<open>strconv\<close>), \<^verbatim>\<open>encoding/hex\<close>, \<^verbatim>\<open>encoding/base64\<close> (standard with padding, raw URL without) and the query
  escaping of \<^verbatim>\<open>net/url\<close>, each with the round trip the code relies on.
\<close>

section \<open>Decimal integers\<close>

lemma digit_char_of: "d < 10 \<Longrightarrow> (of_char (digit_char d) :: nat) = 48 + d"
  by (simp add: digit_char_def)

lemma digits_val_append: "digits_val acc (l @ [c]) =
    (case digits_val acc l of None \<Rightarrow> None | Some n \<Rightarrow> digits_val n [c])"
  by (induction l arbitrary: acc) (auto simp: Let_def)

lemma digits_val_nat_str: "digits_val 0 (nat_str n) = Some n"
proof (induction n rule: nat_str.induct)
  case (1 n)
  show ?case
  proof (cases "n < 10")
    case True
    then show ?thesis by (subst nat_str.simps) (simp add: digit_char_of Let_def)
  next
    case False
    then show ?thesis using 1
      by (subst nat_str.simps) (simp add: digits_val_append digit_char_of Let_def)
  qed
qed

lemma nat_str_chars: "c \<in> set (nat_str n) \<Longrightarrow> 48 \<le> (of_char c :: nat) \<and> of_char c \<le> (57 :: nat)"
  using digits_val_chars [OF digits_val_nat_str] .

lemma nat_str_first: "\<exists>c cs. nat_str n = c # cs \<and> 48 \<le> (of_char c :: nat) \<and> of_char c \<le> (57 :: nat)"
  using nat_str_chars [of "hd (nat_str n)" n] nat_str_nonempty [of n] by (cases "nat_str n") auto

lemma parse_int_str:
  assumes "int64_range i"
  shows "parse_int (int_str i) = Some i"
proof (cases "i < 0")
  case True
  then show ?thesis using assms
    by (simp add: parse_int_def int_str_def digits_val_nat_str)
next
  case False
  obtain c cs where c: "nat_str (nat i) = c # cs" "48 \<le> (of_char c :: nat)" "of_char c \<le> (57 :: nat)"
    using nat_str_first [of "nat i"] by blast
  have "digits_val 0 (c # cs) = Some (nat i)" using digits_val_nat_str [of "nat i"] c(1) by simp
  moreover have "c \<noteq> CHR ''-''" "c \<noteq> CHR ''+''" using c by auto
  ultimately show ?thesis using False assms
    by (simp add: parse_int_def int_str_def c(1) del: digits_val.simps)
qed

lemma int_str_inj: "int_str i = int_str j \<Longrightarrow> i = j"
proof -
  assume eq: "int_str i = int_str j"
  have inj: "nat_str m = nat_str n \<Longrightarrow> m = n" for m n
    by (metis digits_val_nat_str option.inject)
  have minus: "nat_str n \<noteq> CHR ''-'' # t" for n t
    using nat_str_first [of n] by auto
  show "i = j"
    using eq by (auto simp: int_str_def minus minus [symmetric] dest!: inj split: if_splits)
qed

lemma int_str_chars: "c \<in> set (int_str i) \<Longrightarrow> c = CHR ''-'' \<or> (48 \<le> (of_char c :: nat) \<and> of_char c \<le> (57 :: nat))"
  using nat_str_chars by (auto simp: int_str_def split: if_splits)

section \<open>Hex\<close>

definition hex_digit :: "nat \<Rightarrow> char" where
  "hex_digit d = (if d < 10 then char_of (48 + d) else char_of (87 + d))"

definition hex_encode :: "string \<Rightarrow> string" where
  "hex_encode bs = concat (map (\<lambda>b. let n = of_char b :: nat in [hex_digit (n div 16), hex_digit (n mod 16)]) bs)"

lemma hex_encode_chars: "c \<in> set (hex_encode bs) \<Longrightarrow>
    (48 \<le> (of_char c :: nat) \<and> of_char c \<le> (57 :: nat)) \<or> (97 \<le> (of_char c :: nat) \<and> of_char c \<le> (102 :: nat))"
proof -
  have h: "d < 16 \<Longrightarrow> (of_char (hex_digit d) :: nat) = (if d < 10 then 48 + d else 87 + d)" for d
    by (simp add: hex_digit_def)
  have b: "(of_char b :: nat) div 16 < 16" "(of_char b :: nat) mod 16 < 16" for b :: char
  proof -
    have "(of_char b :: nat) < 256" by simp
    then show "(of_char b :: nat) div 16 < 16" by linarith
  qed simp
  assume "c \<in> set (hex_encode bs)"
  then obtain x :: char where "c = hex_digit (of_char x div 16) \<or> c = hex_digit (of_char x mod 16)"
    by (auto simp: hex_encode_def Let_def)
  then obtain d where d: "d < 16" "c = hex_digit d" using b [of x] by metis
  show ?thesis using h [OF d(1)] d by auto
qed

section \<open>Base 64\<close>

definition b64_char :: "char \<Rightarrow> char \<Rightarrow> nat \<Rightarrow> char" where
  "b64_char c62 c63 v =
     (if v < 26 then char_of (65 + v) else if v < 52 then char_of (71 + v)
      else if v < 62 then char_of (v - 4) else if v = 62 then c62 else c63)"

definition b64_val :: "char \<Rightarrow> char \<Rightarrow> char \<Rightarrow> nat option" where
  "b64_val c62 c63 c =
     (let n = of_char c :: nat in
      if 65 \<le> n \<and> n \<le> 90 then Some (n - 65) else if 97 \<le> n \<and> n \<le> 122 then Some (n - 71)
      else if 48 \<le> n \<and> n \<le> 57 then Some (n + 4)
      else if c = c62 then Some 62 else if c = c63 then Some 63 else None)"

text \<open>The sextets of three bytes; a rest of one or two bytes gives two or three sextets.\<close>

fun sextets :: "nat list \<Rightarrow> nat list" where
  "sextets (a # b # c # r) =
     a div 4 # (a mod 4 * 16 + b div 16) # (b mod 16 * 4 + c div 64) # c mod 64 # sextets r"
| "sextets [a, b] = [a div 4, a mod 4 * 16 + b div 16, b mod 16 * 4]"
| "sextets [a] = [a div 4, a mod 4 * 16]"
| "sextets [] = []"

text \<open>Decoding: one sextet left over is an error; the unused bits of the last one are not looked at.\<close>

fun unsextets :: "nat list \<Rightarrow> nat list option" where
  "unsextets (p # q # r # s # t) = map_option
     (\<lambda>u. (p * 4 + q div 16) # (q mod 16 * 16 + r div 4) # (r mod 4 * 64 + s) # u) (unsextets t)"
| "unsextets [p, q, r] = Some [p * 4 + q div 16, q mod 16 * 16 + r div 4]"
| "unsextets [p, q] = Some [p * 4 + q div 16]"
| "unsextets [p] = None"
| "unsextets [] = Some []"

lemma unsextets_sextets: "list_all (\<lambda>b. b < 256) bs \<Longrightarrow> unsextets (sextets bs) = Some bs"
proof (induction bs rule: sextets.induct)
  case (1 a b c r)
  have "(a mod 4 * 16 + b div 16) div 16 = a mod 4" "(b mod 16 * 4 + c div 64) div 4 = b mod 16"
    "(b mod 16 * 4 + c div 64) mod 4 = c div 64" "(a mod 4 * 16 + b div 16) mod 16 = b div 16"
    using 1(2) by auto
  with 1 show ?case by (simp add: mult.commute)
qed (auto simp: mult.commute)

lemma sextets_less: "list_all (\<lambda>b. b < 256) bs \<Longrightarrow> v \<in> set (sextets bs) \<Longrightarrow> v < 64"
  by (induction bs rule: sextets.induct) auto

text \<open>Raw URL alphabet without padding. The decoder skips carriage returns and line feeds.\<close>

definition url_b64_encode :: "string \<Rightarrow> string" where
  "url_b64_encode bs = map (b64_char CHR ''-'' CHR ''_'') (sextets (map of_char bs))"

fun all_some :: "'a option list \<Rightarrow> 'a list option" where
  "all_some [] = Some []"
| "all_some (x # xs) = (case x of None \<Rightarrow> None | Some y \<Rightarrow> map_option (Cons y) (all_some xs))"

definition strip_crlf :: "string \<Rightarrow> string" where
  "strip_crlf s = filter (\<lambda>c. c \<noteq> CHR 0x0A \<and> c \<noteq> CHR 0x0D) s"

definition url_b64_decode :: "string \<Rightarrow> string option" where
  "url_b64_decode s = (case all_some (map (b64_val CHR ''-'' CHR ''_'') (strip_crlf s)) of
       None \<Rightarrow> None
     | Some vs \<Rightarrow> map_option (map char_of) (unsextets vs))"

text \<open>Standard alphabet; the text is padded to a multiple of four with at most two equals signs.\<close>

definition std_b64_encode :: "string \<Rightarrow> string" where
  "std_b64_encode bs =
     (let t = map (b64_char CHR ''+'' CHR ''/'') (sextets (map of_char bs))
      in t @ replicate ((4 - length t mod 4) mod 4) CHR ''='')"

definition std_b64_decode :: "string \<Rightarrow> string option" where
  "std_b64_decode s0 =
     (let s = strip_crlf s0; body = takeWhile (\<lambda>c. c \<noteq> CHR ''='') s; pads = length s - length body
      in if length s mod 4 \<noteq> 0 \<or> 2 < pads \<or> drop (length body) s \<noteq> replicate pads CHR ''='' then None
         else (case all_some (map (b64_val CHR ''+'' CHR ''/'') body) of
             None \<Rightarrow> None
           | Some vs \<Rightarrow> map_option (map char_of) (unsextets vs)))"

lemma b64_char_val:
  assumes "v < 64" "c62 \<in> {CHR ''-'', CHR ''+''}" "c63 \<in> {CHR ''_'', CHR ''/''}"
  shows "b64_val c62 c63 (b64_char c62 c63 v) = Some v"
    "b64_char c62 c63 v \<notin> {CHR 0x0A, CHR 0x0D, CHR ''='', CHR '','', CHR '' '', CHR 0x22}"
proof -
  consider "v < 26" | "26 \<le> v \<and> v < 52" | "52 \<le> v \<and> v < 62" | "v = 62" | "v = 63" using assms(1) by linarith
  then have "b64_val c62 c63 (b64_char c62 c63 v) = Some v \<and>
      b64_char c62 c63 v \<notin> {CHR 0x0A, CHR 0x0D, CHR ''='', CHR '','', CHR '' '', CHR 0x22}"
  proof cases
    case 1
    then have "(of_char (b64_char c62 c63 v) :: nat) = 65 + v" by (simp add: b64_char_def)
    with 1 show ?thesis by (auto simp: b64_val_def Let_def)
  next
    case 2
    then have "(of_char (b64_char c62 c63 v) :: nat) = 71 + v" by (simp add: b64_char_def)
    with 2 show ?thesis by (auto simp: b64_val_def Let_def)
  next
    case 3
    then have "(v - 4) mod 256 = v - 4" by (intro mod_less) linarith
    with 3 have "(of_char (b64_char c62 c63 v) :: nat) = v - 4" by (simp add: b64_char_def)
    with 3 show ?thesis by (auto simp: b64_val_def Let_def)
  qed (use assms(2,3) in \<open>auto simp: b64_char_def b64_val_def\<close>)
  then show "b64_val c62 c63 (b64_char c62 c63 v) = Some v"
    "b64_char c62 c63 v \<notin> {CHR 0x0A, CHR 0x0D, CHR ''='', CHR '','', CHR '' '', CHR 0x22}" by auto
qed

lemma all_some_map: "(\<And>v. v \<in> set vs \<Longrightarrow> f (g v) = Some v) \<Longrightarrow> all_some (map (f \<circ> g) vs) = Some vs"
  by (induction vs) auto

lemma bytes_of_string: "list_all (\<lambda>b. b < 256) (map of_char s :: nat list)"
  by (simp add: list_all_iff)

lemma b64_text_chars:
  assumes "c \<in> set (map (b64_char c62 c63) (sextets (map of_char bs)))"
    "c62 \<in> {CHR ''-'', CHR ''+''}" "c63 \<in> {CHR ''_'', CHR ''/''}"
  shows "c \<notin> {CHR 0x0A, CHR 0x0D, CHR ''='', CHR '','', CHR '' '', CHR 0x22}"
proof -
  obtain v where v: "v \<in> set (sextets (map of_char bs))" "c = b64_char c62 c63 v"
    using assms(1) by (metis imageE set_map)
  from sextets_less [OF bytes_of_string v(1)] b64_char_val(2) [OF _ assms(2,3)] v(2)
  show ?thesis by metis
qed

lemma b64_text_vals:
  assumes "c62 \<in> {CHR ''-'', CHR ''+''}" "c63 \<in> {CHR ''_'', CHR ''/''}"
  shows "all_some (map (b64_val c62 c63 \<circ> b64_char c62 c63) (sextets (map of_char bs))) = Some (sextets (map of_char bs))"
  by (rule all_some_map) (rule b64_char_val(1) [OF sextets_less [OF bytes_of_string] assms])

lemma alphabets: "CHR ''-'' \<in> {CHR ''-'', CHR ''+''}" "CHR ''_'' \<in> {CHR ''_'', CHR ''/''}"
  "CHR ''+'' \<in> {CHR ''-'', CHR ''+''}" "CHR ''/'' \<in> {CHR ''_'', CHR ''/''}"
  by simp_all

lemma url_b64_chars: "c \<in> set (url_b64_encode bs) \<Longrightarrow> c \<notin> {CHR 0x0A, CHR 0x0D, CHR ''='', CHR '','', CHR '' '', CHR 0x22}"
  unfolding url_b64_encode_def by (rule b64_text_chars [OF _ alphabets(1,2)])

lemma url_b64_roundtrip: "url_b64_decode (url_b64_encode bs) = Some bs"
proof -
  have "strip_crlf (url_b64_encode bs) = url_b64_encode bs"
    unfolding strip_crlf_def by (rule filter_True) (blast dest: url_b64_chars)
  moreover have "all_some (map (b64_val CHR ''-'' CHR ''_'' \<circ> b64_char CHR ''-'' CHR ''_'') (sextets (map of_char bs)))
      = Some (sextets (map of_char bs))" by (rule b64_text_vals [OF alphabets(1,2)])
  ultimately show ?thesis
    by (simp add: url_b64_decode_def url_b64_encode_def unsextets_sextets bytes_of_string comp_def)
qed

lemma length_sextets: "length (sextets bs) mod 4 \<in> {0, 2, 3}"
  by (induction bs rule: sextets.induct) auto

lemma pad_length: "(m :: nat) mod 4 \<in> {0, 2, 3} \<Longrightarrow> (4 - m mod 4) mod 4 \<le> 2 \<and> (m + (4 - m mod 4) mod 4) mod 4 = 0"
  by (auto) presburger+

lemma std_b64_roundtrip: "std_b64_decode (std_b64_encode bs) = Some bs"
proof -
  define t where "t = map (b64_char CHR ''+'' CHR ''/'') (sextets (map of_char bs))"
  define p where "p = (4 - length t mod 4) mod 4"
  have c: "c \<in> set t \<Longrightarrow> c \<notin> {CHR 0x0A, CHR 0x0D, CHR ''='', CHR '','', CHR '' '', CHR 0x22}" for c
    unfolding t_def by (rule b64_text_chars [OF _ alphabets(3,4)])
  have enc: "std_b64_encode bs = t @ replicate p CHR ''=''"
    by (simp add: std_b64_encode_def t_def p_def Let_def)
  have s1: "filter (\<lambda>c. c \<noteq> CHR 0x0A \<and> c \<noteq> CHR 0x0D) t = t" by (rule filter_True) (blast dest: c)
  have s: "strip_crlf (t @ replicate p CHR ''='') = t @ replicate p CHR ''=''"
    unfolding strip_crlf_def by (simp add: s1)
  have ne: "\<forall>c \<in> set t. c \<noteq> CHR ''=''" by (blast dest: c)
  have body: "takeWhile (\<lambda>c. c \<noteq> CHR ''='') (t @ replicate p CHR ''='') = t"
    using ne by (cases p) (simp_all add: takeWhile_eq_all_conv takeWhile_tail)
  have p: "p \<le> 2" "(length t + p) mod 4 = 0"
    using pad_length [OF length_sextets [of "map of_char bs"]] by (simp_all add: p_def t_def)
  have "all_some (map (b64_val CHR ''+'' CHR ''/'') t) = Some (sextets (map of_char bs))"
    using b64_text_vals [OF alphabets(3,4), of bs] by (simp add: t_def)
  then show ?thesis
    unfolding std_b64_decode_def Let_def enc s body using p
    by (simp add: unsextets_sextets bytes_of_string comp_def)
qed

section \<open>Query strings\<close>

text \<open>\<^verbatim>\<open>url.QueryEscape\<close> keeps letters, digits and four marks, writes a space as a plus sign and every other
  byte as an upper-case percent triple.\<close>

definition unreserved :: "char \<Rightarrow> bool" where
  "unreserved c = (let n = of_char c :: nat in
     (65 \<le> n \<and> n \<le> 90) \<or> (97 \<le> n \<and> n \<le> 122) \<or> (48 \<le> n \<and> n \<le> 57) \<or> c \<in> {CHR ''-'', CHR ''_'', CHR ''.'', CHR ''~''})"

definition upper_hex :: "nat \<Rightarrow> char" where
  "upper_hex d = (if d < 10 then char_of (48 + d) else char_of (55 + d))"

definition hex_val :: "char \<Rightarrow> nat option" where
  "hex_val c = (let n = of_char c :: nat in
     if 48 \<le> n \<and> n \<le> 57 then Some (n - 48) else if 97 \<le> n \<and> n \<le> 102 then Some (n - 87)
     else if 65 \<le> n \<and> n \<le> 70 then Some (n - 55) else None)"

definition escape_char :: "char \<Rightarrow> string" where
  "escape_char c =
     (if unreserved c then [c] else if c = CHR '' '' then ''+''
      else (let n = of_char c :: nat in [CHR ''%'', upper_hex (n div 16), upper_hex (n mod 16)]))"

definition query_escape :: "string \<Rightarrow> string" where
  "query_escape s = concat (map escape_char s)"

fun query_unescape :: "string \<Rightarrow> string option" where
  "query_unescape [] = Some []"
| "query_unescape (c # cs) =
     (if c = CHR ''%'' then
        (case cs of
           a # b # r \<Rightarrow>
             (case (hex_val a, hex_val b) of
                (Some x, Some y) \<Rightarrow> map_option (Cons (char_of (16 * x + y))) (query_unescape r)
              | _ \<Rightarrow> None)
         | _ \<Rightarrow> None)
      else map_option (Cons (if c = CHR ''+'' then CHR '' '' else c)) (query_unescape cs))"

text \<open>\<^verbatim>\<open>strings.Cut\<close> at a byte; \<^verbatim>\<open>url.ParseQuery\<close> as the pairs it appends, in order, or no value when any
  pair is malformed (the code that calls it throws the rest away then).\<close>

definition cut :: "char \<Rightarrow> string \<Rightarrow> string \<times> string" where
  "cut c s = (takeWhile (\<lambda>x. x \<noteq> c) s, drop 1 (dropWhile (\<lambda>x. x \<noteq> c) s))"

definition parse_pair :: "string \<Rightarrow> (string \<times> string) option" where
  "parse_pair s =
     (if CHR '';'' \<in> set s then None
      else (case query_unescape (fst (cut CHR ''='' s)) of
          None \<Rightarrow> None
        | Some k \<Rightarrow> map_option (Pair k) (query_unescape (snd (cut CHR ''='' s)))))"

definition parse_query :: "string \<Rightarrow> (string \<times> string) list option" where
  "parse_query q = all_some (map parse_pair (filter (\<lambda>p. p \<noteq> []) (split_on CHR ''&'' q)))"

text \<open>The values of a key, in order: what the \<^verbatim>\<open>url.Values\<close> map holds.\<close>

definition query_values :: "(string \<times> string) list \<Rightarrow> string \<Rightarrow> string list" where
  "query_values kvs k = map snd (filter (\<lambda>kv. fst kv = k) kvs)"

definition join :: "char \<Rightarrow> string list \<Rightarrow> string" where
  "join c ss = (case ss of [] \<Rightarrow> [] | s # r \<Rightarrow> s @ concat (map (\<lambda>t. c # t) r))"

lemma hex_val_upper_hex: "d < 16 \<Longrightarrow> hex_val (upper_hex d) = Some d"
proof -
  assume d: "d < 16"
  have "(of_char (upper_hex d) :: nat) = (if d < 10 then 48 + d else 55 + d)" using d by (simp add: upper_hex_def)
  then show ?thesis using d by (auto simp: hex_val_def Let_def)
qed

lemma upper_hex_chars: "d < 16 \<Longrightarrow> unreserved (upper_hex d)"
proof -
  assume d: "d < 16"
  have "(of_char (upper_hex d) :: nat) = (if d < 10 then 48 + d else 55 + d)" using d by (simp add: upper_hex_def)
  then show ?thesis using d by (auto simp: unreserved_def Let_def)
qed

lemma not_unreserved: "c \<in> {CHR ''%'', CHR ''+'', CHR ''&'', CHR ''='', CHR '';'', CHR 0x0A} \<Longrightarrow> \<not> unreserved c"
  by (auto simp: unreserved_def)

lemma byte_parts: "(of_char c :: nat) div 16 < 16" "(of_char c :: nat) mod 16 < 16"
proof -
  have "(of_char c :: nat) < 256" by simp
  then show "(of_char c :: nat) div 16 < 16" by linarith
qed simp

lemma unescape_escape_char: "query_unescape (escape_char c @ s) = map_option (Cons c) (query_unescape s)"
proof (cases "unreserved c")
  case True
  then have "c \<noteq> CHR ''%''" "c \<noteq> CHR ''+''" using not_unreserved by blast+
  with True show ?thesis by (simp add: escape_char_def)
next
  case False
  then show ?thesis using byte_parts [of c] hex_val_upper_hex [of "of_char c div 16"] hex_val_upper_hex [of "of_char c mod 16"]
    by (simp add: escape_char_def Let_def)
qed

lemma unescape_escape: "query_unescape (query_escape s) = Some s"
  by (induction s) (simp_all add: query_escape_def unescape_escape_char)

lemma escape_chars: "x \<in> set (query_escape s) \<Longrightarrow> unreserved x \<or> x = CHR ''+'' \<or> x = CHR ''%''"
proof -
  assume "x \<in> set (query_escape s)"
  then obtain c where "x \<in> set (escape_char c)" by (auto simp: query_escape_def)
  then show ?thesis using byte_parts [of c] upper_hex_chars
    by (auto simp: escape_char_def Let_def split: if_splits)
qed

lemma escape_no_sep: "x \<in> {CHR ''&'', CHR ''='', CHR '';'', CHR 0x0A} \<Longrightarrow> x \<notin> set (query_escape s)"
proof
  assume x: "x \<in> {CHR ''&'', CHR ''='', CHR '';'', CHR 0x0A}" and "x \<in> set (query_escape s)"
  then have "unreserved x \<or> x = CHR ''+'' \<or> x = CHR ''%''" by (intro escape_chars)
  moreover have "\<not> unreserved x" using x by (intro not_unreserved) blast
  moreover have "x \<noteq> CHR ''+''" "x \<noteq> CHR ''%''" using x by (elim insertE; simp)+
  ultimately show False by blast
qed

lemma cut_append: "c \<notin> set a \<Longrightarrow> cut c (a @ c # b) = (a, b)"
  by (induction a) (auto simp: cut_def)

lemma parse_pair_escape: "parse_pair (query_escape k @ CHR ''='' # query_escape v) = Some (k, v)"
proof -
  have "CHR '';'' \<notin> set (query_escape k @ CHR ''='' # query_escape v)" using escape_no_sep by simp
  moreover have "cut CHR ''='' (query_escape k @ CHR ''='' # query_escape v) = (query_escape k, query_escape v)"
    using escape_no_sep by (intro cut_append) simp
  ultimately show ?thesis by (simp only: parse_pair_def fst_conv snd_conv unescape_escape if_False option.simps)
qed

lemma split_on_join:
  "(\<And>s. s \<in> set ss \<Longrightarrow> c \<notin> set s) \<Longrightarrow> split_on c (join c ss) = (if ss = [] then [[]] else ss)"
proof (induction ss)
  case (Cons a ss)
  show ?case
  proof (cases ss)
    case (Cons b r)
    have "join c (a # ss) = a @ c # join c ss" by (simp add: join_def Cons)
    then show ?thesis using Cons.IH Cons.prems Cons by (simp add: split_on_append_sep split_on_absent)
  qed (use Cons.prems in \<open>simp add: join_def split_on_absent\<close>)
qed (simp add: join_def)

text \<open>Writing out pairs and parsing the text gives the pairs back.\<close>

definition encode_pairs :: "(string \<times> string) list \<Rightarrow> string" where
  "encode_pairs kvs = join CHR ''&'' (map (\<lambda>(k, v). query_escape k @ CHR ''='' # query_escape v) kvs)"

lemma parse_encode_pairs: "parse_query (encode_pairs kvs) = Some kvs"
proof -
  let ?w = "\<lambda>(k, v). query_escape k @ CHR ''='' # query_escape v"
  have amp: "CHR ''&'' \<notin> set (query_escape t)" for t by (rule escape_no_sep) blast
  have "CHR ''&'' \<notin> set s" if "s \<in> set (map ?w kvs)" for s
  proof -
    note s = that
    obtain k v where "s = query_escape k @ CHR ''='' # query_escape v" using s by auto
    then show ?thesis by (simp add: amp)
  qed
  then have sp: "split_on CHR ''&'' (encode_pairs kvs) = (if kvs = [] then [[]] else map ?w kvs)"
    unfolding encode_pairs_def by (subst split_on_join) simp_all
  have "filter (\<lambda>p. p \<noteq> []) (map ?w kvs) = map ?w kvs" by (intro filter_True) auto
  moreover have "all_some (map parse_pair (map ?w kvs)) = Some kvs"
    by (induction kvs) (auto simp: parse_pair_escape)
  ultimately show ?thesis unfolding parse_query_def sp by (cases "kvs = []") simp_all
qed

end
