(* ===== verification/Signature.thy ===== *)
theory Signature
  imports Encodings
begin

text \<open>
  The request signature of agents (\<^verbatim>\<open>api/signature.go\<close>): the header, the OpenSSH form of public keys, the
  canonical request that is signed, and the checks of \<^verbatim>\<open>VerifyEd25519Signature\<close>.

  SHA-256 and the Ed25519 operations are arguments (\<open>sha256\<close>, \<open>ed_verify\<close>, \<open>ed_sign\<close>): what is proved
  holds for every such function. Times are Unix seconds; \<^verbatim>\<open>int64\<close> arithmetic on them wraps.
\<close>

section \<open>The header\<close>

record parsed_signature =
  AgentID :: int
  Algorithm :: string
  Timestamp :: int
  SigBytes :: string

text \<open>\<^verbatim>\<open>strings.Trim(val, "\"")\<close>.\<close>

definition trim_quotes :: "string \<Rightarrow> string" where
  "trim_quotes s = rev (dropWhile (\<lambda>c. c = CHR 0x22) (rev (dropWhile (\<lambda>c. c = CHR 0x22) s)))"

text \<open>The loop over the comma-separated parts; a later field of the same name wins.\<close>

fun header_fields :: "string list \<Rightarrow> string gomap \<Rightarrow> string gomap result" where
  "header_fields [] fs = Inr fs"
| "header_fields (p # ps) fs =
     (let part = trim_space p
      in if CHR ''='' \<notin> set part then Inl (OtherErr (''malformed field: '' @ quoted part))
         else (let (k, v) = cut CHR ''='' part
               in header_fields ps (AList.update (trim_space k) (trim_quotes (trim_space v)) fs)))"

text \<open>A required field: absent and empty are the same error.\<close>

definition required_field :: "string gomap \<Rightarrow> string \<Rightarrow> string option" where
  "required_field fs k = (case map_of fs k of None \<Rightarrow> None | Some v \<Rightarrow> if v = [] then None else Some v)"

definition build_parsed :: "string gomap \<Rightarrow> parsed_signature result" where
  "build_parsed fs =
     (case required_field fs ''agent_id'' of
        None \<Rightarrow> Inl (OtherErr ''missing agent_id'')
      | Some a \<Rightarrow> (case parse_int a of
          None \<Rightarrow> Inl (OtherErr (''invalid agent_id: '' @ quoted a))
        | Some aid \<Rightarrow>
           if aid \<le> 0 then Inl (OtherErr (''invalid agent_id: '' @ quoted a))
           else (case required_field fs ''algorithm'' of
               None \<Rightarrow> Inl (OtherErr ''missing algorithm'')
             | Some alg \<Rightarrow> (case required_field fs ''timestamp'' of
                 None \<Rightarrow> Inl (OtherErr ''missing timestamp'')
               | Some t \<Rightarrow> (case parse_int t of
                   None \<Rightarrow> Inl (OtherErr (''invalid timestamp: '' @ quoted t))
                 | Some ts \<Rightarrow> (case required_field fs ''signature'' of
                     None \<Rightarrow> Inl (OtherErr ''missing signature'')
                   | Some s \<Rightarrow> (case url_b64_decode s of
                       None \<Rightarrow> Inl (OtherErr ''invalid signature encoding'')
                     | Some sb \<Rightarrow> Inr \<lparr>AgentID = aid, Algorithm = alg, Timestamp = ts, SigBytes = sb\<rparr>)))))))"

definition parse_signature_header :: "string \<Rightarrow> parsed_signature result" where
  "parse_signature_header header =
     (case header_fields (split_on CHR '','' header) [] of
        Inl e \<Rightarrow> Inl e
      | Inr fs \<Rightarrow> build_parsed fs)"

section \<open>Public keys\<close>

text \<open>\<^verbatim>\<open>strings.Fields\<close>: the maximal runs without white space.\<close>

function fields_from :: "string \<Rightarrow> string \<Rightarrow> string list" where
  "fields_from cur s =
     (case s of
        [] \<Rightarrow> (if cur = [] then [] else [cur])
      | c # cs \<Rightarrow>
          (let n = leading space_encodings s
           in if n = 0 then fields_from (cur @ [c]) cs
              else (if cur = [] then [] else [cur]) @ fields_from [] (drop n s)))"
  by pat_completeness auto
termination
  by (relation "measure (\<lambda>(cur, s). length s)") auto

declare fields_from.simps [simp del]

definition be32 :: "string \<Rightarrow> nat" where
  "be32 bs = foldl (\<lambda>a b. 256 * a + of_char b) 0 (take 4 bs)"

definition be32_bytes :: "nat \<Rightarrow> string" where
  "be32_bytes n = [char_of (n div 16777216), char_of (n div 65536), char_of (n div 256), char_of n]"

text \<open>\<^verbatim>\<open>ParseEd25519PublicKey\<close>. The four lengths are big-endian; the bounds are those of the code.\<close>

definition parse_ed25519_public_key :: "string \<Rightarrow> string result" where
  "parse_ed25519_public_key key_str =
     (let parts = fields_from [] key_str
      in if length parts < 2 then Inl (OtherErr ''invalid OpenSSH key format: expected at least 2 fields'')
         else if parts ! 0 \<noteq> ''ssh-ed25519'' then Inl (OtherErr (''unsupported key type: '' @ quoted (parts ! 0)))
         else (case std_b64_decode (parts ! 1) of
             None \<Rightarrow> Inl (OtherErr ''invalid base64 in key'')
           | Some d \<Rightarrow>
              if length d < 51 then Inl (OtherErr ''decoded key data too short'')
              else if be32 d \<noteq> 11 \<or> take 11 (drop 4 d) \<noteq> ''ssh-ed25519''
              then Inl (OtherErr ''key type mismatch in wire format'')
              else if length d < 15 + 4 then Inl (OtherErr ''truncated key data'')
              else if be32 (drop 15 d) \<noteq> 32 \<or> length d < 19 + be32 (drop 15 d)
              then Inl (OtherErr ''unexpected Ed25519 key length'')
              else Inr (take 32 (drop 19 d))))"

definition format_ed25519_openssh :: "string \<Rightarrow> string" where
  "format_ed25519_openssh pub =
     ''ssh-ed25519'' @ '' '' @ std_b64_encode (be32_bytes 11 @ ''ssh-ed25519'' @ be32_bytes (length pub) @ pub)"

section \<open>The canonical request\<close>

definition canonicalize_query :: "string \<Rightarrow> string" where
  "canonicalize_query raw =
     (if raw = [] then []
      else (case parse_query raw of
          None \<Rightarrow> raw
        | Some kvs \<Rightarrow>
            encode_pairs (concat (map (\<lambda>k. map (Pair k) (query_values kvs k)) (sort (remdups (map fst kvs)))))))"

definition build_canonical_request :: "string \<Rightarrow> string \<Rightarrow> string \<Rightarrow> int \<Rightarrow> string \<Rightarrow> string" where
  "build_canonical_request meth path raw_query timestamp body_hash =
     to_upper meth @ [CHR 0x0A] @ path @ [CHR 0x0A] @ canonicalize_query raw_query @ [CHR 0x0A] @
     int_str timestamp @ [CHR 0x0A] @ body_hash"

definition empty_body_hash :: string where
  "empty_body_hash = ''e3b0c44298fc1c149afbf4c8996fb92427ae41e4649b934ca495991b7852b855''"

definition hash_body :: "(string \<Rightarrow> string) \<Rightarrow> string \<Rightarrow> string" where
  "hash_body sha256 body = (if body = [] then empty_body_hash else hex_encode (sha256 body))"

section \<open>Verification\<close>

text \<open>The parts of \<^verbatim>\<open>*http.Request\<close> the signature covers, and the signature header (empty when absent).\<close>

record request =
  Method :: string
  Path :: string
  RawQuery :: string
  SigHeader :: string

text \<open>An \<^verbatim>\<open>int64\<close> after wrapping around.\<close>

definition wrap64 :: "int \<Rightarrow> int" where
  "wrap64 i = (i + 2 ^ 63) mod 2 ^ 64 - 2 ^ 63"

definition timestamp_window :: int where
  "timestamp_window = 300"

definition timestamp_ok :: "int \<Rightarrow> int \<Rightarrow> bool" where
  "timestamp_ok now ts =
     (let d = wrap64 (now - ts); diff = (if d < 0 then wrap64 (- d) else d) in \<not> timestamp_window < diff)"

datatype verify_error = UnsupportedAlgorithm string | TimestampExpired | VerificationFailed

definition verify_ed25519_signature ::
  "(string \<Rightarrow> string) \<Rightarrow> (string \<Rightarrow> string \<Rightarrow> string \<Rightarrow> bool) \<Rightarrow> int \<Rightarrow> string \<Rightarrow> parsed_signature \<Rightarrow> request \<Rightarrow> string \<Rightarrow> verify_error option" where
  "verify_ed25519_signature sha256 ed_verify now pub sig r body =
     (if Algorithm sig \<noteq> ''Ed25519'' then Some (UnsupportedAlgorithm (Algorithm sig))
      else if \<not> timestamp_ok now (Timestamp sig) then Some TimestampExpired
      else if \<not> ed_verify pub (build_canonical_request (Method r) (Path r) (RawQuery r) (Timestamp sig) (hash_body sha256 body)) (SigBytes sig)
      then Some VerificationFailed
      else None)"

datatype sig_failure = MissingHeader | BadHeader go_error | BadKey go_error | BadSignature verify_error

text \<open>\<^verbatim>\<open>VerifyAgentSignature\<close> and \<^verbatim>\<open>VerifyRegistrationSignature\<close>: the same steps on a stored key and on the
  key of the request body.\<close>

definition verify_agent_signature ::
  "(string \<Rightarrow> string) \<Rightarrow> (string \<Rightarrow> string \<Rightarrow> string \<Rightarrow> bool) \<Rightarrow> int \<Rightarrow> string \<Rightarrow> request \<Rightarrow> string \<Rightarrow> sig_failure + parsed_signature" where
  "verify_agent_signature sha256 ed_verify now stored_key r body =
     (if SigHeader r = [] then Inl MissingHeader
      else (case parse_signature_header (SigHeader r) of
          Inl e \<Rightarrow> Inl (BadHeader e)
        | Inr sig \<Rightarrow> (case parse_ed25519_public_key stored_key of
            Inl e \<Rightarrow> Inl (BadKey e)
          | Inr pub \<Rightarrow> (case verify_ed25519_signature sha256 ed_verify now pub sig r body of
              Some e \<Rightarrow> Inl (BadSignature e)
            | None \<Rightarrow> Inr sig))))"

definition verify_registration_signature ::
  "(string \<Rightarrow> string) \<Rightarrow> (string \<Rightarrow> string \<Rightarrow> string \<Rightarrow> bool) \<Rightarrow> int \<Rightarrow> string \<Rightarrow> request \<Rightarrow> string \<Rightarrow> sig_failure + parsed_signature" where
  "verify_registration_signature sha256 ed_verify now pub_key_str r body =
     (if SigHeader r = [] then Inl MissingHeader
      else (case parse_signature_header (SigHeader r) of
          Inl e \<Rightarrow> Inl (BadHeader e)
        | Inr sig \<Rightarrow> (case parse_ed25519_public_key pub_key_str of
            Inl e \<Rightarrow> Inl (BadKey e)
          | Inr pub \<Rightarrow> (case verify_ed25519_signature sha256 ed_verify now pub sig r body of
              Some e \<Rightarrow> Inl (BadSignature e)
            | None \<Rightarrow> Inr sig))))"

text \<open>\<^verbatim>\<open>SignRequestAt\<close>: the client's side.\<close>

definition max_int64 :: int where
  "max_int64 = 9223372036854775807"

definition quoted_field :: "string \<Rightarrow> string \<Rightarrow> string" where
  "quoted_field k v = k @ ''='' @ CHR 0x22 # v @ [CHR 0x22]"

definition sign_request_at ::
  "(string \<Rightarrow> string) \<Rightarrow> (string \<Rightarrow> string \<Rightarrow> string) \<Rightarrow> string \<Rightarrow> int \<Rightarrow> request \<Rightarrow> string \<Rightarrow> int \<Rightarrow> request" where
  "sign_request_at sha256 ed_sign priv agent_id r body ts =
     (let canonical = build_canonical_request (Method r) (Path r) (RawQuery r) ts (hash_body sha256 body);
          sig = ed_sign priv canonical;
          header_agent = (if agent_id \<le> 0 then max_int64 else agent_id)
      in r\<lparr>SigHeader := quoted_field ''agent_id'' (int_str header_agent) @ '', '' @ quoted_field ''algorithm'' ''Ed25519'' @ '', '' @
             quoted_field ''timestamp'' (int_str ts) @ '', '' @ quoted_field ''signature'' (url_b64_encode sig)\<rparr>)"

section \<open>Printable text\<close>

text \<open>The bytes from the exclamation mark to the tilde: no white space starts or ends at one.\<close>

definition solid :: "char \<Rightarrow> bool" where
  "solid c \<longleftrightarrow> 33 \<le> (of_char c :: nat) \<and> of_char c \<le> (126 :: nat)"

lemma space_bytes:
  "list_all (\<lambda>p. p \<noteq> [] \<and> \<not> solid (hd p)) space_encodings"
  "list_all (\<lambda>p. p \<noteq> [] \<and> \<not> solid (hd p)) (map rev space_encodings)"
  by (simp_all add: space_encodings_def solid_def)

lemma leading_solid:
  assumes "list_all (\<lambda>p. p \<noteq> [] \<and> \<not> solid (hd p)) ps" "solid c"
  shows "leading ps (c # s) = 0"
proof -
  have "\<not> has_prefix (c # s) p" if "p \<in> set ps" for p
  proof
    assume "has_prefix (c # s) p"
    then have "take (length p) (c # s) = p" by (simp add: has_prefix_def)
    moreover have "p \<noteq> []" "\<not> solid (hd p)" using that assms(1) by (auto simp: list_all_iff)
    ultimately show False using assms(2) by (cases p) auto
  qed
  then have "find (\<lambda>p. has_prefix (c # s) p) ps = None" by (simp add: find_None_iff)
  then show ?thesis by (simp add: leading_def)
qed

lemma strip_left_solid:
  "list_all (\<lambda>p. p \<noteq> [] \<and> \<not> solid (hd p)) ps \<Longrightarrow> solid c \<Longrightarrow> strip_left ps (c # s) = c # s"
  by (subst strip_left.simps) (simp add: leading_solid)

lemma leading_space: "leading space_encodings (CHR '' '' # s) = 1"
  by (simp add: leading_def space_encodings_def has_prefix_def)

text \<open>Trimming leaves text alone that starts and ends solid, and takes one space in front away.\<close>

lemma trim_space_solid:
  assumes "solid c" "solid d" "s = c # t" "s = u @ [d]"
  shows "trim_space s = s" "trim_space (CHR '' '' # s) = s"
proof -
  have l: "strip_left space_encodings s = s" using strip_left_solid [OF space_bytes(1) assms(1)] assms(3) by simp
  have r: "strip_left (map rev space_encodings) (rev s) = rev s"
    using strip_left_solid [OF space_bytes(2) assms(2)] assms(4) by simp
  show "trim_space s = s" by (simp add: trim_space_def trim_left_space_def l r)
  have "strip_left space_encodings (CHR '' '' # s) = s"
    by (subst strip_left.simps) (simp add: leading_space l)
  then show "trim_space (CHR '' '' # s) = s" by (simp add: trim_space_def trim_left_space_def r)
qed

lemma b64_char_solid:
  assumes "v < 64" "c62 \<in> {CHR ''-'', CHR ''+''}" "c63 \<in> {CHR ''_'', CHR ''/''}"
  shows "solid (b64_char c62 c63 v)"
proof -
  consider "v < 26" | "26 \<le> v \<and> v < 52" | "52 \<le> v \<and> v < 62" | "v = 62" | "v = 63" using assms(1) by linarith
  then show ?thesis
  proof cases
    case 1
    then have "(of_char (b64_char c62 c63 v) :: nat) = 65 + v" by (simp add: b64_char_def)
    with 1 show ?thesis by (simp add: solid_def)
  next
    case 2
    then have "(of_char (b64_char c62 c63 v) :: nat) = 71 + v" by (simp add: b64_char_def)
    with 2 show ?thesis by (simp add: solid_def)
  next
    case 3
    then have "(v - 4) mod 256 = v - 4" by (intro mod_less) linarith
    with 3 have "(of_char (b64_char c62 c63 v) :: nat) = v - 4" by (simp add: b64_char_def)
    with 3 show ?thesis unfolding solid_def by linarith
  qed (use assms(2,3) in \<open>auto simp: b64_char_def solid_def\<close>)
qed

lemma b64_text_solid:
  assumes "c \<in> set (map (b64_char c62 c63) (sextets (map of_char bs)))"
    "c62 \<in> {CHR ''-'', CHR ''+''}" "c63 \<in> {CHR ''_'', CHR ''/''}"
  shows "solid c"
proof -
  obtain v where v: "v \<in> set (sextets (map of_char bs))" "c = b64_char c62 c63 v"
    using assms(1) by (metis imageE set_map)
  from b64_char_solid [OF sextets_less [OF bytes_of_string v(1)] assms(2,3)] v(2) show ?thesis by simp
qed

section \<open>Public keys\<close>

lemma fields_from_solid: "\<forall>c \<in> set w. solid c \<Longrightarrow> fields_from cur (w @ s) = fields_from (cur @ w) s"
proof (induction w arbitrary: cur)
  case (Cons c w)
  then have "leading space_encodings (c # w @ s) = 0" using leading_solid [OF space_bytes(1)] by simp
  then have "fields_from cur (c # w @ s) = fields_from (cur @ [c]) (w @ s)"
    by (subst fields_from.simps) simp
  with Cons show ?case by simp
qed simp

lemma std_b64_solid: "c \<in> set (std_b64_encode bs) \<Longrightarrow> solid c"
proof -
  assume "c \<in> set (std_b64_encode bs)"
  then consider "c \<in> set (map (b64_char CHR ''+'' CHR ''/'') (sextets (map of_char bs)))" | "c = CHR ''=''"
    by (auto simp: std_b64_encode_def Let_def)
  then show ?thesis
  proof cases
    case 1
    then show ?thesis by (rule b64_text_solid [OF _ alphabets(3,4)])
  qed (simp add: solid_def)
qed

lemma sextets_nonempty: "sextets (a # bs) \<noteq> []"
  by (cases bs; cases "tl bs") auto

lemma key_fields: "fields_from [] (''ssh-ed25519'' @ '' '' @ std_b64_encode (b # bs)) = [''ssh-ed25519'', std_b64_encode (b # bs)]"
proof -
  have "fields_from [] (''ssh-ed25519'' @ '' '' @ std_b64_encode (b # bs)) =
      fields_from ''ssh-ed25519'' ('' '' @ std_b64_encode (b # bs))"
    by (subst fields_from_solid) (simp_all add: solid_def)
  also have "\<dots> = ''ssh-ed25519'' # fields_from [] (std_b64_encode (b # bs))"
    by (subst fields_from.simps) (simp add: leading_space)
  also have "fields_from [] (std_b64_encode (b # bs)) = fields_from [] (std_b64_encode (b # bs) @ [])" by simp
  also have "\<dots> = fields_from (std_b64_encode (b # bs)) []"
    by (subst fields_from_solid) (auto intro: std_b64_solid)
  also have "\<dots> = [std_b64_encode (b # bs)]"
    using sextets_nonempty by (subst fields_from.simps) (simp add: std_b64_encode_def Let_def)
  finally show ?thesis .
qed

lemma public_key_roundtrip:
  assumes "length pub = 32"
  shows "parse_ed25519_public_key (format_ed25519_openssh pub) = Inr pub"
proof -
  define w where "w = be32_bytes 11 @ ''ssh-ed25519'' @ be32_bytes (length pub) @ pub"
  obtain b bs where w: "w = b # bs" by (simp add: w_def be32_bytes_def)
  have dec: "std_b64_decode (std_b64_encode w) = Some w" by (rule std_b64_roundtrip)
  have f: "fields_from [] (format_ed25519_openssh pub) = [''ssh-ed25519'', std_b64_encode w]"
    unfolding format_ed25519_openssh_def w_def [symmetric] w by (rule key_fields)
  have len: "length w = 51" by (simp add: w_def be32_bytes_def assms)
  have ty: "be32 w = 11" "take 11 (drop 4 w) = ''ssh-ed25519''"
    by (simp_all add: w_def be32_def be32_bytes_def)
  have kl: "be32 (drop 15 w) = 32" "drop 19 w = pub"
    by (simp_all add: w_def be32_def be32_bytes_def assms)
  show ?thesis unfolding parse_ed25519_public_key_def f Let_def
    by (simp add: dec len ty kl assms)
qed

section \<open>The header round trip\<close>

lemma trim_quotes_wrapped: "CHR 0x22 \<notin> set v \<Longrightarrow> trim_quotes (CHR 0x22 # v @ [CHR 0x22]) = v"
proof -
  assume q: "CHR 0x22 \<notin> set v"
  have d: "CHR 0x22 \<notin> set w \<Longrightarrow> dropWhile (\<lambda>c. c = CHR 0x22) (w @ r) = (if w = [] then dropWhile (\<lambda>c. c = CHR 0x22) r else w @ r)" for w r
    by (cases w) auto
  show ?thesis
  proof (cases "v = []")
    case False
    have "dropWhile (\<lambda>c. c = CHR 0x22) (CHR 0x22 # v @ [CHR 0x22]) = v @ [CHR 0x22]" using d [OF q] False by simp
    moreover have "dropWhile (\<lambda>c. c = CHR 0x22) (rev v @ []) = rev v @ []" using d [of "rev v" "[]"] q by simp
    ultimately show ?thesis by (simp add: trim_quotes_def)
  qed (simp add: trim_quotes_def)
qed

lemma header_field_step:
  assumes "sp = [] \<or> sp = '' ''" "k = c # k'" "k = k'' @ [d]" "solid c" "solid d"
    "CHR ''='' \<notin> set k" "CHR 0x22 \<notin> set v"
  shows "header_fields ((sp @ quoted_field k v) # ps) fs = header_fields ps (AList.update k v fs)"
proof -
  have q: "solid CHR 0x22" by (simp add: solid_def)
  have "trim_space (sp @ quoted_field k v) = quoted_field k v"
    using assms(1) trim_space_solid [OF assms(4) q, of "quoted_field k v" "k' @ ''='' @ CHR 0x22 # v @ [CHR 0x22]" "k @ ''='' @ CHR 0x22 # v"]
    by (auto simp: quoted_field_def assms(2))
  moreover have "cut CHR ''='' (quoted_field k v) = (k, CHR 0x22 # v @ [CHR 0x22])"
    unfolding quoted_field_def using cut_append [OF assms(6)] by simp
  moreover have "trim_space k = k" using trim_space_solid(1) [OF assms(4,5,2,3)] .
  moreover have "trim_space (CHR 0x22 # v @ [CHR 0x22]) = CHR 0x22 # v @ [CHR 0x22]"
    by (rule trim_space_solid(1) [OF q q, of _ "v @ [CHR 0x22]" "CHR 0x22 # v"]) simp_all
  ultimately show ?thesis by (simp add: trim_quotes_wrapped assms(7) quoted_field_def)
qed

lemma int_str_clean: "c \<in> set (int_str i) \<Longrightarrow> c \<notin> {CHR 0x0A, CHR '','', CHR 0x22}"
proof -
  assume "c \<in> set (int_str i)"
  then have "c = CHR ''-'' \<or> (48 \<le> (of_char c :: nat) \<and> of_char c \<le> (57 :: nat))" by (rule int_str_chars)
  then show ?thesis by auto
qed

lemma int_str_nonempty: "int_str i \<noteq> []"
  by (simp add: int_str_def)

lemma url_b64_nonempty: "sb \<noteq> [] \<Longrightarrow> url_b64_encode sb \<noteq> []"
  by (cases sb) (simp_all add: url_b64_encode_def sextets_nonempty)

lemma split_header:
  assumes "CHR '','' \<notin> set a" "CHR '','' \<notin> set t" "CHR '','' \<notin> set s"
  shows "split_on CHR '','' (quoted_field ''agent_id'' a @ '', '' @ quoted_field ''algorithm'' ''Ed25519'' @ '', '' @
      quoted_field ''timestamp'' t @ '', '' @ quoted_field ''signature'' s) =
    [[] @ quoted_field ''agent_id'' a, '' '' @ quoted_field ''algorithm'' ''Ed25519'', '' '' @ quoted_field ''timestamp'' t,
     '' '' @ quoted_field ''signature'' s]"
proof -
  have c: "CHR '','' \<notin> set (quoted_field ''agent_id'' a)" "CHR '','' \<notin> set ('' '' @ quoted_field ''algorithm'' ''Ed25519'')"
    "CHR '','' \<notin> set ('' '' @ quoted_field ''timestamp'' t)" "CHR '','' \<notin> set ('' '' @ quoted_field ''signature'' s)"
    using assms by (simp_all add: quoted_field_def)
  have sep: "p @ '', '' @ q = p @ CHR '','' # ('' '' @ q)" for p q by simp
  show ?thesis unfolding sep append_assoc [symmetric]
    by (simp only: append_assoc split_on_append_sep split_on_absent [OF c(1)])
      (use c in \<open>simp add: split_on_append_sep split_on_absent\<close>)
qed

lemma agent_id_step: "CHR 0x22 \<notin> set v \<Longrightarrow>
    header_fields (([] @ quoted_field ''agent_id'' v) # ps) fs = header_fields ps (AList.update ''agent_id'' v fs)"
  by (rule header_field_step [where c = "CHR ''a''" and k' = "''gent_id''" and k'' = "''agent_i''" and d = "CHR ''d''"])
    (simp_all add: solid_def)

lemma algorithm_step:
    "header_fields (('' '' @ quoted_field ''algorithm'' ''Ed25519'') # ps) fs = header_fields ps (AList.update ''algorithm'' ''Ed25519'' fs)"
  by (rule header_field_step [where c = "CHR ''a''" and k' = "''lgorithm''" and k'' = "''algorith''" and d = "CHR ''m''"])
    (simp_all add: solid_def)

lemma timestamp_step: "CHR 0x22 \<notin> set v \<Longrightarrow>
    header_fields (('' '' @ quoted_field ''timestamp'' v) # ps) fs = header_fields ps (AList.update ''timestamp'' v fs)"
  by (rule header_field_step [where c = "CHR ''t''" and k' = "''imestamp''" and k'' = "''timestam''" and d = "CHR ''p''"])
    (simp_all add: solid_def)

lemma signature_step: "CHR 0x22 \<notin> set v \<Longrightarrow>
    header_fields (('' '' @ quoted_field ''signature'' v) # ps) fs = header_fields ps (AList.update ''signature'' v fs)"
  by (rule header_field_step [where c = "CHR ''s''" and k' = "''ignature''" and k'' = "''signatur''" and d = "CHR ''e''"])
    (simp_all add: solid_def)

lemma header_roundtrip:
  assumes "aid > 0" "int64_range aid" "int64_range ts" "sb \<noteq> []"
  shows "parse_signature_header (quoted_field ''agent_id'' (int_str aid) @ '', '' @ quoted_field ''algorithm'' ''Ed25519'' @ '', '' @
      quoted_field ''timestamp'' (int_str ts) @ '', '' @ quoted_field ''signature'' (url_b64_encode sb)) =
    Inr \<lparr>AgentID = aid, Algorithm = ''Ed25519'', Timestamp = ts, SigBytes = sb\<rparr>"
proof -
  let ?fs = "[(''agent_id'', int_str aid), (''algorithm'', ''Ed25519''), (''timestamp'', int_str ts), (''signature'', url_b64_encode sb)]"
  have ci: "CHR '','' \<notin> set (int_str i)" "CHR 0x22 \<notin> set (int_str i)" for i using int_str_clean by blast+
  have cs: "CHR '','' \<notin> set (url_b64_encode sb)" "CHR 0x22 \<notin> set (url_b64_encode sb)" using url_b64_chars by blast+
  have "header_fields [[] @ quoted_field ''agent_id'' (int_str aid), '' '' @ quoted_field ''algorithm'' ''Ed25519'',
      '' '' @ quoted_field ''timestamp'' (int_str ts), '' '' @ quoted_field ''signature'' (url_b64_encode sb)] [] = Inr ?fs"
    by (simp only: agent_id_step [OF ci(2)] algorithm_step timestamp_step [OF ci(2)] signature_step [OF cs(2)]) simp
  then show ?thesis
    unfolding parse_signature_header_def split_header [OF ci(1) ci(1) cs(1)]
    using assms by (simp add: build_parsed_def required_field_def int_str_nonempty url_b64_nonempty parse_int_str url_b64_roundtrip)
qed

section \<open>Timestamps\<close>

lemma wrap64_small: "- (2 ^ 63) \<le> i \<Longrightarrow> i < 2 ^ 63 \<Longrightarrow> wrap64 i = i"
  unfolding wrap64_def by (subst mod_pos_pos_trivial) simp_all

lemma timestamp_ok_iff:
  assumes "0 \<le> now" "now < 2 ^ 62" "int64_range ts"
  shows "timestamp_ok now ts \<longleftrightarrow> \<bar>now - ts\<bar> \<le> 300 \<or> now - ts = 2 ^ 63"
proof -
  let ?d = "now - ts"
  have lo: "- (2 ^ 63) \<le> ?d" and hi: "?d < 2 ^ 63 + 2 ^ 62" using assms by (simp_all add: int64_range_def)
  consider "?d < 2 ^ 63" "?d \<noteq> - (2 ^ 63)" | "?d = - (2 ^ 63)" | "?d = 2 ^ 63" | "2 ^ 63 < ?d" by linarith
  then show ?thesis
  proof cases
    case 1
    then have "wrap64 ?d = ?d" "?d < 0 \<Longrightarrow> wrap64 (- ?d) = - ?d" using lo by (simp_all add: wrap64_small)
    then show ?thesis using 1 by (auto simp: timestamp_ok_def Let_def timestamp_window_def)
  next
    case 2
    then have False using assms by (simp add: int64_range_def)
    then show ?thesis ..
  next
    case 3
    then have "wrap64 ?d = - (2 ^ 63)" "wrap64 (2 ^ 63) = - (2 ^ 63)" by (simp_all add: wrap64_def)
    then show ?thesis using 3 by (simp add: timestamp_ok_def Let_def timestamp_window_def)
  next
    case 4
    have "(?d + 2 ^ 63) mod 2 ^ 64 = ?d - 2 ^ 63"
    proof -
      have "(?d + 2 ^ 63) mod 2 ^ 64 = (?d - 2 ^ 63 + 2 ^ 64) mod 2 ^ 64" by (simp add: algebra_simps)
      also have "\<dots> = (?d - 2 ^ 63) mod 2 ^ 64" by (rule mod_add_self2)
      also have "\<dots> = ?d - 2 ^ 63" using 4 hi by (intro mod_pos_pos_trivial) simp_all
      finally show ?thesis .
    qed
    then have w: "wrap64 ?d = ?d - 2 ^ 64" by (simp add: wrap64_def)
    have "wrap64 (- (?d - 2 ^ 64)) = - (?d - 2 ^ 64)" using 4 hi by (intro wrap64_small) simp_all
    then show ?thesis using 4 hi w by (simp add: timestamp_ok_def Let_def timestamp_window_def)
  qed
qed

section \<open>The canonical request\<close>

lemma query_values_concat:
  "distinct ks \<Longrightarrow> query_values (concat (map (\<lambda>k. map (Pair k) (f k)) ks)) k = (if k \<in> set ks then f k else [])"
proof (induction ks)
  case (Cons a ks)
  have "query_values (map (Pair a) (f a) @ r) k = (if k = a then f a else []) @ query_values r k" for r
    by (induction "f a") (auto simp: query_values_def filter_map comp_def)
  with Cons show ?case by auto
qed (simp add: query_values_def)

lemma query_values_absent: "k \<notin> set (map fst kvs) \<Longrightarrow> query_values kvs k = []"
  by (auto simp: query_values_def filter_empty_conv)

lemma canonical_parse:
  assumes "parse_query q = Some kvs"
  shows "\<exists>kvs'. parse_query (canonicalize_query q) = Some kvs' \<and> query_values kvs' = query_values kvs"
proof (cases "q = []")
  case False
  let ?c = "concat (map (\<lambda>k. map (Pair k) (query_values kvs k)) (sort (remdups (map fst kvs))))"
  have "query_values ?c k = query_values kvs k" for k
    by (subst query_values_concat) (auto simp: query_values_absent)
  then have "query_values ?c = query_values kvs" by (rule ext)
  moreover have "canonicalize_query q = encode_pairs ?c" using False assms by (simp add: canonicalize_query_def)
  ultimately show ?thesis by (simp add: parse_encode_pairs)
qed (use assms in \<open>simp add: canonicalize_query_def\<close>)

lemma canonical_query_nl: "CHR 0x0A \<notin> set q \<Longrightarrow> CHR 0x0A \<notin> set (canonicalize_query q)"
proof -
  assume q: "CHR 0x0A \<notin> set q"
  have e: "CHR 0x0A \<notin> set (query_escape s)" for s by (rule escape_no_sep) blast
  have j: "CHR 0x0A \<notin> set (encode_pairs kvs)" for kvs
    by (cases kvs) (auto simp: encode_pairs_def join_def e split: prod.splits)
  show ?thesis using q j by (auto simp: canonicalize_query_def split: option.splits)
qed

lemma cut_first:
  fixes c :: char
  assumes "c \<notin> set a" "c \<notin> set a'" "a @ c # x = a' @ c # x'"
  shows "a = a'" "x = x'"
proof -
  have "cut c (a @ c # x) = (a', x')" unfolding assms(3) by (rule cut_append [OF assms(2)])
  then have "(a, x) = (a', x')" by (rule trans [OF cut_append [OF assms(1), symmetric]])
  then show "a = a'" "x = x'" by simp_all
qed

lemma cut_last:
  fixes c :: char
  assumes "c \<notin> set b" "c \<notin> set b'" "x @ c # b = x' @ c # b'"
  shows "x = x'" "b = b'"
proof -
  have e: "rev b @ c # rev x = rev b' @ c # rev x'" using arg_cong [OF assms(3), of rev] by simp
  have "c \<notin> set (rev b)" "c \<notin> set (rev b')" using assms(1,2) by simp_all
  from cut_first [OF this e] show "x = x'" "b = b'" by simp_all
qed

lemma upper_char_nl: "upper_char c = CHR 0x0A \<Longrightarrow> c = CHR 0x0A"
proof (cases "97 \<le> (of_char c :: nat) \<and> of_char c \<le> (122 :: nat)")
  case True
  then have "(of_char c - 32 :: nat) mod 256 = of_char c - 32" by (intro mod_less) linarith
  then have "(of_char (upper_char c) :: nat) = of_char c - 32"
    using True by (simp add: upper_char_def Let_def)
  moreover assume "upper_char c = CHR 0x0A"
  ultimately have "(of_char c :: nat) - 32 = 10" by simp
  with True have False by linarith
  then show ?thesis ..
qed (auto simp: upper_char_def Let_def)

lemma to_upper_nl: "CHR 0x0A \<notin> set m \<Longrightarrow> CHR 0x0A \<notin> set (to_upper m)"
proof (induction m rule: length_induct)
  case (1 m)
  show ?case
  proof (cases m)
    case (Cons c cs)
    then have u: "upper_char c \<noteq> CHR 0x0A" using "1.prems" upper_char_nl by (metis list.set_intros(1))
    show ?thesis
    proof (cases cs)
      case Nil
      then show ?thesis using u Cons by simp
    next
      case (Cons d ds)
      have m: "m = c # d # ds" using \<open>m = c # cs\<close> Cons by simp
      have ih: "CHR 0x0A \<notin> set (to_upper ds)" "CHR 0x0A \<notin> set (to_upper (d # ds))"
        using "1.IH" "1.prems" by (simp_all add: m del: to_upper.simps)
      have "set (to_upper m) \<subseteq> {CHR ''I'', CHR ''S''} \<union> set (to_upper ds) \<or> to_upper m = upper_char c # to_upper (d # ds)"
        by (subst (1 2) m, subst (1 2) to_upper.simps(2)) (simp del: to_upper.simps, blast)
      then show ?thesis
      proof
        assume "set (to_upper m) \<subseteq> {CHR ''I'', CHR ''S''} \<union> set (to_upper ds)"
        then show ?thesis using ih(1) by auto
      next
        assume "to_upper m = upper_char c # to_upper (d # ds)"
        then show ?thesis using ih(2) u by (simp del: to_upper.simps)
      qed
    qed
  qed simp
qed

lemma canonical_request_inj:
  assumes "build_canonical_request m p q ts h = build_canonical_request m' p' q' ts' h'"
    and nl: "CHR 0x0A \<notin> set m" "CHR 0x0A \<notin> set m'" "CHR 0x0A \<notin> set q" "CHR 0x0A \<notin> set q'"
      "CHR 0x0A \<notin> set h" "CHR 0x0A \<notin> set h'"
  shows "to_upper m = to_upper m' \<and> p = p' \<and> canonicalize_query q = canonicalize_query q' \<and> ts = ts' \<and> h = h'"
proof -
  let ?n = "CHR 0x0A"
  have i: "?n \<notin> set (int_str j)" for j using int_str_clean by blast
  note cq = canonical_query_nl [OF nl(3)] canonical_query_nl [OF nl(4)]
  have "(to_upper m @ ?n # p @ ?n # canonicalize_query q @ ?n # int_str ts) @ ?n # h =
      (to_upper m' @ ?n # p' @ ?n # canonicalize_query q' @ ?n # int_str ts') @ ?n # h'"
    using assms(1) by (simp add: build_canonical_request_def)
  note 1 = cut_last [OF nl(5,6) this]
  have "(to_upper m @ ?n # p @ ?n # canonicalize_query q) @ ?n # int_str ts = (to_upper m' @ ?n # p' @ ?n # canonicalize_query q') @ ?n # int_str ts'"
    using 1(1) by simp
  note 2 = cut_last [OF i i this]
  have "(to_upper m @ ?n # p) @ ?n # canonicalize_query q = (to_upper m' @ ?n # p') @ ?n # canonicalize_query q'"
    using 2(1) by simp
  note 3 = cut_last [OF cq this]
  show ?thesis
    using cut_first [OF to_upper_nl [OF nl(1)] to_upper_nl [OF nl(2)] 3(1)] 3(2) int_str_inj [OF 2(2)] 1(2) by simp
qed

lemma hash_body_nl: "CHR 0x0A \<notin> set (hash_body sha256 body)"
proof -
  have "CHR 0x0A \<notin> set (hex_encode bs)" for bs
  proof
    assume "CHR 0x0A \<in> set (hex_encode bs)"
    from hex_encode_chars [OF this] show False by simp
  qed
  then show ?thesis by (simp add: hash_body_def empty_body_hash_def)
qed

lemma canonical_query_values:
  assumes "canonicalize_query q = canonicalize_query q'"
  shows "q = q' \<or> (case (parse_query q, parse_query q') of (Some kvs, Some kvs') \<Rightarrow> query_values kvs = query_values kvs' | _ \<Rightarrow> False)"
proof -
  have raw: "parse_query q = None \<Longrightarrow> canonicalize_query q = q" for q by (simp add: canonicalize_query_def)
  show ?thesis
  proof (cases "parse_query q"; cases "parse_query q'")
    fix kvs kvs' assume p: "parse_query q = Some kvs" "parse_query q' = Some kvs'"
    from canonical_parse [OF p(1)] canonical_parse [OF p(2)] assms have "query_values kvs = query_values kvs'" by auto
    with p show ?thesis by simp
  next
    fix kvs assume p: "parse_query q = Some kvs" "parse_query q' = None"
    from canonical_parse [OF p(1)] raw [OF p(2)] assms p(2) show ?thesis by auto
  next
    fix kvs assume p: "parse_query q = None" "parse_query q' = Some kvs"
    from canonical_parse [OF p(2)] raw [OF p(1)] assms p(1) show ?thesis by auto
  next
    assume "parse_query q = None" "parse_query q' = None"
    then show ?thesis using raw assms by auto
  qed
qed

section \<open>Properties\<close>

lemma signed_verifies:
  assumes "length pub = 32"
    and "\<And>m. ed_verify pub m (ed_sign priv m)" "\<And>m. ed_sign priv m \<noteq> []"
    and "0 < agent_id" "int64_range agent_id" "int64_range ts" "0 \<le> now" "now < 2 ^ 62" "\<bar>now - ts\<bar> \<le> 300"
  shows "verify_agent_signature sha256 ed_verify now (format_ed25519_openssh pub)
      (sign_request_at sha256 ed_sign priv agent_id r body ts) body =
    Inr \<lparr>AgentID = agent_id, Algorithm = ''Ed25519'', Timestamp = ts,
      SigBytes = ed_sign priv (build_canonical_request (Method r) (Path r) (RawQuery r) ts (hash_body sha256 body))\<rparr>"
proof -
  let ?s = "sign_request_at sha256 ed_sign priv agent_id r body ts"
  let ?m = "build_canonical_request (Method r) (Path r) (RawQuery r) ts (hash_body sha256 body)"
  have h: "SigHeader ?s = quoted_field ''agent_id'' (int_str agent_id) @ '', '' @ quoted_field ''algorithm'' ''Ed25519'' @ '', '' @
      quoted_field ''timestamp'' (int_str ts) @ '', '' @ quoted_field ''signature'' (url_b64_encode (ed_sign priv ?m))"
    using assms(4) by (simp add: sign_request_at_def Let_def)
  have r: "Method ?s = Method r" "Path ?s = Path r" "RawQuery ?s = RawQuery r"
    by (simp_all add: sign_request_at_def Let_def)
  have ne: "SigHeader ?s \<noteq> []" unfolding h by (simp add: quoted_field_def)
  have p: "parse_signature_header (SigHeader ?s) = Inr \<lparr>AgentID = agent_id, Algorithm = ''Ed25519'', Timestamp = ts, SigBytes = ed_sign priv ?m\<rparr>"
    unfolding h by (rule header_roundtrip [OF assms(4,5,6) assms(3)])
  have t: "timestamp_ok now ts" using timestamp_ok_iff [OF assms(7,8,6)] assms(9) by simp
  show ?thesis
    by (simp add: verify_agent_signature_def ne p public_key_roundtrip [OF assms(1)] verify_ed25519_signature_def r t assms(2))
qed

text \<open>C36: Client and server agree: a request signed by \<^verbatim>\<open>SignRequestAt\<close> with a key pair whose signatures verify is accepted
  by \<^verbatim>\<open>VerifyAgentSignature\<close> under the OpenSSH text of the public key, whatever its method, path, query and
  body, as long as the clocks are at most 300 seconds apart; the parsed signature carries the agent id, the
  time stamp and the signature bytes.\<close>

theorem signed_request_verifies:
  assumes "length pub = 32"
    and "\<And>m. ed_verify pub m (ed_sign priv m)" "\<And>m. ed_sign priv m \<noteq> []"
    and "0 < agent_id" "int64_range agent_id" "int64_range ts" "0 \<le> now" "now < 2 ^ 62" "\<bar>now - ts\<bar> \<le> 300"
  shows "verify_agent_signature sha256 ed_verify now (format_ed25519_openssh pub)
      (sign_request_at sha256 ed_sign priv agent_id r body ts) body =
    Inr \<lparr>AgentID = agent_id, Algorithm = ''Ed25519'', Timestamp = ts,
      SigBytes = ed_sign priv (build_canonical_request (Method r) (Path r) (RawQuery r) ts (hash_body sha256 body))\<rparr>"
  by (rule signed_verifies [of pub ed_verify ed_sign priv]) (rule assms)+

theorem signed_request_verifies_witness:
  "verify_agent_signature (\<lambda>b. b) (\<lambda>pub m s. s = pub @ m) 1700000300 (format_ed25519_openssh (replicate 32 CHR ''k''))
      (sign_request_at (\<lambda>b. b) (\<lambda>priv m. priv @ m) (replicate 32 CHR ''k'') 7
        \<lparr>Method = ''post'', Path = ''/a'', RawQuery = ''b=1&a=2'', SigHeader = []\<rparr> ''{}'' 1700000000) ''{}'' =
    Inr \<lparr>AgentID = 7, Algorithm = ''Ed25519'', Timestamp = 1700000000,
      SigBytes = replicate 32 CHR ''k'' @ build_canonical_request ''post'' ''/a'' ''b=1&a=2'' 1700000000 (hash_body (\<lambda>b. b) ''{}'')\<rparr>"
  using signed_request_verifies [of "replicate 32 CHR ''k''" "\<lambda>pub m s. s = pub @ m" "\<lambda>priv m. priv @ m" "replicate 32 CHR ''k''" 7 1700000000 1700000300
      "\<lambda>b. b" "\<lparr>Method = ''post'', Path = ''/a'', RawQuery = ''b=1&a=2'', SigHeader = []\<rparr>" "''{}''"]
  by (simp add: int64_range_def)



text \<open>The time window, with the wrap-around of \<^verbatim>\<open>int64\<close>: at any clock before the year 146 billion a time stamp passes exactly
  when it is at most 300 seconds away, or exactly 2 to the 63rd seconds in the past, where negating the
  difference overflows and the guard lets it through.\<close>

theorem timestamp_window_exact:
  assumes "0 \<le> now" "now < 2 ^ 62" "int64_range ts" "Algorithm sig = ''Ed25519''" "Timestamp sig = ts"
  shows "verify_ed25519_signature sha256 ed_verify now pub sig r body \<noteq> Some TimestampExpired \<longleftrightarrow>
    \<bar>now - ts\<bar> \<le> 300 \<or> now - ts = 2 ^ 63"
  using timestamp_ok_iff [OF assms(1-3)] by (simp add: verify_ed25519_signature_def assms(4,5))

theorem timestamp_window_exact_witness:
  "verify_ed25519_signature (\<lambda>b. b) (\<lambda>p m s. True) 1700000000 []
      \<lparr>AgentID = 1, Algorithm = ''Ed25519'', Timestamp = -9223372035154775808, SigBytes = []\<rparr>
      \<lparr>Method = [], Path = [], RawQuery = [], SigHeader = []\<rparr> [] \<noteq> Some TimestampExpired"
  using timestamp_window_exact [of 1700000000 "-9223372035154775808"
      "\<lparr>AgentID = 1, Algorithm = ''Ed25519'', Timestamp = -9223372035154775808, SigBytes = []\<rparr>" "\<lambda>b. b" "\<lambda>p m s. True" "[]"
      "\<lparr>Method = [], Path = [], RawQuery = [], SigHeader = []\<rparr>" "[]"]
  by (simp add: int64_range_def)

end
