(* ===== verification/ReplayGuard.thy ===== *)
theory ReplayGuard
  imports Signature
begin

text \<open>
  The replay guard (\<^verbatim>\<open>api/signature_replay.go\<close>, \<^verbatim>\<open>db/consumed_signatures.go\<close>): a table of the hashes of the signatures
  already used, with an expiry each, and a cleanup that deletes expired rows.

  A run interleaves requests: each is verified at one moment (\<open>verify\<close>, the time-stamp check of
  \<^verbatim>\<open>VerifyEd25519Signature\<close>) and recorded at a later one (\<open>consume\<close>), and the clock and the cleanup move in between.
  Times are Unix seconds. The state's \<open>accepted\<close> is the history of the requests let through.
\<close>

section \<open>The table\<close>

type_synonym consumed = "(string \<times> int) list"

definition replay_skew :: int where
  "replay_skew = 60"

definition replay_expiry :: "parsed_signature \<Rightarrow> int" where
  "replay_expiry sig = Timestamp sig + (timestamp_window + replay_skew)"

text \<open>\<^verbatim>\<open>ConsumeSignature\<close>: insert unless the hash is there; the flag says whether a row was added.\<close>

definition consume_signature :: "consumed \<Rightarrow> string \<Rightarrow> int \<Rightarrow> consumed \<times> bool" where
  "consume_signature rs h expires =
     (if h \<in> fst ` set rs then (rs, False) else ((h, expires) # rs, True))"

text \<open>\<^verbatim>\<open>datetime\<close> of SQLite reads the stored text only for the years 0 to 9999 and is NULL otherwise, and a
  comparison with NULL deletes nothing.\<close>

definition sql_datetime :: "int \<Rightarrow> int option" where
  "sql_datetime t = (if - 62167219200 \<le> t \<and> t < 253402300800 then Some t else None)"

definition cleanup_expired :: "int \<Rightarrow> consumed \<Rightarrow> consumed" where
  "cleanup_expired now rs =
     filter (\<lambda>(h, e). \<not> (case sql_datetime e of Some t \<Rightarrow> t < now | None \<Rightarrow> False)) rs"

text \<open>\<^verbatim>\<open>consumeSignatureOrReject\<close>: \<open>db_error\<close> is a failing insert, which rejects; without a database everything passes.\<close>

datatype consume_outcome = Proceed | InternalFailure | AlreadyUsed

definition consume_signature_or_reject ::
  "(string \<Rightarrow> string) \<Rightarrow> consumed option \<Rightarrow> bool \<Rightarrow> parsed_signature \<Rightarrow> consumed option \<times> consume_outcome" where
  "consume_signature_or_reject sha256 tbl db_error sig =
     (case tbl of
        None \<Rightarrow> (None, Proceed)
      | Some rs \<Rightarrow>
          if db_error then (Some rs, InternalFailure)
          else (case consume_signature rs (sha256 (SigBytes sig)) (replay_expiry sig) of
              (rs', inserted) \<Rightarrow> (Some rs', if inserted then Proceed else AlreadyUsed)))"

section \<open>Runs\<close>

record guard =
  clock :: int
  consumed_rows :: consumed
  inflight :: "(parsed_signature \<times> int) list"
  accepted :: "(string \<times> int) list"

definition guard_start :: "int \<Rightarrow> guard" where
  "guard_start t = \<lparr>clock = t, consumed_rows = [], inflight = [], accepted = []\<rparr>"

text \<open>\<open>lag\<close> bounds the time between the verification of a request and its insert.\<close>

inductive guard_step :: "(string \<Rightarrow> string) \<Rightarrow> int \<Rightarrow> guard \<Rightarrow> guard \<Rightarrow> bool" for sha256 lag where
  verify: "int64_range (Timestamp sig) \<Longrightarrow> timestamp_ok (clock g) (Timestamp sig) \<Longrightarrow>
     guard_step sha256 lag g (g\<lparr>inflight := (sig, clock g) # inflight g\<rparr>)"
| consume: "(sig, t) \<in> set (inflight g) \<Longrightarrow> clock g \<le> t + lag \<Longrightarrow>
     consume_signature_or_reject sha256 (Some (consumed_rows g)) db_error sig = (Some rs', outcome) \<Longrightarrow>
     guard_step sha256 lag g (g\<lparr>consumed_rows := rs', inflight := remove1 (sig, t) (inflight g),
       accepted := (if outcome = Proceed then (SigBytes sig, Timestamp sig) # accepted g else accepted g)\<rparr>)"
| cleanup: "guard_step sha256 lag g (g\<lparr>consumed_rows := cleanup_expired (clock g) (consumed_rows g)\<rparr>)"
| tick: "0 \<le> d \<Longrightarrow> clock g + d < 2 ^ 62 \<Longrightarrow> guard_step sha256 lag g (g\<lparr>clock := clock g + d\<rparr>)"

inductive guard_reachable :: "(string \<Rightarrow> string) \<Rightarrow> int \<Rightarrow> guard \<Rightarrow> bool" for sha256 lag where
  start: "0 \<le> t \<Longrightarrow> t < 2 ^ 62 \<Longrightarrow> guard_reachable sha256 lag (guard_start t)"
| step: "guard_reachable sha256 lag g \<Longrightarrow> guard_step sha256 lag g g' \<Longrightarrow> guard_reachable sha256 lag g'"

lemma consume_proceed:
  "consume_signature_or_reject sha256 (Some rs) err sig = (Some rs', out) \<Longrightarrow>
    (out = Proceed \<longrightarrow> sha256 (SigBytes sig) \<notin> fst ` set rs \<and> rs' = (sha256 (SigBytes sig), replay_expiry sig) # rs) \<and>
    (out \<noteq> Proceed \<longrightarrow> rs' = rs)"
  by (auto simp: consume_signature_or_reject_def consume_signature_def split: if_splits)

text \<open>An accepted signature is still in the table, or its row was deleted after its expiry.\<close>

definition guard_inv :: "(string \<Rightarrow> string) \<Rightarrow> guard \<Rightarrow> bool" where
  "guard_inv sha256 g \<longleftrightarrow>
     0 \<le> clock g \<and> clock g < 2 ^ 62 \<and>
     (\<forall>(sig, t) \<in> set (inflight g). int64_range (Timestamp sig) \<and> 0 \<le> t \<and> t \<le> clock g \<and> timestamp_ok t (Timestamp sig)) \<and>
     (\<forall>(s, ts) \<in> set (accepted g).
        (sha256 s, ts + 360) \<in> set (consumed_rows g) \<or> (ts + 360 < clock g \<and> sql_datetime (ts + 360) \<noteq> None)) \<and>
     distinct (accepted g)"

lemma guard_invI_consume:
  assumes inv: "guard_inv sha256 g" and i: "(sig, t) \<in> set (inflight g)" and lag: "clock g \<le> t + lag" "lag \<le> 60"
    and fresh: "sha256 (SigBytes sig) \<notin> fst ` set (consumed_rows g)"
  shows "(SigBytes sig, Timestamp sig) \<notin> set (accepted g)"
proof
  let ?ts = "Timestamp sig"
  assume "(SigBytes sig, ?ts) \<in> set (accepted g)"
  then have "(sha256 (SigBytes sig), ?ts + 360) \<in> set (consumed_rows g) \<or> (?ts + 360 < clock g \<and> sql_datetime (?ts + 360) \<noteq> None)"
    using inv unfolding guard_inv_def by blast
  moreover have "(sha256 (SigBytes sig), ?ts + 360) \<notin> set (consumed_rows g)" using fresh by (metis fst_conv imageI)
  ultimately have late: "?ts + 360 < clock g" and sql: "sql_datetime (?ts + 360) \<noteq> None" by blast+
  have t: "int64_range ?ts" "0 \<le> t" "t \<le> clock g" "timestamp_ok t ?ts" "clock g < 2 ^ 62" using inv i unfolding guard_inv_def by blast+
  have "\<bar>t - ?ts\<bar> \<le> 300 \<or> t - ?ts = 2 ^ 63"
    using timestamp_ok_iff [of t ?ts] t by simp
  moreover have "- 62167219200 \<le> ?ts + 360" using sql by (simp add: sql_datetime_def split: if_splits)
  ultimately show False using late lag t(3,5) by auto
qed

lemma guard_step_inv:
  assumes "guard_step sha256 lag g g'" "guard_inv sha256 g" "lag \<le> 60"
  shows "guard_inv sha256 g'"
  using assms(1)
proof cases
  case (verify sig)
  then show ?thesis using assms(2) by (auto simp: guard_inv_def)
next
  case (consume sig t db_error rs' outcome)
  note c = consume_proceed [OF consume(4)]
  have i: "set (remove1 (sig, t) (inflight g)) \<subseteq> set (inflight g)" by (rule set_remove1_subset)
  show ?thesis
  proof (cases "outcome = Proceed")
    case True
    then have rs: "sha256 (SigBytes sig) \<notin> fst ` set (consumed_rows g)"
      "rs' = (sha256 (SigBytes sig), Timestamp sig + 360) # consumed_rows g"
      using c by (simp_all add: replay_expiry_def timestamp_window_def replay_skew_def)
    have "(SigBytes sig, Timestamp sig) \<notin> set (accepted g)"
      by (rule guard_invI_consume [OF assms(2) consume(2,3) assms(3) rs(1)])
    then show ?thesis using assms(2) i True rs(2) unfolding consume(1) guard_inv_def by auto
  next
    case False
    then show ?thesis using assms(2) i c unfolding consume(1) guard_inv_def by auto
  qed
next
  case cleanup
  have "(h, e) \<in> set (cleanup_expired (clock g) (consumed_rows g)) \<or> (e < clock g \<and> sql_datetime e \<noteq> None)"
    if "(h, e) \<in> set (consumed_rows g)" for h e
    using that by (auto simp: cleanup_expired_def sql_datetime_def)
  then show ?thesis using assms(2) unfolding cleanup guard_inv_def by simp blast
next
  case (tick d)
  then show ?thesis using assms(2) by (fastforce simp: guard_inv_def)
qed

lemma guard_reachable_inv: "guard_reachable sha256 lag g \<Longrightarrow> lag \<le> 60 \<Longrightarrow> guard_inv sha256 g"
proof (induction rule: guard_reachable.induct)
  case (start t)
  then show ?case by (simp add: guard_inv_def guard_start_def)
qed (blast intro: guard_step_inv)

section \<open>Properties\<close>

text \<open>C34: No replay. In every run in which a request is recorded within 60 seconds of its verification, no signature is
  accepted twice for the same time stamp, whatever the order of requests, ticks, cleanups and database failures,
  and whatever the hash function; this includes the time stamps that slip through the window by overflow.\<close>

theorem no_signature_replay:
  assumes "guard_reachable sha256 lag g" "lag \<le> 60"
  shows "distinct (accepted g)"
  using guard_reachable_inv [OF assms] by (simp add: guard_inv_def)

text \<open>A run with one accepted and one rejected presentation.\<close>

definition example_sig :: parsed_signature where
  "example_sig = \<lparr>AgentID = 7, Algorithm = ''Ed25519'', Timestamp = 1000, SigBytes = ''s''\<rparr>"

lemma guard_step_to: "guard_reachable sha256 lag g \<Longrightarrow> guard_step sha256 lag g g'' \<Longrightarrow> g'' = g' \<Longrightarrow> guard_reachable sha256 lag g'"
  by (metis guard_reachable.step)

lemma example_verified:
  assumes "0 \<le> t" "t < 2 ^ 62" "timestamp_ok t 1000"
  shows "guard_reachable sha256 lag (guard_start t\<lparr>inflight := [(example_sig, t), (example_sig, t)]\<rparr>)"
proof -
  have v: "Timestamp example_sig = 1000" "int64_range 1000" by (simp_all add: example_sig_def int64_range_def)
  have "guard_reachable sha256 lag (guard_start t\<lparr>inflight := [(example_sig, t)]\<rparr>)"
    by (rule guard_step_to [OF guard_reachable.start [OF assms(1,2)] guard_step.verify [of example_sig]])
      (simp_all add: v assms guard_start_def)
  then show ?thesis
    by (rule guard_step_to [OF _ guard_step.verify [of example_sig]]) (simp_all add: v assms guard_start_def)
qed

lemma example_accepted:
  "guard_reachable (\<lambda>b. b) lag (guard_start 1300\<lparr>inflight := [(example_sig, 1300)],
     consumed_rows := [(''s'', 1360)], accepted := [(''s'', 1000)]\<rparr>)" if "0 \<le> lag"
proof -
  have r: "guard_reachable (\<lambda>b. b) lag (guard_start 1300\<lparr>inflight := [(example_sig, 1300), (example_sig, 1300)]\<rparr>)"
    by (rule example_verified) (simp_all add: timestamp_ok_def wrap64_def Let_def timestamp_window_def)
  show ?thesis
    by (rule guard_step_to [OF r guard_step.consume [of example_sig 1300 _ _ _ False "[(''s'', 1360)]" Proceed]])
      (use that in \<open>simp_all add: guard_start_def consume_signature_or_reject_def consume_signature_def replay_expiry_def
        timestamp_window_def replay_skew_def example_sig_def\<close>)
qed

theorem no_signature_replay_witness: "distinct [(''s'', 1000 :: int)]"
  using no_signature_replay [OF example_accepted, of 60] by (simp add: guard_start_def)

text \<open>The skew is needed in full: if a request may wait 61 seconds between its verification and its insert, the cleanup can
  delete the row of its twin in between, and the same signature passes twice.\<close>

theorem replay_skew_is_tight:
  "\<exists>g. guard_reachable (\<lambda>b. b) 61 g \<and> \<not> distinct (accepted g)"
proof -
  note r1 = example_accepted [of 61, simplified]
  have r2: "guard_reachable (\<lambda>b. b) 61 (guard_start 1361\<lparr>inflight := [(example_sig, 1300)],
     consumed_rows := [(''s'', 1360)], accepted := [(''s'', 1000)]\<rparr>)"
    by (rule guard_step_to [OF r1 guard_step.tick [of 61]]) (simp_all add: guard_start_def)
  have r3: "guard_reachable (\<lambda>b. b) 61 (guard_start 1361\<lparr>inflight := [(example_sig, 1300)],
     consumed_rows := [], accepted := [(''s'', 1000)]\<rparr>)"
    by (rule guard_step_to [OF r2 guard_step.cleanup]) (simp add: guard_start_def cleanup_expired_def sql_datetime_def)
  have r4: "guard_reachable (\<lambda>b. b) 61 (guard_start 1361\<lparr>inflight := [],
     consumed_rows := [(''s'', 1360)], accepted := [(''s'', 1000), (''s'', 1000)]\<rparr>)"
    by (rule guard_step_to [OF r3 guard_step.consume [of example_sig 1300 _ _ _ False "[(''s'', 1360)]" Proceed]])
      (simp_all add: guard_start_def consume_signature_or_reject_def consume_signature_def replay_expiry_def
        timestamp_window_def replay_skew_def example_sig_def)
  then show ?thesis by (intro exI conjI) (assumption, simp add: guard_start_def)
qed

end
