(* ===== verification/Paging.thy ===== *)
theory Paging
  imports GoTime "HOL-Library.Product_Lexorder"
begin

text \<open>
  Time stamps in SQLite (\<^verbatim>\<open>db/sqlite_time.go\<close>) and the cursor pagination that agents, approvals and
  standing approvals share. Rows written with \<^verbatim>\<open>strftime('%Y-%m-%dT%H:%M:%fZ', 'now')\<close> carry three digits of
  a second; a bound Go time carries \<^verbatim>\<open>RFC3339Nano\<close>, whose fraction loses its trailing zeros. SQLite compares both
  as text.
\<close>

section \<open>SQLite time texts\<close>

definition strftime_text :: "instant \<Rightarrow> string" where
  "strftime_text t = format_seconds t @ ''.'' @ pad 3 (t mod ns_per_sec div 1000000) @ ''Z''"

definition trim_zeros :: "string \<Rightarrow> string" where
  "trim_zeros s = rev (dropWhile (\<lambda>c. c = CHR ''0'') (rev s))"

definition TimestampForSQLite :: "instant \<Rightarrow> string" where
  "TimestampForSQLite t =
     (let f = t mod ns_per_sec
      in format_seconds t @ (if f = 0 then [] else CHR ''.'' # trim_zeros (pad 9 f)) @ ''Z'')"

definition NullableTimestampForSQLite :: "instant option \<Rightarrow> string option" where
  "NullableTimestampForSQLite t = map_option TimestampForSQLite t"

text \<open>\<^verbatim>\<open>datetime(x)\<close> has a resolution of a second, so comparing two of them compares the whole seconds; \<^verbatim>\<open>now\<close> of
  \<^verbatim>\<open>strftime\<close> has a resolution of a millisecond.\<close>

definition datetime :: "instant \<Rightarrow> int" where
  "datetime t = t div ns_per_sec"

definition sql_now :: "instant \<Rightarrow> instant" where
  "sql_now t = (t div 1000000) * 1000000"

lemma datetime_mono: "s \<le> t \<Longrightarrow> datetime s \<le> datetime t"
  by (simp add: datetime_def ns_per_sec_def zdiv_mono1)

lemma datetime_less: "datetime s < datetime t \<Longrightarrow> s < t"
  using datetime_mono [of t s] by linarith

section \<open>Pages\<close>

text \<open>\<^verbatim>\<open>ORDER BY created_at DESC, id DESC LIMIT limit+1\<close> after the cursor, of which \<open>limit\<close> rows are returned.\<close>

definition clamp_limit :: "int \<Rightarrow> nat" where
  "clamp_limit limit = (let l = (if limit \<le> 0 then 50 else limit) in nat (if 100 < l then 100 else l))"

definition fetch_page :: "('row \<Rightarrow> 'k :: linorder) \<Rightarrow> nat \<Rightarrow> 'k option \<Rightarrow> 'row list \<Rightarrow> 'row list \<times> bool" where
  "fetch_page key limit cursor rows =
     (let below = (case cursor of None \<Rightarrow> rows | Some k \<Rightarrow> filter (\<lambda>r. key r < k) rows);
          fetched = take (limit + 1) (rev (sort_key key below))
      in (take limit fetched, limit < length fetched))"

text \<open>A client that follows the cursor of the last row while there is more.\<close>

fun follow_pages :: "nat \<Rightarrow> ('k option \<Rightarrow> 'row list \<times> bool) \<Rightarrow> ('row \<Rightarrow> 'k) \<Rightarrow> 'k option \<Rightarrow> 'row list option" where
  "follow_pages 0 page cursor k = None"
| "follow_pages (Suc n) page cursor k =
     (case page k of (rs, more) \<Rightarrow>
        if more then map_option ((@) rs) (follow_pages n page cursor (Some (cursor (last rs)))) else Some rs)"

lemma clamp_limit_range: "1 \<le> clamp_limit l \<and> clamp_limit l \<le> 100"
  by (simp add: clamp_limit_def Let_def) linarith

text \<open>What the queries rely on: among the rows of a listing keys are distinct, and a row's cursor is its key.\<close>

locale paged =
  fixes key :: "'row \<Rightarrow> 'k :: linorder" and cursor :: "'row \<Rightarrow> 'k" and good :: "'row \<Rightarrow> bool"
  assumes cursor_is_key: "good r \<Longrightarrow> cursor r = key r"
begin

definition newest_first :: "'row list \<Rightarrow> 'row list" where
  "newest_first rows = rev (sort_key key rows)"

lemma descending: "distinct (map key rows) \<Longrightarrow> sorted_wrt (>) (map key (newest_first rows))"
proof -
  assume d: "distinct (map key rows)"
  have "distinct (map key (sort_key key rows))" using d by (simp add: distinct_map)
  moreover have "sorted (map key (sort_key key rows))" by simp
  ultimately have "sorted_wrt (<) (map key (sort_key key rows))" by (simp add: strict_sorted_iff)
  then show ?thesis by (simp add: newest_first_def rev_map [symmetric] sorted_wrt_rev)
qed

lemma below_element:
  assumes "sorted_wrt (>) (map key (xs @ r # ys))"
  shows "filter (\<lambda>x. key x < key r) (xs @ r # ys) = ys"
proof -
  have "\<forall>x \<in> set xs. key r < key x" "\<forall>y \<in> set ys. key y < key r"
    using assms by (auto simp: sorted_wrt_append)
  then have "filter (\<lambda>x. key x < key r) xs = []" "filter (\<lambda>x. key x < key r) ys = ys"
    by (auto simp: filter_empty_conv)
  then show ?thesis by simp
qed

lemma page_after:
  assumes "distinct (map key rows)" "newest_first rows = xs @ r # ys"
  shows "fetch_page key limit (Some (key r)) rows = (take limit ys, limit < length ys)"
proof -
  have "rev (sort_key key (filter (\<lambda>x. key x < key r) rows)) = filter (\<lambda>x. key x < key r) (newest_first rows)"
    by (simp add: newest_first_def filter_sort rev_filter [symmetric])
  also have "\<dots> = ys" using below_element descending [OF assms(1)] assms(2) by simp
  finally have e: "rev (sort_key key (filter (\<lambda>x. key x < key r) rows)) = ys" .
  have "length (filter (\<lambda>x. key x < key r) rows) = length ys" using arg_cong [OF e, of length] by simp
  then show ?thesis by (simp add: fetch_page_def Let_def e)
qed

lemma page_first:
  "fetch_page key limit None rows = (take limit (newest_first rows), limit < length (newest_first rows))"
  by (simp add: fetch_page_def newest_first_def min_def)

lemma follow_suffix:
  assumes "distinct (map key rows)" "\<forall>r \<in> set rows. good r" "1 \<le> limit"
    and "newest_first rows = xs @ ys" "page k = (take limit ys, limit < length ys)"
    and page: "\<And>r. r \<in> set rows \<Longrightarrow> page (Some (key r)) = fetch_page key limit (Some (key r)) rows"
    and "length ys < n"
  shows "follow_pages n page cursor k = Some ys"
  using assms(4,5,7)
proof (induction n arbitrary: xs ys k)
  case (Suc n)
  show ?case
  proof (cases "limit < length ys")
    case True
    define r where "r = ys ! (limit - 1)"
    have ys: "ys = take limit ys @ drop limit ys" by simp
    have "take (Suc (limit - 1)) ys = take (limit - 1) ys @ [r]"
      unfolding r_def using True by (intro take_Suc_conv_app_nth) simp
    then have tk: "take limit ys = take (limit - 1) ys @ [r]" using assms(3) by simp
    then have l: "last (take limit ys) = r" by simp
    have split: "newest_first rows = (xs @ take (limit - 1) ys) @ r # drop limit ys"
      using Suc.prems(1) ys tk by (metis append.assoc append_Cons append_Nil)
    have r: "r \<in> set rows"
      using arg_cong [OF split, of set] by (auto simp: newest_first_def)
    have "page (Some (key r)) = (take limit (drop limit ys), limit < length (drop limit ys))"
      using page [OF r] page_after [OF assms(1) split] by simp
    from Suc.IH [OF _ this, of "xs @ take limit ys"] Suc.prems True assms(3)
    have "follow_pages n page cursor (Some (key r)) = Some (drop limit ys)" by simp
    moreover have "cursor r = key r" using r assms(2) cursor_is_key by blast
    ultimately show ?thesis using Suc.prems(2) True by (simp add: l)
  qed (use Suc.prems in simp)
qed simp

lemma follow_all:
  assumes "distinct (map key rows)" "\<forall>r \<in> set rows. good r" "1 \<le> limit"
  shows "follow_pages (length rows + 1) (\<lambda>k. fetch_page key limit k rows) cursor None = Some (newest_first rows)"
  by (rule follow_suffix [OF assms, of "[]"]) (simp_all add: page_first newest_first_def)

end

end
