(* ===== verification/Tables.thy ===== *)
theory Tables
  imports Paging
begin

text \<open>
  Database tables as lists of rows, the \<^verbatim>\<open>UPDATE ... WHERE ... RETURNING\<close> statements the code runs on them, and
  runs of transactions. Each statement is atomic (SQLite has one writer); a transaction that fails leaves
  the tables as they were.
\<close>

section \<open>Statements\<close>

definition update_where :: "('row \<Rightarrow> bool) \<Rightarrow> ('row \<Rightarrow> 'row) \<Rightarrow> 'row list \<Rightarrow> 'row list" where
  "update_where p f rows = map (\<lambda>r. if p r then f r else r) rows"

text \<open>The first row an \<^verbatim>\<open>UPDATE ... RETURNING\<close> yields; with a primary key in the condition it is the only one.\<close>

definition update_returning :: "('row \<Rightarrow> bool) \<Rightarrow> ('row \<Rightarrow> 'row) \<Rightarrow> 'row list \<Rightarrow> 'row list \<times> 'row option" where
  "update_returning p f rows = (update_where p f rows, map_option f (find p rows))"

lemma map_update_where: "(\<And>r. p r \<Longrightarrow> g (f r) = g r) \<Longrightarrow> map g (update_where p f rows) = map g rows"
  by (simp add: update_where_def)

lemma set_update_where: "r' \<in> set (update_where p f rows) \<longleftrightarrow> (\<exists>r \<in> set rows. r' = (if p r then f r else r))"
  by (auto simp: update_where_def)

lemma update_where_none: "(\<And>r. r \<in> set rows \<Longrightarrow> \<not> p r) \<Longrightarrow> update_where p f rows = rows"
  by (simp add: update_where_def map_idI)

lemma find_SomeD: "find p rows = Some r \<Longrightarrow> r \<in> set rows \<and> p r"
  by (auto simp: find_Some_iff)

lemma find_NoneD: "find p rows = None \<Longrightarrow> r \<in> set rows \<Longrightarrow> \<not> p r"
  by (auto simp: find_None_iff)

text \<open>Rows under a primary key: two rows with one key are the same row.\<close>

lemma key_unique: "distinct (map key rows) \<Longrightarrow> r \<in> set rows \<Longrightarrow> s \<in> set rows \<Longrightarrow> key r = key s \<Longrightarrow> r = s"
  by (auto simp: distinct_map inj_on_def)

lemma find_key:
  assumes "distinct (map key rows)" "r \<in> set rows" "p r" "\<And>s. p s \<Longrightarrow> key s = key r"
  shows "find p rows = Some r"
proof (cases "find p rows")
  case None
  then show ?thesis using assms(2,3) find_NoneD by metis
next
  case (Some s)
  then have "s \<in> set rows" "p s" using find_SomeD by metis+
  with assms key_unique have "s = r" by metis
  with Some show ?thesis by simp
qed

section \<open>Runs\<close>

text \<open>The states a system reaches from its start states by its steps.\<close>

inductive reach :: "('s \<Rightarrow> bool) \<Rightarrow> ('s \<Rightarrow> 's \<Rightarrow> bool) \<Rightarrow> 's \<Rightarrow> bool" for start step where
  reach_start: "start s \<Longrightarrow> reach start step s"
| reach_step: "reach start step s \<Longrightarrow> step s t \<Longrightarrow> reach start step t"

text \<open>A system and an invariant of it; \<open>later\<close> relates the states before and after any number of steps.\<close>

locale system =
  fixes start :: "'s \<Rightarrow> bool" and step :: "'s \<Rightarrow> 's \<Rightarrow> bool" and inv :: "'s \<Rightarrow> bool" and later :: "'s \<Rightarrow> 's \<Rightarrow> bool"
  assumes inv_start: "start s \<Longrightarrow> inv s"
    and inv_step: "inv s \<Longrightarrow> step s t \<Longrightarrow> inv t"
    and later_refl: "later s s"
    and later_step: "inv s \<Longrightarrow> step s t \<Longrightarrow> later s t"
    and later_trans: "later s t \<Longrightarrow> later t u \<Longrightarrow> later s u"
begin

lemma invariant: "reach start step s \<Longrightarrow> inv s"
  by (induction rule: reach.induct) (auto intro: inv_start inv_step)

lemma inv_star: "step\<^sup>*\<^sup>* s t \<Longrightarrow> inv s \<Longrightarrow> inv t"
  by (induction rule: rtranclp_induct) (auto intro: inv_step)

lemma later_star: "step\<^sup>*\<^sup>* s t \<Longrightarrow> inv s \<Longrightarrow> later s t"
proof (induction rule: rtranclp_induct)
  case (step t u)
  then show ?case using inv_star later_step later_trans by metis
qed (rule later_refl)

lemma later_reach: "reach start step s \<Longrightarrow> step\<^sup>*\<^sup>* s t \<Longrightarrow> later s t"
  using later_star invariant by blast

end

end
