(* ===== verification/Approvals.thy ===== *)
theory Approvals
  imports Tables Encodings
begin

text \<open>
  One-off approvals: the tables \<^verbatim>\<open>approvals\<close> and \<^verbatim>\<open>request_ids\<close> and every statement of \<^verbatim>\<open>db/approvals.go\<close>,
  \<^verbatim>\<open>db/agent_approvals.go\<close>, \<^verbatim>\<open>db/agent_approvals_sweep.go\<close>, \<^verbatim>\<open>db/approval_bulk_groups.go\<close> and \<^verbatim>\<open>db/approval_dedup.go\<close>.
  JSON columns are their texts. \<open>now\<close> is the clock at the statement, in nanoseconds; \<open>agent_meta\<close> is
  \<^verbatim>\<open>SELECT metadata FROM agents WHERE agent_id = ...\<close> (no row is \<open>None\<close>); \<open>io_ok = False\<close> is a statement that fails
  for a reason of its own (a full disk, a CHECK or FOREIGN KEY violation).
\<close>

section \<open>Rows\<close>

datatype approval_status = Pending | Approved | Denied | Cancelled

record approval =
  ap_id :: string
  ap_agent :: int
  ap_approver :: string
  ap_group :: "string option"
  ap_action :: string
  ap_context :: string
  ap_status :: approval_status
  ap_exec_status :: "string option"
  ap_exec_result :: "string option"
  ap_executed_at :: "instant option"
  ap_resource :: "string option"
  ap_expires :: instant
  ap_approved_at :: "instant option"
  ap_denied_at :: "instant option"
  ap_cancelled_at :: "instant option"
  ap_denial_reason :: "string option"
  ap_fingerprint :: "string option"
  ap_created :: instant

text \<open>\<^verbatim>\<open>*ApprovalError\<close> by its code; \<open>NotEligible\<close> is the error text of \<^verbatim>\<open>UpdateApprovalExecution\<close>, \<open>DbFailure\<close> any
  other error.\<close>

datatype approval_error = NotFound | AlreadyResolved approval_status | Expired | DuplicateRequest | NotEligible | DbFailure

definition live :: "instant \<Rightarrow> approval \<Rightarrow> bool" where
  "live now a \<longleftrightarrow> ap_status a = Pending \<and> datetime now < datetime (ap_expires a)"

section \<open>Reading\<close>

definition GetApprovalByIDAndApprover :: "string \<Rightarrow> string \<Rightarrow> approval list \<Rightarrow> approval option" where
  "GetApprovalByIDAndApprover i u rows = find (\<lambda>a. ap_id a = i \<and> ap_approver a = u) rows"

definition GetApprovalByIDAndAgent :: "string \<Rightarrow> int \<Rightarrow> approval list \<Rightarrow> approval option" where
  "GetApprovalByIDAndAgent i ag rows = find (\<lambda>a. ap_id a = i \<and> ap_agent a = ag) rows"

definition GetApprovalByID :: "string \<Rightarrow> approval list \<Rightarrow> approval option" where
  "GetApprovalByID i rows = find (\<lambda>a. ap_id a = i) rows"

definition diagnoseApprovalFailure :: "string \<Rightarrow> string \<Rightarrow> approval list \<Rightarrow> approval_error" where
  "diagnoseApprovalFailure i u rows =
     (case GetApprovalByIDAndApprover i u rows of
        None \<Rightarrow> NotFound
      | Some a \<Rightarrow> if ap_status a \<noteq> Pending then AlreadyResolved (ap_status a) else Expired)"

definition diagnoseAgentApprovalFailure :: "string \<Rightarrow> int \<Rightarrow> approval list \<Rightarrow> approval_error" where
  "diagnoseAgentApprovalFailure i ag rows =
     (case GetApprovalByIDAndAgent i ag rows of
        None \<Rightarrow> NotFound
      | Some a \<Rightarrow> if ap_status a \<noteq> Pending then AlreadyResolved (ap_status a) else Expired)"

section \<open>Resolving\<close>

text \<open>The \<^verbatim>\<open>SET\<close> clause: the new status, its time stamp, and the reason of a denial when it is not empty.\<close>

definition resolved :: "instant \<Rightarrow> approval_status \<Rightarrow> string \<Rightarrow> approval \<Rightarrow> approval" where
  "resolved now new reason a =
     (let b = (if new = Approved then a\<lparr>ap_status := new, ap_approved_at := Some (sql_now now)\<rparr>
               else a\<lparr>ap_status := new, ap_denied_at := Some (sql_now now)\<rparr>)
      in if new = Denied \<and> reason \<noteq> [] then b\<lparr>ap_denial_reason := Some reason\<rparr> else b)"

definition resolveApproval ::
  "instant \<Rightarrow> (int \<Rightarrow> string option option) \<Rightarrow> string \<Rightarrow> string \<Rightarrow> approval_status \<Rightarrow> string \<Rightarrow> approval list
    \<Rightarrow> approval list \<times> (approval_error + approval \<times> string option)" where
  "resolveApproval now agent_meta i u new reason rows =
     (case update_returning (\<lambda>a. ap_id a = i \<and> ap_approver a = u \<and> live now a) (resolved now new reason) rows of
        (rows', Some a) \<Rightarrow>
          (case agent_meta (ap_agent a) of
             None \<Rightarrow> (rows, Inl DbFailure)
           | Some meta \<Rightarrow> (rows', Inr (a, meta)))
      | (_, None) \<Rightarrow> (rows, Inl (diagnoseApprovalFailure i u rows)))"

definition ApproveApproval where
  "ApproveApproval now agent_meta i u rows = resolveApproval now agent_meta i u Approved [] rows"

definition DenyApproval where
  "DenyApproval now agent_meta i u reason rows = resolveApproval now agent_meta i u Denied reason rows"

text \<open>\<^verbatim>\<open>DenyAllPendingStandaloneApprovals\<close>; a missing agent row rolls everything back.\<close>

definition DenyAllPendingStandaloneApprovals ::
  "instant \<Rightarrow> (int \<Rightarrow> string option option) \<Rightarrow> string \<Rightarrow> approval list \<Rightarrow> approval list \<times> (approval_error + approval list)" where
  "DenyAllPendingStandaloneApprovals now agent_meta u rows =
     (let p = (\<lambda>a. ap_approver a = u \<and> ap_group a = None \<and> live now a);
          f = (\<lambda>a. a\<lparr>ap_status := Denied, ap_denied_at := Some (sql_now now)\<rparr>);
          denied = map f (filter p rows)
      in if \<exists>a \<in> set denied. agent_meta (ap_agent a) = None then (rows, Inl DbFailure)
         else (update_where p f rows, Inr denied))"

definition CancelApproval :: "instant \<Rightarrow> string \<Rightarrow> int \<Rightarrow> approval list \<Rightarrow> approval list \<times> (approval_error + approval)" where
  "CancelApproval now i ag rows =
     (case update_returning (\<lambda>a. ap_id a = i \<and> ap_agent a = ag \<and> live now a)
             (\<lambda>a. a\<lparr>ap_status := Cancelled, ap_cancelled_at := Some (sql_now now)\<rparr>) rows of
        (rows', Some a) \<Rightarrow> (rows', Inr a)
      | (_, None) \<Rightarrow> (rows, Inl (diagnoseAgentApprovalFailure i ag rows)))"

definition UpdateApprovalExecution ::
  "instant \<Rightarrow> string \<Rightarrow> string \<Rightarrow> string option \<Rightarrow> bool \<Rightarrow> approval list \<Rightarrow> approval list \<times> approval_error option" where
  "UpdateApprovalExecution now i exec_status result io_ok rows =
     (let p = (\<lambda>a. ap_id a = i \<and> ap_status a = Approved \<and> ap_executed_at a = None)
      in if \<not> io_ok then (rows, Some DbFailure)
         else if filter p rows = [] then (rows, Some NotEligible)
         else (update_where p (\<lambda>a. a\<lparr>ap_exec_status := Some exec_status, ap_exec_result := result,
                 ap_executed_at := Some (sql_now now)\<rparr>) rows, None))"

section \<open>Creating\<close>

record approval_params =
  in_id :: string
  in_agent :: int
  in_approver :: string
  in_group :: "string option"
  in_action :: string
  in_context :: string
  in_resource :: "string option"
  in_fingerprint :: string
  in_expires :: instant

definition new_approval :: "instant \<Rightarrow> approval_params \<Rightarrow> approval" where
  "new_approval now p =
     \<lparr>ap_id = in_id p, ap_agent = in_agent p, ap_approver = in_approver p, ap_group = in_group p, ap_action = in_action p,
      ap_context = in_context p, ap_status = Pending, ap_exec_status = None, ap_exec_result = None, ap_executed_at = None,
      ap_resource = in_resource p, ap_expires = in_expires p, ap_approved_at = None, ap_denied_at = None,
      ap_cancelled_at = None, ap_denial_reason = None,
      ap_fingerprint = (if in_fingerprint p = [] then None else Some (in_fingerprint p)), ap_created = sql_now now\<rparr>"

text \<open>The request id and the row are inserted in one transaction.\<close>

definition InsertApproval ::
  "instant \<Rightarrow> approval_params \<Rightarrow> string \<Rightarrow> bool \<Rightarrow> string list \<times> approval list
    \<Rightarrow> (string list \<times> approval list) \<times> (approval_error + approval)" where
  "InsertApproval now p request_id io_ok st =
     (case st of (ids, rows) \<Rightarrow>
        if request_id \<in> set ids then (st, Inl DuplicateRequest)
        else if \<not> io_ok \<or> in_id p \<in> ap_id ` set rows then (st, Inl DbFailure)
        else ((request_id # ids, new_approval now p # rows), Inr (new_approval now p)))"

section \<open>Listing\<close>

definition approval_key :: "approval \<Rightarrow> string \<times> string" where
  "approval_key a = (strftime_text (ap_created a), ap_id a)"

text \<open>The cursor of a row as the client sends it back: \<^verbatim>\<open>encodeApprovalCursor\<close> and \<^verbatim>\<open>parseApprovalCursor\<close> keep the instant,
  which is bound as \<^verbatim>\<open>TimestampForSQLite\<close>.\<close>

definition approval_cursor :: "approval \<Rightarrow> string \<times> string" where
  "approval_cursor a = (TimestampForSQLite (ap_created a), ap_id a)"

text \<open>\<open>FilterPending\<close> is the default filter, \<open>FilterStatus\<close> any other text.\<close>

datatype status_filter = FilterPending | FilterAll | FilterStatus approval_status

definition selected :: "instant \<Rightarrow> status_filter \<Rightarrow> approval \<Rightarrow> bool" where
  "selected now f a = (case f of FilterPending \<Rightarrow> live now a | FilterAll \<Rightarrow> True | FilterStatus s \<Rightarrow> ap_status a = s)"

definition ListApprovalsByApproverPaginated ::
  "instant \<Rightarrow> string \<Rightarrow> status_filter \<Rightarrow> int \<Rightarrow> (string \<times> string) option \<Rightarrow> approval list \<Rightarrow> approval list \<times> bool" where
  "ListApprovalsByApproverPaginated now u f limit cursor rows =
     fetch_page approval_key (clamp_limit limit) cursor (filter (\<lambda>a. ap_approver a = u \<and> selected now f a) rows)"

definition ComputeActionFingerprint :: "(string \<Rightarrow> string) \<Rightarrow> int \<Rightarrow> string \<Rightarrow> string \<Rightarrow> string" where
  "ComputeActionFingerprint sha256 ag u action = hex_encode (sha256 (int_str ag @ '':'' @ u @ '':'' @ action))"

text \<open>\<^verbatim>\<open>ORDER BY denied_at DESC LIMIT 1\<close> compares the millisecond texts.\<close>

definition FindRecentDeniedApproval ::
  "int \<Rightarrow> string \<Rightarrow> string \<Rightarrow> instant \<Rightarrow> approval list \<Rightarrow> approval option" where
  "FindRecentDeniedApproval ag u fingerprint since rows =
     (if fingerprint = [] then None
      else (case rev (sort_key (\<lambda>a. case ap_denied_at a of None \<Rightarrow> [] | Some d \<Rightarrow> strftime_text d)
               (filter (\<lambda>a. ap_agent a = ag \<and> ap_approver a = u \<and> ap_fingerprint a = Some fingerprint \<and> ap_status a = Denied \<and>
                  (case ap_denied_at a of None \<Rightarrow> False | Some d \<Rightarrow> datetime since < datetime d)) rows)) of
          [] \<Rightarrow> None | a # _ \<Rightarrow> Some a))"

section \<open>Sweeps\<close>

text \<open>\<^verbatim>\<open>datetime(x)\<close> as the text SQLite compares when the other side is a text.\<close>

definition datetime_text :: "instant \<Rightarrow> string" where
  "datetime_text t = (let s = (t div ns_per_sec) mod 86400
     in format_date t @ '' '' @ pad 2 (s div 3600) @ '':'' @ pad 2 (s div 60 mod 60) @ '':'' @ pad 2 (s mod 60))"

definition first_some :: "'a option list \<Rightarrow> 'a option" where
  "first_some xs = first_return (\<lambda>x. x) xs"

definition resolution_time :: "approval \<Rightarrow> instant option" where
  "resolution_time a = first_some [ap_approved_at a, ap_denied_at a, ap_cancelled_at a]"

definition in_sweep :: "instant \<Rightarrow> instant \<Rightarrow> approval \<Rightarrow> bool" where
  "in_sweep now since a \<longleftrightarrow>
     live now a \<or>
     (ap_status a \<noteq> Pending \<and>
        (case resolution_time a of None \<Rightarrow> False | Some t \<Rightarrow> TimestampForSQLite since \<le> strftime_text t)) \<or>
     (ap_status a = Pending \<and> datetime (ap_expires a) \<le> datetime now \<and>
        TimestampForSQLite since \<le> datetime_text (ap_expires a))"

text \<open>The status an agent sees: an overdue pending row is expired. \<open>zero_time\<close> is \<^verbatim>\<open>time.Time{}\<close>.\<close>

datatype seen_status = Stored approval_status | SeenExpired

definition zero_time :: instant where
  "zero_time = - 62135596800 * ns_per_sec"

definition overdue :: "instant \<Rightarrow> approval \<Rightarrow> bool" where
  "overdue now a \<longleftrightarrow> ap_status a = Pending \<and> ap_expires a \<noteq> zero_time \<and> ap_expires a < now"

definition resolvedApprovalStatus :: "instant \<Rightarrow> approval \<Rightarrow> seen_status" where
  "resolvedApprovalStatus now a = (if overdue now a then SeenExpired else Stored (ap_status a))"

text \<open>Terminal and retryable.\<close>

definition approvalStateFlags :: "seen_status \<Rightarrow> bool \<times> bool" where
  "approvalStateFlags s = (case s of Stored Pending \<Rightarrow> (False, False) | _ \<Rightarrow> (True, False))"

record sweep_item =
  sw_id :: string
  sw_status :: seen_status
  sw_expires :: instant
  sw_resolved :: "instant option"
  sw_reason :: "string option"

definition sweep_item_of :: "instant \<Rightarrow> approval \<Rightarrow> sweep_item" where
  "sweep_item_of now a =
     \<lparr>sw_id = ap_id a, sw_status = resolvedApprovalStatus now a, sw_expires = ap_expires a,
      sw_resolved = (if overdue now a then Some (ap_expires a) else resolution_time a), sw_reason = ap_denial_reason a\<rparr>"

definition ListAgentApprovalsForSweep :: "instant \<Rightarrow> int \<Rightarrow> instant \<Rightarrow> approval list \<Rightarrow> sweep_item list" where
  "ListAgentApprovalsForSweep now ag since rows =
     map (sweep_item_of now) (sort_key (\<lambda>a. strftime_text (ap_created a)) (filter (\<lambda>a. ap_agent a = ag \<and> in_sweep now since a) rows))"

definition ListExpiredPendingApprovalIDs :: "instant \<Rightarrow> int \<Rightarrow> approval list \<Rightarrow> string list" where
  "ListExpiredPendingApprovalIDs now limit rows =
     take (nat (if limit \<le> 0 then 100 else limit))
       (map ap_id (sort_key (\<lambda>a. TimestampForSQLite (ap_expires a))
          (filter (\<lambda>a. ap_status a = Pending \<and> datetime (ap_expires a) \<le> datetime now) rows)))"

section \<open>Bulk groups\<close>

record bulk_group =
  bg_id :: string
  bg_agent :: int
  bg_approver :: string
  bg_action_type :: string
  bg_item_count :: int
  bg_allow_mixed :: bool
  bg_expires :: instant
  bg_created :: instant

record bulk_group_params =
  bi_id :: string
  bi_agent :: int
  bi_approver :: string
  bi_action_type :: string
  bi_item_count :: int
  bi_expires :: instant

text \<open>The table checks that the count is positive.\<close>

definition InsertApprovalBulkGroup ::
  "instant \<Rightarrow> bulk_group_params \<Rightarrow> bool \<Rightarrow> bulk_group list \<Rightarrow> bulk_group list \<times> (approval_error + bulk_group)" where
  "InsertApprovalBulkGroup now p io_ok groups =
     (let g = \<lparr>bg_id = bi_id p, bg_agent = bi_agent p, bg_approver = bi_approver p, bg_action_type = bi_action_type p,
               bg_item_count = bi_item_count p, bg_allow_mixed = False, bg_expires = bi_expires p, bg_created = sql_now now\<rparr>
      in if \<not> io_ok \<or> bi_item_count p \<le> 0 \<or> bi_id p \<in> bg_id ` set groups then (groups, Inl DbFailure)
         else (g # groups, Inr g))"

definition GetApprovalBulkGroupByIDAndApprover :: "string \<Rightarrow> string \<Rightarrow> bulk_group list \<Rightarrow> bulk_group option" where
  "GetApprovalBulkGroupByIDAndApprover i u groups = find (\<lambda>g. bg_id g = i \<and> bg_approver g = u) groups"

definition GetApprovalBulkGroupByIDAndAgent :: "string \<Rightarrow> int \<Rightarrow> bulk_group list \<Rightarrow> bulk_group option" where
  "GetApprovalBulkGroupByIDAndAgent i ag groups = find (\<lambda>g. bg_id g = i \<and> bg_agent g = ag) groups"

definition ListApprovalsByBulkGroupID :: "string \<Rightarrow> approval list \<Rightarrow> approval list" where
  "ListApprovalsByBulkGroupID g rows = sort_key approval_key (filter (\<lambda>a. ap_group a = Some g) rows)"

definition BulkGroupAggregateStatus :: "approval list \<Rightarrow> instant \<Rightarrow> string" where
  "BulkGroupAggregateStatus as now =
     (if as = [] then ''resolved''
      else (let pending = length (filter (\<lambda>a. resolvedApprovalStatus now a = Stored Pending) as)
            in if pending = length as then ''pending'' else if pending = 0 then ''resolved'' else ''partial''))"

text \<open>The ids of \<^verbatim>\<open>SELECT DISTINCT\<close>, in no particular order.\<close>

definition ListDistinctPendingBulkGroupIDs :: "instant \<Rightarrow> string \<Rightarrow> approval list \<Rightarrow> string list" where
  "ListDistinctPendingBulkGroupIDs now u rows =
     remdups (concat (map (\<lambda>a. case ap_group a of None \<Rightarrow> [] | Some g \<Rightarrow> [g])
       (filter (\<lambda>a. ap_approver a = u \<and> live now a) rows)))"

section \<open>Configuration\<close>

text \<open>Durations in nanoseconds; \<open>parse_duration\<close> is \<^verbatim>\<open>time.ParseDuration\<close>.\<close>

definition minutes :: "int \<Rightarrow> int" where
  "minutes m = m * 60 * ns_per_sec"

definition ApprovalTTLFromEnv :: "(string \<Rightarrow> int option) \<Rightarrow> string \<Rightarrow> int" where
  "ApprovalTTLFromEnv parse_duration v =
     (if v = [] then minutes 10
      else (case parse_duration v of None \<Rightarrow> minutes 10
        | Some d \<Rightarrow> if d < minutes 1 \<or> minutes (24 * 60) < d then minutes 10 else d))"

definition DenialCooldownFromEnv :: "(string \<Rightarrow> int option) \<Rightarrow> string \<Rightarrow> int" where
  "DenialCooldownFromEnv parse_duration v =
     (if v = [] then minutes 10
      else (case parse_duration v of None \<Rightarrow> minutes 10
        | Some d \<Rightarrow> if d < minutes 1 \<or> minutes (24 * 60) < d then minutes 10 else d))"

definition approvalDenialCooldown :: "int \<Rightarrow> int \<Rightarrow> int" where
  "approvalDenialCooldown configured fallback = (if 0 < configured then configured else fallback)"

definition approval_expiry :: "instant \<Rightarrow> int \<Rightarrow> int option \<Rightarrow> instant" where
  "approval_expiry now ttl expires_in = (case expires_in of None \<Rightarrow> now + ttl | Some s \<Rightarrow> now + s * ns_per_sec)"

end
