(* ===== verification/ApprovalLifecycle.thy ===== *)
theory ApprovalLifecycle
  imports Approvals
begin

text \<open>
  Runs of the approval system: agents request and cancel, approvers approve and deny, the server executes what
  was approved, and the clock moves. The endpoints of \<^verbatim>\<open>api/approvals.go\<close> and \<^verbatim>\<open>api/agent_approvals.go\<close> are steps over
  the statements of \<^verbatim>\<open>Approvals\<close>; the connector call of \<^verbatim>\<open>executeApprovalAction\<close> is an event of its own, since
  other requests interleave with it. Proved: an action runs at most once and only after it was approved in
  time, a resolved approval never changes again, and the statements refine an abstract approval register.
\<close>

section \<open>Statements keep the rows well formed\<close>

lemmas approval_ops = ApproveApproval_def DenyApproval_def resolveApproval_def update_returning_def

definition row_ok :: "approval \<Rightarrow> bool" where
  "row_ok a \<longleftrightarrow>
     (ap_approved_at a \<noteq> None \<longleftrightarrow> ap_status a = Approved) \<and> (ap_denied_at a \<noteq> None \<longleftrightarrow> ap_status a = Denied) \<and>
     (ap_cancelled_at a \<noteq> None \<longleftrightarrow> ap_status a = Cancelled) \<and> (ap_denial_reason a \<noteq> None \<longrightarrow> ap_status a = Denied) \<and>
     (ap_executed_at a \<noteq> None \<longrightarrow> ap_status a = Approved) \<and> (ap_executed_at a \<noteq> None \<longleftrightarrow> ap_exec_status a \<noteq> None) \<and>
     (case first_some [ap_approved_at a, ap_denied_at a, ap_cancelled_at a] of
        None \<Rightarrow> True | Some t \<Rightarrow> datetime t < datetime (ap_expires a))"

lemma datetime_sql_now: "datetime (sql_now t) = datetime t"
proof -
  have "(t div 1000000) * 1000000 div 1000000000 = (t div 1000000) * 1000000 div 1000000 div 1000"
    by (simp add: zdiv_zmult2_eq [of 1000 _ 1000000, simplified])
  also have "\<dots> = t div 1000000 div 1000" by simp
  also have "\<dots> = t div 1000000000" by (simp add: zdiv_zmult2_eq [of 1000 t 1000000, simplified])
  finally show ?thesis by (simp add: datetime_def sql_now_def ns_per_sec_def)
qed

lemma row_ok_new: "row_ok (new_approval now p)"
  by (simp add: row_ok_def new_approval_def first_some_def)

lemma row_ok_resolved: "row_ok a \<Longrightarrow> live now a \<Longrightarrow> new \<in> {Approved, Denied} \<Longrightarrow> row_ok (resolved now new reason a)"
  by (auto simp: row_ok_def resolved_def live_def Let_def first_some_def datetime_sql_now)

lemma row_ok_cancelled:
  "row_ok a \<Longrightarrow> live now a \<Longrightarrow> row_ok (a\<lparr>ap_status := Cancelled, ap_cancelled_at := Some (sql_now now)\<rparr>)"
  by (auto simp: row_ok_def live_def first_some_def datetime_sql_now)

lemma row_ok_denied:
  "row_ok a \<Longrightarrow> live now a \<Longrightarrow> row_ok (a\<lparr>ap_status := Denied, ap_denied_at := Some (sql_now now)\<rparr>)"
  by (auto simp: row_ok_def live_def first_some_def datetime_sql_now)

lemma row_ok_executed:
  "row_ok a \<Longrightarrow> ap_status a = Approved \<Longrightarrow>
    row_ok (a\<lparr>ap_exec_status := Some st, ap_exec_result := res, ap_executed_at := Some t\<rparr>)"
  by (auto simp: row_ok_def first_some_def)

text \<open>How a row may change: resolved rows keep their resolution, executed rows their result, and nothing else moves.\<close>

definition row_after :: "approval \<Rightarrow> approval \<Rightarrow> bool" where
  "row_after a b \<longleftrightarrow>
     (ap_id b, ap_agent b, ap_approver b, ap_group b, ap_action b, ap_context b, ap_resource b, ap_expires b, ap_fingerprint b, ap_created b)
       = (ap_id a, ap_agent a, ap_approver a, ap_group a, ap_action a, ap_context a, ap_resource a, ap_expires a, ap_fingerprint a, ap_created a) \<and>
     (ap_status a \<noteq> Pending \<longrightarrow>
        (ap_status b, ap_approved_at b, ap_denied_at b, ap_cancelled_at b, ap_denial_reason b)
          = (ap_status a, ap_approved_at a, ap_denied_at a, ap_cancelled_at a, ap_denial_reason a)) \<and>
     (ap_executed_at a \<noteq> None \<longrightarrow>
        (ap_exec_status b, ap_exec_result b, ap_executed_at b) = (ap_exec_status a, ap_exec_result a, ap_executed_at a))"

lemma row_after_refl: "row_after a a"
  by (simp add: row_after_def)

lemma row_after_trans: "row_after a b \<Longrightarrow> row_after b c \<Longrightarrow> row_after a c"
  by (simp add: row_after_def)

lemma row_after_changes:
  "live now a \<Longrightarrow> row_ok a \<Longrightarrow> row_after a (resolved now new reason a)"
  "live now a \<Longrightarrow> row_ok a \<Longrightarrow> row_after a (a\<lparr>ap_status := Cancelled, ap_cancelled_at := Some t\<rparr>)"
  "live now a \<Longrightarrow> row_ok a \<Longrightarrow> row_after a (a\<lparr>ap_status := Denied, ap_denied_at := Some t\<rparr>)"
  "ap_executed_at a = None \<Longrightarrow> row_after a (a\<lparr>ap_exec_status := Some st, ap_exec_result := res, ap_executed_at := Some t\<rparr>)"
  by (auto simp: row_after_def resolved_def live_def row_ok_def Let_def)

section \<open>Runs\<close>

record life =
  now_at :: instant
  ids_used :: "string list"
  rows_of :: "approval list"
  to_run :: "string list"
  was_run :: "string list"

definition life_start :: "life \<Rightarrow> bool" where
  "life_start s \<longleftrightarrow> ids_used s = [] \<and> rows_of s = [] \<and> to_run s = [] \<and> was_run s = []"

text \<open>\<open>code_ok = False\<close> is a failing confirmation code in \<^verbatim>\<open>handleApproveApproval\<close>, which leaves an approval that is
  never executed; the connector runs the action whatever it then returns.\<close>

inductive life_step :: "life \<Rightarrow> life \<Rightarrow> bool" where
  request: "InsertApproval (now_at s) p rid io_ok (ids_used s, rows_of s) = ((ids', rows'), r) \<Longrightarrow>
     life_step s (s\<lparr>ids_used := ids', rows_of := rows'\<rparr>)"
| approve: "ApproveApproval (now_at s) meta i u (rows_of s) = (rows', r) \<Longrightarrow>
     life_step s (s\<lparr>rows_of := rows', to_run := (case r of Inr _ \<Rightarrow> if code_ok then i # to_run s else to_run s | Inl _ \<Rightarrow> to_run s)\<rparr>)"
| deny: "DenyApproval (now_at s) meta i u reason (rows_of s) = (rows', r) \<Longrightarrow> life_step s (s\<lparr>rows_of := rows'\<rparr>)"
| deny_all: "DenyAllPendingStandaloneApprovals (now_at s) meta u (rows_of s) = (rows', r) \<Longrightarrow> life_step s (s\<lparr>rows_of := rows'\<rparr>)"
| cancel: "CancelApproval (now_at s) i ag (rows_of s) = (rows', r) \<Longrightarrow> life_step s (s\<lparr>rows_of := rows'\<rparr>)"
| execute: "i \<in> set (to_run s) \<Longrightarrow> UpdateApprovalExecution (now_at s) i st res io_ok (rows_of s) = (rows', r) \<Longrightarrow>
     life_step s (s\<lparr>to_run := remove1 i (to_run s), was_run := i # was_run s, rows_of := rows'\<rparr>)"
| tick: "0 \<le> d \<Longrightarrow> life_step s (s\<lparr>now_at := now_at s + d\<rparr>)"

text \<open>The effect of every statement on the rows: each row moves by \<open>row_after\<close> and stays well formed, and new rows have new keys.\<close>

definition rows_after :: "approval list \<Rightarrow> approval list \<Rightarrow> bool" where
  "rows_after rows rows' \<longleftrightarrow> (\<forall>a \<in> set rows. \<exists>b \<in> set rows'. row_after a b)"

definition rows_ok :: "approval list \<Rightarrow> bool" where
  "rows_ok rows \<longleftrightarrow> distinct (map ap_id rows) \<and> (\<forall>a \<in> set rows. row_ok a)"

lemma rows_after_refl: "rows_after rows rows"
  by (auto simp: rows_after_def intro: row_after_refl)

lemma rows_update:
  assumes "rows_ok rows" "\<And>a. a \<in> set rows \<Longrightarrow> p a \<Longrightarrow> row_ok a \<Longrightarrow> row_ok (f a) \<and> row_after a (f a)"
  shows "rows_ok (update_where p f rows)" "rows_after rows (update_where p f rows)"
proof -
  have r: "row_ok a" if "a \<in> set rows" for a using assms(1) that by (simp add: rows_ok_def)
  have "map ap_id (update_where p f rows) = map ap_id rows"
    using assms(2) r by (auto simp: update_where_def row_after_def)
  then show "rows_ok (update_where p f rows)"
    using assms r by (auto simp: rows_ok_def set_update_where)
  show "rows_after rows (update_where p f rows)"
    unfolding rows_after_def
  proof
    fix a assume a: "a \<in> set rows"
    then have "(if p a then f a else a) \<in> set (update_where p f rows)" by (auto simp: update_where_def)
    moreover have "row_after a (if p a then f a else a)" using assms(2) [OF a] r [OF a] row_after_refl by simp
    ultimately show "\<exists>b \<in> set (update_where p f rows). row_after a b" by (rule bexI [rotated])
  qed
qed

lemma resolve_rows:
  assumes "resolveApproval now meta i u new reason rows = (rows', r)" "rows_ok rows" "new \<in> {Approved, Denied}"
  shows "rows_ok rows'" "rows_after rows rows'"
proof -
  let ?p = "\<lambda>a. ap_id a = i \<and> ap_approver a = u \<and> live now a"
  consider "rows' = rows" | "rows' = update_where ?p (resolved now new reason) rows"
    using assms(1) by (auto simp: resolveApproval_def update_returning_def split: prod.splits option.splits)
  then show "rows_ok rows'" "rows_after rows rows'"
    using assms(2) rows_after_refl
      rows_update [of rows ?p "resolved now new reason", OF assms(2)] row_ok_resolved row_after_changes(1) assms(3)
    by (cases; blast)+
qed

lemma cancel_rows:
  assumes "CancelApproval now i ag rows = (rows', r)" "rows_ok rows"
  shows "rows_ok rows'" "rows_after rows rows'"
proof -
  let ?p = "\<lambda>a. ap_id a = i \<and> ap_agent a = ag \<and> live now a"
  let ?f = "\<lambda>a. a\<lparr>ap_status := Cancelled, ap_cancelled_at := Some (sql_now now)\<rparr>"
  consider "rows' = rows" | "rows' = update_where ?p ?f rows"
    using assms(1) by (auto simp: CancelApproval_def update_returning_def split: prod.splits option.splits)
  then show "rows_ok rows'" "rows_after rows rows'"
    using assms(2) rows_after_refl rows_update [of rows ?p ?f, OF assms(2)] row_ok_cancelled row_after_changes(2)
    by (cases; blast)+
qed

lemma deny_all_rows:
  assumes "DenyAllPendingStandaloneApprovals now meta u rows = (rows', r)" "rows_ok rows"
  shows "rows_ok rows'" "rows_after rows rows'"
proof -
  let ?p = "\<lambda>a. ap_approver a = u \<and> ap_group a = None \<and> live now a"
  let ?f = "\<lambda>a. a\<lparr>ap_status := Denied, ap_denied_at := Some (sql_now now)\<rparr>"
  consider "rows' = rows" | "rows' = update_where ?p ?f rows"
    using assms(1) by (auto simp: DenyAllPendingStandaloneApprovals_def Let_def split: if_splits)
  then show "rows_ok rows'" "rows_after rows rows'"
    using assms(2) rows_after_refl rows_update [of rows ?p ?f, OF assms(2)] row_ok_denied row_after_changes(3)
    by (cases; blast)+
qed

lemma execute_rows:
  assumes "UpdateApprovalExecution now i st res io_ok rows = (rows', r)" "rows_ok rows"
  shows "rows_ok rows'" "rows_after rows rows'"
proof -
  let ?p = "\<lambda>a. ap_id a = i \<and> ap_status a = Approved \<and> ap_executed_at a = None"
  let ?f = "\<lambda>a. a\<lparr>ap_exec_status := Some st, ap_exec_result := res, ap_executed_at := Some (sql_now now)\<rparr>"
  consider "rows' = rows" | "rows' = update_where ?p ?f rows"
    using assms(1) by (auto simp: UpdateApprovalExecution_def Let_def split: if_splits)
  then show "rows_ok rows'" "rows_after rows rows'"
    using assms(2) rows_after_refl rows_update [of rows ?p ?f, OF assms(2)] row_ok_executed row_after_changes(4)
    by (cases; blast)+
qed

lemma insert_rows:
  assumes "InsertApproval now p rid io_ok (ids, rows) = ((ids', rows'), r)" "rows_ok rows"
  shows "rows_ok rows'" "rows_after rows rows'"
proof -
  consider "rows' = rows" | "rows' = new_approval now p # rows" "in_id p \<notin> ap_id ` set rows"
    using assms(1) by (auto simp: InsertApproval_def split: if_splits)
  then show "rows_ok rows'" "rows_after rows rows'"
    using assms(2) row_ok_new row_after_refl
    by (cases; force simp: rows_ok_def rows_after_def new_approval_def)+
qed

section \<open>The invariant\<close>

definition runnable :: "approval list \<Rightarrow> string \<Rightarrow> bool" where
  "runnable rows i \<longleftrightarrow> (\<exists>a \<in> set rows. ap_id a = i \<and> ap_status a = Approved)"

definition life_inv :: "life \<Rightarrow> bool" where
  "life_inv s \<longleftrightarrow> rows_ok (rows_of s) \<and> distinct (to_run s @ was_run s) \<and>
     (\<forall>i \<in> set (to_run s @ was_run s). runnable (rows_of s) i)"

definition life_later :: "life \<Rightarrow> life \<Rightarrow> bool" where
  "life_later s t \<longleftrightarrow> rows_after (rows_of s) (rows_of t)"

lemma runnable_after: "runnable rows i \<Longrightarrow> rows_after rows rows' \<Longrightarrow> runnable rows' i"
  by (fastforce simp: runnable_def rows_after_def row_after_def)

lemma life_inv_rows:
  "life_inv s \<Longrightarrow> rows_ok rows' \<Longrightarrow> rows_after (rows_of s) rows' \<Longrightarrow> rows_of t = rows' \<Longrightarrow> to_run t = to_run s \<Longrightarrow>
    was_run t = was_run s \<Longrightarrow> life_inv t"
  using runnable_after by (simp add: life_inv_def) blast

lemma approve_fresh:
  assumes "ApproveApproval now meta i u rows = (rows', Inr r)" "rows_ok rows"
  shows "\<not> runnable rows i" "runnable rows' i"
proof -
  let ?p = "\<lambda>a. ap_id a = i \<and> ap_approver a = u \<and> live now a"
  obtain a where a: "find ?p rows = Some a" and rows': "rows' = update_where ?p (resolved now Approved []) rows"
    using assms(1) by (auto simp: approval_ops split: option.splits)
  then have m: "a \<in> set rows" "?p a" using find_SomeD [OF a] by blast+
  show "\<not> runnable rows i"
  proof
    assume "runnable rows i"
    then obtain b where b: "b \<in> set rows" "ap_id b = i" "ap_status b = Approved" by (auto simp: runnable_def)
    then have "b = a" using key_unique [of ap_id rows b a] assms(2) m by (simp add: rows_ok_def)
    with b m show False by (simp add: live_def)
  qed
  have "resolved now Approved [] a \<in> set rows'" using m by (auto simp: rows' set_update_where)
  moreover have "ap_id (resolved now Approved [] a) = i" "ap_status (resolved now Approved [] a) = Approved"
    using m by (simp_all add: resolved_def Let_def)
  ultimately show "runnable rows' i" by (auto simp: runnable_def)
qed

lemma life_step_inv: "life_inv s \<Longrightarrow> life_step s t \<Longrightarrow> life_inv t \<and> life_later s t"
proof -
  assume inv: "life_inv s" and st: "life_step s t"
  have ok: "rows_ok (rows_of s)" using inv by (simp add: life_inv_def)
  from st show ?thesis
  proof cases
    case (request p rid io_ok ids' rows' r)
    note q = insert_rows [OF request(2) ok]
    show ?thesis using life_inv_rows [OF inv q(1,2), of t] q by (simp add: request life_later_def)
  next
    case (approve meta i u rows' r code_ok)
    have q: "rows_ok rows'" "rows_after (rows_of s) rows'"
      using resolve_rows [of "now_at s" meta i u Approved "[]" "rows_of s" rows' r] approve(2) ok by (simp_all add: ApproveApproval_def)
    show ?thesis
    proof (cases "to_run t = to_run s")
      case True
      then show ?thesis using life_inv_rows [OF inv q(1,2), of t] q by (simp add: approve life_later_def)
    next
      case False
      then obtain x where r: "r = Inr x" and t: "to_run t = i # to_run s" by (auto simp: approve split: sum.splits if_splits)
      note f = approve_fresh [OF approve(2) [unfolded r] ok]
      have "i \<notin> set (to_run s @ was_run s)" using f(1) inv by (auto simp: life_inv_def)
      then have "life_inv t" using inv f(2) q runnable_after t by (simp add: approve(1) life_inv_def) blast
      then show ?thesis using q by (simp add: approve life_later_def)
    qed
  next
    case (deny meta i u reason rows' r)
    have q: "rows_ok rows'" "rows_after (rows_of s) rows'"
      using resolve_rows [of "now_at s" meta i u Denied reason "rows_of s" rows' r] deny(2) ok by (simp_all add: DenyApproval_def)
    show ?thesis using life_inv_rows [OF inv q(1,2), of t] q by (simp add: deny life_later_def)
  next
    case (deny_all meta u rows' r)
    note q = deny_all_rows [OF deny_all(2) ok]
    show ?thesis using life_inv_rows [OF inv q(1,2), of t] q by (simp add: deny_all life_later_def)
  next
    case (cancel i ag rows' r)
    note q = cancel_rows [OF cancel(2) ok]
    show ?thesis using life_inv_rows [OF inv q(1,2), of t] q by (simp add: cancel life_later_def)
  next
    case (execute i st res io_ok rows' r)
    note q = execute_rows [OF execute(3) ok]
    have "distinct (remove1 i (to_run s) @ i # was_run s)" "set (remove1 i (to_run s) @ i # was_run s) \<subseteq> set (to_run s @ was_run s)"
      using inv execute(2) set_remove1_subset [of i "to_run s"] by (auto simp: life_inv_def)
    then have "life_inv t" using inv q runnable_after by (simp add: execute(1) life_inv_def) blast
    then show ?thesis using q by (simp add: execute life_later_def)
  next
    case (tick d)
    then show ?thesis using inv by (simp add: life_inv_def life_later_def rows_after_refl)
  qed
qed

lemma rows_after_trans: "rows_after a b \<Longrightarrow> rows_after b c \<Longrightarrow> rows_after a c"
  using row_after_trans unfolding rows_after_def by meson

interpretation life: system life_start life_step life_inv life_later
proof unfold_locales
  show "life_start s \<Longrightarrow> life_inv s" for s by (simp add: life_start_def life_inv_def rows_ok_def)
  show "life_inv s \<Longrightarrow> life_step s t \<Longrightarrow> life_inv t" for s t using life_step_inv by blast
  show "life_inv s \<Longrightarrow> life_step s t \<Longrightarrow> life_later s t" for s t using life_step_inv by blast
  show "life_later s s" for s by (simp add: life_later_def rows_after_refl)
  show "life_later s t \<Longrightarrow> life_later t u \<Longrightarrow> life_later s u" for s t u
    unfolding life_later_def by (rule rows_after_trans)
qed

section \<open>An abstract register\<close>

text \<open>What the dashboard and the agent rely on: an entry per approval with its owner, its agent, its status and its
  deadline in seconds; whoever may resolve it does so once, before the deadline.\<close>

type_synonym register = "string \<Rightarrow> (string \<times> int \<times> approval_status \<times> int) option"

definition abs_approval :: "approval \<Rightarrow> string \<times> int \<times> approval_status \<times> int" where
  "abs_approval a = (ap_approver a, ap_agent a, ap_status a, datetime (ap_expires a))"

definition register_of :: "approval list \<Rightarrow> register" where
  "register_of rows = (\<lambda>i. map_option abs_approval (GetApprovalByID i rows))"

definition spec_resolve :: "int \<Rightarrow> (string \<Rightarrow> int \<Rightarrow> bool) \<Rightarrow> string \<Rightarrow> approval_status \<Rightarrow> register \<Rightarrow> register \<times> approval_error option" where
  "spec_resolve now mine i new m =
     (case m i of
        None \<Rightarrow> (m, Some NotFound)
      | Some (u, ag, st, deadline) \<Rightarrow>
          if \<not> mine u ag then (m, Some NotFound)
          else if st \<noteq> Pending then (m, Some (AlreadyResolved st))
          else if deadline \<le> now then (m, Some Expired)
          else (m(i \<mapsto> (u, ag, new, deadline)), None))"

definition error_of :: "approval_error + 'a \<Rightarrow> approval_error option" where
  "error_of r = (case r of Inl e \<Rightarrow> Some e | Inr _ \<Rightarrow> None)"

lemma find_update_where:
  "(\<And>a. ap_id (f a) = ap_id a) \<Longrightarrow>
    find (\<lambda>a. ap_id a = j) (update_where p f rows) = map_option (\<lambda>a. if p a then f a else a) (find (\<lambda>a. ap_id a = j) rows)"
  by (induction rows) (auto simp: update_where_def)

lemma find_own:
  assumes "distinct (map ap_id rows)" "find (\<lambda>a. ap_id a = i) rows = Some a"
  shows "find (\<lambda>b. ap_id b = i \<and> q b) rows = (if q a then Some a else None)"
proof -
  have a: "a \<in> set rows" "ap_id a = i" using find_SomeD [OF assms(2)] by blast+
  show ?thesis
  proof (cases "q a")
    case True
    have "find (\<lambda>b. ap_id b = i \<and> q b) rows = Some a"
      by (rule find_key [of ap_id, OF assms(1) a(1)]) (simp_all add: a(2) True)
    with True show ?thesis by simp
  next
    case False
    have "\<not> (ap_id b = i \<and> q b)" if "b \<in> set rows" for b
      using key_unique [OF assms(1) that a(1)] False a(2) by auto
    then show ?thesis using False by (simp add: find_None_iff)
  qed
qed

lemma update_one:
  assumes "distinct (map ap_id rows)" "find (\<lambda>a. ap_id a = i) rows = Some a" "q a"
    and "\<And>b. ap_id (f b) = ap_id b" "abs_approval (f a) = (ap_approver a, ap_agent a, new, datetime (ap_expires a))"
  shows "register_of (update_where (\<lambda>b. ap_id b = i \<and> q b) f rows) =
    (register_of rows)(i \<mapsto> (ap_approver a, ap_agent a, new, datetime (ap_expires a)))"
proof
  fix j
  show "register_of (update_where (\<lambda>b. ap_id b = i \<and> q b) f rows) j =
    ((register_of rows)(i \<mapsto> (ap_approver a, ap_agent a, new, datetime (ap_expires a)))) j"
  proof (cases "j = i")
    case True
    have "ap_id a = i" using find_SomeD [OF assms(2)] by blast
    then show ?thesis using True assms
      by (simp add: register_of_def GetApprovalByID_def find_update_where)
  next
    case False
    have "map_option (abs_approval \<circ> (\<lambda>a. if ap_id a = i \<and> q a then f a else a)) (find (\<lambda>a. ap_id a = j) rows)
        = map_option abs_approval (find (\<lambda>a. ap_id a = j) rows)"
      using False by (intro map_option_cong refl) (auto dest: find_SomeD)
    then show ?thesis using False assms(4)
      by (simp add: register_of_def GetApprovalByID_def find_update_where option.map_comp)
  qed
qed

lemma abs_resolved:
  "abs_approval (resolved now new reason a) = (ap_approver a, ap_agent a, new, datetime (ap_expires a))"
  "ap_id (resolved now new reason a) = ap_id a" "ap_agent (resolved now new reason a) = ap_agent a"
  by (simp_all add: abs_approval_def resolved_def Let_def)

lemma resolve_refines:
  assumes d: "distinct (map ap_id rows)" and fk: "\<And>a. a \<in> set rows \<Longrightarrow> meta (ap_agent a) \<noteq> None"
  shows "(case resolveApproval now meta i u new reason rows of (rows', r) \<Rightarrow> (register_of rows', error_of r)) =
    spec_resolve (datetime now) (\<lambda>u' ag. u' = u) i new (register_of rows)"
proof (cases "find (\<lambda>a. ap_id a = i) rows")
  case None
  then have "find (\<lambda>a. ap_id a = i \<and> q a) rows = None" for q by (auto simp: find_None_iff)
  then show ?thesis using None
    by (simp add: resolveApproval_def update_returning_def diagnoseApprovalFailure_def GetApprovalByIDAndApprover_def
      spec_resolve_def register_of_def GetApprovalByID_def error_of_def)
next
  case (Some a)
  note own = find_own [OF d Some]
  have r: "register_of rows i = Some (abs_approval a)" by (simp add: register_of_def GetApprovalByID_def Some)
  obtain m where m: "meta (ap_agent a) = Some m" using fk find_SomeD [OF Some] by blast
  show ?thesis
  proof (cases "ap_approver a = u \<and> live now a")
    case True
    have "register_of (update_where (\<lambda>b. ap_id b = i \<and> ap_approver b = u \<and> live now b) (resolved now new reason) rows) =
        (register_of rows)(i \<mapsto> (ap_approver a, ap_agent a, new, datetime (ap_expires a)))"
      using update_one [OF d Some, of "\<lambda>b. ap_approver b = u \<and> live now b" "resolved now new reason" new] True
      by (simp add: abs_resolved)
    then show ?thesis using True own [of "\<lambda>b. ap_approver b = u \<and> live now b"] m r
      by (simp add: resolveApproval_def update_returning_def abs_resolved spec_resolve_def error_of_def abs_approval_def live_def)
  next
    case False
    then show ?thesis using own [of "\<lambda>b. ap_approver b = u \<and> live now b"] own [of "\<lambda>b. ap_approver b = u"] r
      by (auto simp: resolveApproval_def update_returning_def spec_resolve_def error_of_def abs_approval_def live_def
        diagnoseApprovalFailure_def GetApprovalByIDAndApprover_def)
  qed
qed

lemma cancel_refines:
  assumes d: "distinct (map ap_id rows)"
  shows "(case CancelApproval now i ag rows of (rows', r) \<Rightarrow> (register_of rows', error_of r)) =
    spec_resolve (datetime now) (\<lambda>u ag'. ag' = ag) i Cancelled (register_of rows)"
proof (cases "find (\<lambda>a. ap_id a = i) rows")
  case None
  then have "find (\<lambda>a. ap_id a = i \<and> q a) rows = None" for q by (auto simp: find_None_iff)
  then show ?thesis using None
    by (simp add: CancelApproval_def update_returning_def diagnoseAgentApprovalFailure_def GetApprovalByIDAndAgent_def
      spec_resolve_def register_of_def GetApprovalByID_def error_of_def)
next
  case (Some a)
  note own = find_own [OF d Some]
  let ?f = "\<lambda>a. a\<lparr>ap_status := Cancelled, ap_cancelled_at := Some (sql_now now)\<rparr>"
  have r: "register_of rows i = Some (abs_approval a)" by (simp add: register_of_def GetApprovalByID_def Some)
  show ?thesis
  proof (cases "ap_agent a = ag \<and> live now a")
    case True
    have "register_of (update_where (\<lambda>b. ap_id b = i \<and> ap_agent b = ag \<and> live now b) ?f rows) =
        (register_of rows)(i \<mapsto> (ap_approver a, ap_agent a, Cancelled, datetime (ap_expires a)))"
      using update_one [OF d Some, of "\<lambda>b. ap_agent b = ag \<and> live now b" ?f Cancelled] True
      by (simp add: abs_approval_def)
    then show ?thesis using True own [of "\<lambda>b. ap_agent b = ag \<and> live now b"] r
      by (simp add: CancelApproval_def update_returning_def spec_resolve_def error_of_def abs_approval_def live_def)
  next
    case False
    then show ?thesis using own [of "\<lambda>b. ap_agent b = ag \<and> live now b"] own [of "\<lambda>b. ap_agent b = ag"] r
      by (auto simp: CancelApproval_def update_returning_def spec_resolve_def error_of_def abs_approval_def live_def
        diagnoseAgentApprovalFailure_def GetApprovalByIDAndAgent_def)
  qed
qed

section \<open>Properties\<close>

text \<open>C31: An approved action runs at most once. In every run of requests, approvals, denials, cancellations, executions and
  clock ticks, in any order and with any failure of the database, of the confirmation code or of the connector, no
  approval is executed twice, and each executed one was approved in a second before its deadline.\<close>

theorem approval_runs_once:
  assumes "reach life_start life_step s"
  shows "distinct (was_run s) \<and>
    (\<forall>i \<in> set (was_run s). \<exists>a \<in> set (rows_of s). ap_id a = i \<and> ap_status a = Approved \<and>
       (case ap_approved_at a of None \<Rightarrow> False | Some t \<Rightarrow> datetime t < datetime (ap_expires a)))"
proof -
  have inv: "life_inv s" using life.invariant [OF assms] .
  have "\<exists>a \<in> set (rows_of s). ap_id a = i \<and> ap_status a = Approved \<and>
      (case ap_approved_at a of None \<Rightarrow> False | Some t \<Rightarrow> datetime t < datetime (ap_expires a))" if "i \<in> set (was_run s)" for i
  proof -
    note i = that
    obtain a where a: "a \<in> set (rows_of s)" "ap_id a = i" "ap_status a = Approved"
      using inv i by (auto simp: life_inv_def runnable_def)
    then have "row_ok a" using inv by (simp add: life_inv_def rows_ok_def)
    with a show ?thesis by (intro bexI [of _ a]) (auto simp: row_ok_def first_some_def split: option.splits)
  qed
  then show ?thesis using inv by (simp add: life_inv_def)
qed

lemma life_to: "reach life_start life_step s \<Longrightarrow> life_step s u \<Longrightarrow> u = t \<Longrightarrow> reach life_start life_step t"
  by (metis reach_step)

definition example_params :: approval_params where
  "example_params = \<lparr>in_id = ''appr_1'', in_agent = 7, in_approver = ''user'', in_group = None, in_action = ''{}'', in_context = ''{}'',
     in_resource = None, in_fingerprint = [], in_expires = 600000000000\<rparr>"

definition example_approved :: approval where
  "example_approved = resolved 5000000000 Approved [] (new_approval 0 example_params)"

lemma example_run:
  "reach life_start life_step \<lparr>now_at = 5000000000, ids_used = [''r1''], rows_of = [example_approved], to_run = [''appr_1''], was_run = []\<rparr>"
proof -
  have 0: "reach life_start life_step \<lparr>now_at = 0, ids_used = [], rows_of = [], to_run = [], was_run = []\<rparr>"
    by (rule reach_start) (simp add: life_start_def)
  have "InsertApproval 0 example_params ''r1'' True ([], []) =
      (([''r1''], [new_approval 0 example_params]), Inr (new_approval 0 example_params))"
    by (simp add: InsertApproval_def)
  then have 1: "reach life_start life_step \<lparr>now_at = 0, ids_used = [''r1''], rows_of = [new_approval 0 example_params], to_run = [], was_run = []\<rparr>"
    by (intro life_to [OF 0 life_step.request]) simp_all
  have 2: "reach life_start life_step \<lparr>now_at = 5000000000, ids_used = [''r1''], rows_of = [new_approval 0 example_params], to_run = [], was_run = []\<rparr>"
    by (rule life_to [OF 1 life_step.tick [of 5000000000]]) simp_all
  have ap: "ApproveApproval 5000000000 (\<lambda>_. Some None) ''appr_1'' ''user'' [new_approval 0 example_params] =
      ([example_approved], Inr (example_approved, None))"
    by (simp add: approval_ops update_where_def new_approval_def example_params_def example_approved_def live_def datetime_def ns_per_sec_def)
  let ?s = "\<lparr>now_at = 5000000000, ids_used = [''r1''], rows_of = [new_approval 0 example_params], to_run = [], was_run = []\<rparr>"
  have "life_step ?s (?s\<lparr>rows_of := [example_approved], to_run := [''appr_1'']\<rparr>)"
    using life_step.approve [of ?s "\<lambda>_. Some None" "''appr_1''" "''user''" "[example_approved]" "Inr (example_approved, None)" True] ap
    by (simp only: life.simps sum.case if_True)
  then show ?thesis by (rule life_to [OF 2]) simp
qed

theorem approval_runs_once_witness:
  "distinct [''appr_1''] \<and> (\<exists>a \<in> set [example_approved\<lparr>ap_exec_status := Some ''success'', ap_exec_result := None, ap_executed_at := Some 5000000000\<rparr>].
     ap_id a = ''appr_1'' \<and> ap_status a = Approved \<and> (case ap_approved_at a of None \<Rightarrow> False | Some t \<Rightarrow> datetime t < datetime (ap_expires a)))"
proof -
  let ?b = "example_approved\<lparr>ap_exec_status := Some ''success'', ap_exec_result := None, ap_executed_at := Some 5000000000\<rparr>"
  have "UpdateApprovalExecution 5000000000 ''appr_1'' ''success'' None True [example_approved] = ([?b], None)"
    by (simp add: UpdateApprovalExecution_def update_where_def example_approved_def resolved_def new_approval_def example_params_def Let_def sql_now_def)
  note up = this
  let ?s = "\<lparr>now_at = 5000000000, ids_used = [''r1''], rows_of = [example_approved], to_run = [''appr_1''], was_run = []\<rparr>"
  have "life_step ?s (?s\<lparr>to_run := remove1 ''appr_1'' [''appr_1''], was_run := [''appr_1''], rows_of := [?b]\<rparr>)"
    using life_step.execute [of "''appr_1''" ?s "''success''" None True "[?b]" None] up
    by (simp only: life.simps list.set insertI1)
  then have "reach life_start life_step \<lparr>now_at = 5000000000, ids_used = [''r1''], rows_of = [?b], to_run = [], was_run = [''appr_1'']\<rparr>"
    by (rule life_to [OF example_run]) simp
  from approval_runs_once [OF this] show ?thesis unfolding life.simps by (elim conjE ballE [of _ _ "''appr_1''"], intro conjI; simp only: list.set insertI1)
qed



text \<open>C33: The SQL statements refine the register of approvals: approving and denying by an approver and cancelling by an agent
  have exactly the effect and the error of the abstract operation, which looks the entry up, checks the owner,
  the status and the deadline, and sets the status of that entry alone.\<close>

theorem approvals_refine_register:
  assumes "distinct (map ap_id rows)" "\<And>a. a \<in> set rows \<Longrightarrow> meta (ap_agent a) \<noteq> None"
  shows "(case ApproveApproval now meta i u rows of (rows', r) \<Rightarrow> (register_of rows', error_of r)) =
      spec_resolve (datetime now) (\<lambda>u' ag. u' = u) i Approved (register_of rows)
    \<and> (case DenyApproval now meta i u reason rows of (rows', r) \<Rightarrow> (register_of rows', error_of r)) =
      spec_resolve (datetime now) (\<lambda>u' ag. u' = u) i Denied (register_of rows)
    \<and> (case CancelApproval now i agent rows of (rows', r) \<Rightarrow> (register_of rows', error_of r)) =
      spec_resolve (datetime now) (\<lambda>u ag. ag = agent) i Cancelled (register_of rows)"
  using resolve_refines [where rows = rows and meta = meta, OF assms] cancel_refines [OF assms(1)] by (simp add: ApproveApproval_def DenyApproval_def)

theorem approvals_refine_register_witness:
  "(case ApproveApproval 5000000000 (\<lambda>_. Some None) ''appr_1'' ''user'' [new_approval 0 example_params] of (rows', r) \<Rightarrow> (register_of rows', error_of r)) =
      spec_resolve 5 (\<lambda>u' ag. u' = ''user'') ''appr_1'' Approved (register_of [new_approval 0 example_params])"
  using approvals_refine_register [of "[new_approval 0 example_params]" "\<lambda>_. Some None" 5000000000 "''appr_1''" "''user''", THEN conjunct1]
  by (simp add: datetime_def ns_per_sec_def)

end
