(* ===== verification/ApprovalListing.thy ===== *)
theory ApprovalListing
  imports ApprovalLifecycle
begin

text \<open>
  The listings of approvals: the paging contract of \<^verbatim>\<open>ListApprovalsByApproverPaginated\<close> under the times for which the
  bound cursor text is the stored text, the endless walk for the others, and the heartbeat sweep.
\<close>

section \<open>Texts of stored times\<close>

lemma nat_str_times_ten: "0 < n \<Longrightarrow> nat_str (n * 10) = nat_str n @ ''0''"
proof -
  assume n: "0 < n"
  have "nat_str (n * 10) = nat_str (n * 10 div 10) @ [digit_char (n * 10 mod 10)]"
    using n by (subst nat_str.simps) simp
  moreover have "char_of (48 :: nat) = CHR ''0''" by code_simp
  ultimately show ?thesis by (simp add: digit_char_def)
qed

lemma nat_str_million: "0 < n \<Longrightarrow> nat_str (n * 1000000) = nat_str n @ ''000000''"
proof -
  assume n: "0 < n"
  have "n * 1000000 = n * 10 * 10 * 10 * 10 * 10 * 10" by simp
  then show ?thesis using n by (simp only: nat_str_times_ten) simp
qed

lemma trim_zeros_append: "trim_zeros (s @ ''000000'') = trim_zeros s"
  by (simp add: trim_zeros_def)

lemma last_nat_str: "last (nat_str n) = digit_char (n mod 10)"
  by (subst nat_str.simps) (simp add: digit_char_def)

lemma trim_zeros_nat: "n mod 10 \<noteq> 0 \<Longrightarrow> trim_zeros (p @ nat_str n) = p @ nat_str n"
proof -
  assume n: "n mod 10 \<noteq> 0"
  define q where "q = butlast (nat_str n)"
  have s: "nat_str n = q @ [last (nat_str n)]" unfolding q_def by (rule append_butlast_last_id [symmetric]) simp
  have "last (nat_str n) \<noteq> CHR ''0''"
  proof
    assume "last (nat_str n) = CHR ''0''"
    then have "(of_char (digit_char (n mod 10)) :: nat) = 48" by (simp add: last_nat_str)
    then show False using n by (simp add: digit_char_def)
  qed
  then have "dropWhile (\<lambda>c. c = CHR ''0'') (rev (p @ q @ [last (nat_str n)])) = rev (p @ q @ [last (nat_str n)])"
    by (simp del: last_ConsR)
  then show ?thesis unfolding trim_zeros_def using s by (metis rev_rev_ident)
qed

text \<open>A stored time has whole milliseconds. Its two texts agree when the last of the three digits is not a zero.\<close>

definition stored_time :: "instant \<Rightarrow> bool" where
  "stored_time t \<longleftrightarrow> t mod 1000000 = 0"

definition exact_text :: "instant \<Rightarrow> bool" where
  "exact_text t \<longleftrightarrow> stored_time t \<and> (t div 1000000) mod 10 \<noteq> 0"

lemma length_nat_str_le: "n < 10 ^ k \<Longrightarrow> 0 < k \<Longrightarrow> length (nat_str n) \<le> k"
proof (induction k arbitrary: n)
  case (Suc k)
  show ?case
  proof (cases "n < 10")
    case True
    then show ?thesis by (subst nat_str.simps) simp
  next
    case False
    then have "k \<noteq> 0" using Suc.prems(1) by (cases k) auto
    moreover have "n div 10 < 10 ^ k" using Suc.prems(1) by (simp add: less_mult_imp_div_less mult.commute)
    ultimately have "length (nat_str (n div 10)) \<le> k" using Suc.IH by simp
    then show ?thesis using False by (subst nat_str.simps) simp
  qed
qed simp

lemma exact_texts: "exact_text t \<Longrightarrow> TimestampForSQLite t = strftime_text t"
proof -
  assume e: "exact_text t"
  define m where "m = nat (t div 1000000 mod 1000)"
  have t: "(t div 1000000) * 1000000 = t" using e div_mult_mod_eq [of t 1000000] by (simp add: exact_text_def stored_time_def)
  have "((t div 1000000) * 1000000) mod (1000 * 1000000) = (t div 1000000 mod 1000) * 1000000" by (rule mod_mult_mult2)
  then have md: "t mod ns_per_sec = (t div 1000000 mod 1000) * 1000000" unfolding t by (simp add: ns_per_sec_def)
  have m: "int m = t div 1000000 mod 1000" by (simp add: m_def)
  then have f: "nat \<bar>t mod ns_per_sec\<bar> = m * 1000000" "nat \<bar>t mod ns_per_sec div 1000000\<bar> = m" "0 \<le> t mod ns_per_sec" "0 \<le> t mod ns_per_sec div 1000000"
    unfolding md by (simp_all flip: m)
  have d: "m mod 10 \<noteq> 0"
  proof -
    have "int (m mod 10) = t div 1000000 mod 10" using m by (simp add: zmod_int mod_mod_cancel)
    then show ?thesis using e by (auto simp: exact_text_def)
  qed
  then have m0: "0 < m" by (cases m) auto
  have "int m < 1000" unfolding m by simp
  then have l: "length (nat_str m) \<le> 3" by (intro length_nat_str_le) simp_all
  have "pad 9 (t mod ns_per_sec) = (replicate (3 - length (nat_str m)) CHR ''0'' @ nat_str m) @ ''000000''"
    using l f by (simp add: pad_def Let_def nat_str_million [OF m0])
  then have "trim_zeros (pad 9 (t mod ns_per_sec)) = replicate (3 - length (nat_str m)) CHR ''0'' @ nat_str m"
    by (simp only: trim_zeros_append trim_zeros_nat [OF d])
  moreover have "pad 3 (t mod ns_per_sec div 1000000) = replicate (3 - length (nat_str m)) CHR ''0'' @ nat_str m"
    using f by (simp add: pad_def Let_def)
  moreover have "t mod ns_per_sec \<noteq> 0" using f(1) m0 by auto
  ultimately show ?thesis by (simp add: TimestampForSQLite_def strftime_text_def Let_def)
qed

section \<open>The paging contract\<close>

interpretation approval_pages: paged approval_key approval_cursor "\<lambda>a. exact_text (ap_created a)"
  by unfold_locales (simp add: approval_key_def approval_cursor_def exact_texts)

lemma approval_key_distinct: "distinct (map ap_id rows) \<Longrightarrow> distinct (map approval_key rows)"
  by (auto simp: distinct_map inj_on_def approval_key_def)

text \<open>C37: A client that follows the cursors of the approval list sees every selected approval of the approver once, newest first,
  whatever the filter and the limit, and the walk ends, as long as no creation time has a zero as its third
  digit of a millisecond.\<close>

theorem approval_pages_complete:
  assumes "distinct (map ap_id rows)" "\<forall>a \<in> set rows. exact_text (ap_created a)"
  shows "follow_pages (length rows + 1) (\<lambda>k. ListApprovalsByApproverPaginated now u flt limit k rows) approval_cursor None =
    Some (rev (sort_key approval_key (filter (\<lambda>a. ap_approver a = u \<and> selected now flt a) rows)))"
proof -
  let ?sel = "filter (\<lambda>a. ap_approver a = u \<and> selected now flt a) rows"
  have d: "distinct (map approval_key ?sel)" using approval_key_distinct [OF assms(1)] by (rule distinct_map_filter)
  have g: "\<forall>a \<in> set ?sel. exact_text (ap_created a)" using assms(2) by simp
  have l: "1 \<le> clamp_limit limit" using clamp_limit_range by blast
  have n: "length ?sel < length rows + 1" using length_filter_le [of _ rows] by (simp add: le_imp_less_Suc)
  show ?thesis
    unfolding ListApprovalsByApproverPaginated_def approval_pages.newest_first_def [symmetric]
    by (rule approval_pages.follow_suffix [OF d g l, of "[]"])
      (use n in \<open>simp_all add: approval_pages.page_first approval_pages.newest_first_def\<close>)
qed

definition example_row :: "string \<Rightarrow> instant \<Rightarrow> approval" where
  "example_row i t = (new_approval t example_params)\<lparr>ap_id := i\<rparr>"

lemma example_rows_ok: "distinct (map ap_id [example_row ''a'' 1000000, example_row ''b'' 1000000])"
  "\<forall>a \<in> set [example_row ''a'' 1000000, example_row ''b'' 1000000]. exact_text (ap_created a)"
  by (simp_all add: example_row_def new_approval_def exact_text_def stored_time_def sql_now_def)

theorem approval_pages_complete_witness:
  "follow_pages (length [example_row ''a'' 1000000, example_row ''b'' 1000000] + 1)
     (\<lambda>k. ListApprovalsByApproverPaginated 2000000 ''user'' FilterPending 1 k [example_row ''a'' 1000000, example_row ''b'' 1000000]) approval_cursor None =
    Some (rev (sort_key approval_key (filter (\<lambda>a. ap_approver a = ''user'' \<and> selected 2000000 FilterPending a)
      [example_row ''a'' 1000000, example_row ''b'' 1000000])))"
  by (rule approval_pages_complete [OF example_rows_ok])

lemma append_le: "(p @ a :: string) \<le> p @ b \<longleftrightarrow> a \<le> b"
  by (induction p) auto

lemma append_less: "(p @ a :: string) < p @ b \<longleftrightarrow> a < b"
  by (induction p) auto

lemma same_page_forever:
  assumes "page None = ([r], True)" "page (Some (cursor r)) = ([r], True)"
  shows "follow_pages n page cursor None = None"
proof -
  have "follow_pages n page cursor k = None" if "k \<in> {None, Some (cursor r)}" for k
    using that assms by (induction n arbitrary: k) auto
  then show ?thesis by simp
qed

text \<open>With a creation time on a full second the walk never ends: the bound cursor text has no fraction and sorts after the
  stored text, so the next page is the same page again, however long the client goes on.\<close>

theorem approval_pages_loop:
  "\<exists>rows. distinct (map ap_id rows) \<and> length rows = 2 \<and>
     (\<forall>n. follow_pages n (\<lambda>k. ListApprovalsByApproverPaginated 2000000 ''user'' FilterPending 1 k rows) approval_cursor None = None)"
proof -
  let ?rows = "[example_row ''a'' 0, example_row ''b'' 0]"
  let ?page = "\<lambda>k. ListApprovalsByApproverPaginated 2000000 ''user'' FilterPending 1 k ?rows"
  let ?T = "strftime_text 0" and ?C = "TimestampForSQLite 0"
  have less: "?T < ?C"
    by (simp add: strftime_text_def TimestampForSQLite_def append_less)
  have keys: "approval_key (example_row i 0) = (?T, i)" "approval_cursor (example_row i 0) = (?C, i)" for i
    by (simp_all add: approval_key_def approval_cursor_def example_row_def new_approval_def sql_now_def)
  have sel: "filter (\<lambda>a. ap_approver a = ''user'' \<and> selected 2000000 FilterPending a) ?rows = ?rows"
    by (simp add: example_row_def new_approval_def example_params_def selected_def live_def datetime_def ns_per_sec_def)
  have lim: "clamp_limit 1 = 1" by (simp add: clamp_limit_def)
  have "?page None = ([example_row ''b'' 0], True)"
    unfolding ListApprovalsByApproverPaginated_def sel lim by (simp add: fetch_page_def Let_def keys)
  moreover have "?page (Some (approval_cursor (example_row ''b'' 0))) = ([example_row ''b'' 0], True)"
    unfolding ListApprovalsByApproverPaginated_def sel lim by (simp add: fetch_page_def Let_def keys less)
  ultimately have "follow_pages n ?page approval_cursor None = None" for n by (rule same_page_forever)
  moreover have "distinct (map ap_id ?rows)" "length ?rows = 2" by (simp_all add: example_row_def)
  ultimately show ?thesis by blast
qed

section \<open>Sweeps\<close>

text \<open>The heartbeat sweep hides expired approvals: a pending row whose deadline passed is only listed when its deadline lies on a
  later UTC date than the time asked since, because SQLite's text of a date and time has a space where the bound
  text has a T.\<close>

theorem sweep_hides_expired:
  assumes "ap_status a = Pending" "datetime (ap_expires a) \<le> datetime now" "format_date (ap_expires a) = format_date since"
  shows "\<not> in_sweep now since a"
proof -
  have "\<not> TimestampForSQLite since \<le> datetime_text (ap_expires a)"
    by (simp add: TimestampForSQLite_def datetime_text_def format_seconds_def Let_def assms(3) append_le)
  then show ?thesis using assms by (simp add: in_sweep_def live_def)
qed

theorem sweep_hides_expired_witness:
  "\<not> in_sweep 700000000000 0 (example_row ''a'' 0)"
  by (rule sweep_hides_expired)
    (simp_all add: example_row_def new_approval_def example_params_def datetime_def ns_per_sec_def format_date_def ns_per_day_def)

end
