(* ===== verification/RelativeDates.thy ===== *)
theory RelativeDates
  imports StructuredEvaluation
begin

text \<open>
  Relative date tokens in constraints (\<^verbatim>\<open>@today\<close>, \<^verbatim>\<open>@yesterday\<close>, \<^verbatim>\<open>@now\<close>, \<^verbatim>\<open>-7d\<close>): \<^verbatim>\<open>db/relative_date.go\<close>,
  \<^verbatim>\<open>db/relative_date_constraints.go\<close>, \<^verbatim>\<open>db/action_schema_datetime.go\<close> and \<^verbatim>\<open>api/relative_date_constraints.go\<close>. The only
  location the program passes is UTC, where a day has 86400 seconds; instants are exact, so \<^verbatim>\<open>AddDate\<close> does not
  overflow for tokens of a huge number of days.
\<close>

section \<open>Resolving tokens\<close>

definition IsRelativeDateToken :: "string \<Rightarrow> bool" where
  "IsRelativeDateToken s \<longleftrightarrow> ValidateRelativeDateToken s = None"

definition midnight :: "instant \<Rightarrow> instant" where
  "midnight t = (t div ns_per_day) * ns_per_day"

definition ResolveRelativeDateToken :: "string \<Rightarrow> instant \<Rightarrow> instant result" where
  "ResolveRelativeDateToken token0 now =
     (let token = trim_space token0
      in case ValidateRelativeDateToken token of
           Some e \<Rightarrow> Inl e
         | None \<Rightarrow>
             if token = ''@today'' then Inr (midnight now)
             else if token = ''@yesterday'' then Inr (midnight (now - ns_per_day))
             else if token = ''@now'' then Inr now
             else (case relativeDateOffset token of
                 None \<Rightarrow> Inl (OtherErr (''invalid relative date token '' @ quoted token))
               | Some ds \<Rightarrow> Inr (now - (case parse_int ds of None \<Rightarrow> 0 | Some d \<Rightarrow> d) * ns_per_day)))"

datatype bound_role = Lower | Upper | Exact

definition RelativeDateBoundRoleForToken :: "string \<Rightarrow> string \<Rightarrow> bound_role" where
  "RelativeDateBoundRoleForToken token schemaRole =
     (if trim_space schemaRole = ''lower'' then Lower
      else if trim_space schemaRole = ''upper'' then Upper
      else if trim_space token = ''@now'' then Upper else Lower)"

definition parseFlexibleDateTime :: "string \<Rightarrow> instant option" where
  "parseFlexibleDateTime s = (case parse_rfc3339 s of Some t \<Rightarrow> Some t | None \<Rightarrow> parse_date s)"

definition ExecValueWithinRelativeDateBound :: "string \<Rightarrow> string \<Rightarrow> raw \<Rightarrow> bound_role \<Rightarrow> instant \<Rightarrow> go_error option" where
  "ExecValueWithinRelativeDateBound param token execValue role now =
     (if execValue = Empty then None
      else (case unmarshal json_string execValue of
          None \<Rightarrow> Some (ConfigErr param ''value must be a string timestamp for relative date constraint'')
        | Some s \<Rightarrow>
            if s = [] then None
            else (case ResolveRelativeDateToken token now of
                Inl e \<Rightarrow> Some e
              | Inr bound \<Rightarrow> (case parseFlexibleDateTime s of
                  None \<Rightarrow> Some (ConfigErr param (''value must be a valid timestamp for relative date constraint '' @ quoted token))
                | Some t \<Rightarrow>
                    (case role of
                       Upper \<Rightarrow> if bound < t then Some (ConfigErr param (''value must be on or before relative date bound '' @ quoted token)) else None
                     | Exact \<Rightarrow> if t \<noteq> bound then Some (ConfigErr param (''value must match relative date bound '' @ quoted token)) else None
                     | Lower \<Rightarrow> if t < bound then Some (ConfigErr param (''value must be on or after relative date bound '' @ quoted token)) else None)))))"

definition marshalRelativeDateValue :: "instant \<Rightarrow> string \<Rightarrow> json" where
  "marshalRelativeDateValue t format = (if format = ''date'' then JStr (format_date t) else marshalRFC3339 t)"

section \<open>Temporal fields of an action schema\<close>

record date_time_field =
  Format :: string
  Role :: string

definition parsePropertyDateTimeInfo :: "json \<Rightarrow> date_time_field option result" where
  "parsePropertyDateTimeInfo propRaw =
     (case json_map propRaw of
        None \<Rightarrow> Inl (OtherErr ''cannot unmarshal property'')
      | Some prop \<Rightarrow>
          (let str = (\<lambda>m k. case map_of m k of None \<Rightarrow> [] | Some j \<Rightarrow> (case json_string j of None \<Rightarrow> [] | Some s \<Rightarrow> s));
               format = str prop ''format''
           in if format \<noteq> ''date-time'' \<and> format \<noteq> ''date'' then Inr None
              else (let role = (case map_of prop ''x-ui'' of
                        None \<Rightarrow> []
                      | Some x \<Rightarrow> (case json_map x of None \<Rightarrow> [] | Some xui \<Rightarrow> str xui ''datetime_range_role''))
                    in Inr (Some \<lparr>Format = format, Role = role\<rparr>))))"

fun merge_fields :: "(string \<times> json) list \<Rightarrow> date_time_field gomap \<Rightarrow> date_time_field gomap result" where
  "merge_fields [] out = Inr out"
| "merge_fields ((name, propRaw) # props) out =
     (case parsePropertyDateTimeInfo propRaw of
        Inl e \<Rightarrow> Inl (Wrapped (''property '' @ quoted name) e)
      | Inr None \<Rightarrow> merge_fields props out
      | Inr (Some info) \<Rightarrow> merge_fields props (AList.update name info out))"

definition mergeDateTimeFieldInfo :: "order \<Rightarrow> json \<Rightarrow> date_time_field gomap \<Rightarrow> date_time_field gomap result" where
  "mergeDateTimeFieldInfo ord propsJSON out =
     (case json_map propsJSON of
        None \<Rightarrow> Inl (OtherErr ''cannot unmarshal properties'')
      | Some props \<Rightarrow> merge_fields (map (\<lambda>k. (k, the (map_of props k))) (ord (keys props))) out)"

fun merge_branches :: "order \<Rightarrow> json gomap list \<Rightarrow> date_time_field gomap \<Rightarrow> date_time_field gomap result" where
  "merge_branches ord [] out = Inr out"
| "merge_branches ord (b # bs) out =
     (case map_of b ''properties'' of
        None \<Rightarrow> merge_branches ord bs out
      | Some props \<Rightarrow> (case mergeDateTimeFieldInfo ord props out of
          Inl e \<Rightarrow> Inl e
        | Inr out' \<Rightarrow> merge_branches ord bs out'))"

definition ParseActionSchemaDateTimeFields :: "order \<Rightarrow> raw \<Rightarrow> date_time_field gomap result" where
  "ParseActionSchemaDateTimeFields ord schemaJSON =
     (if schemaJSON = Empty then Inr []
      else (case unmarshal json_map schemaJSON of
          None \<Rightarrow> Inl (OtherErr ''parse action schema'')
        | Some doc \<Rightarrow>
            (case (case map_of doc ''properties'' of None \<Rightarrow> Inr [] | Some props \<Rightarrow> mergeDateTimeFieldInfo ord props []) of
               Inl e \<Rightarrow> Inl e
             | Inr out \<Rightarrow> (case map_of doc ''anyOf'' of
                 None \<Rightarrow> Inr out
               | Some anyOf \<Rightarrow> (case json_maps anyOf of
                   None \<Rightarrow> Inl (OtherErr ''parse action schema anyOf'')
                 | Some branches \<Rightarrow> merge_branches ord branches out)))))"

section \<open>Collecting and applying the tokens\<close>

text \<open>The tokens of every condition of every group, later ones winning; a nil map is an empty one here.\<close>

definition condition_tokens :: "condition \<Rightarrow> (string \<times> string) list" where
  "condition_tokens c =
     (if c_field c = MetaNamespaceKey \<or> c_field c = DataWindowNamespaceKey \<or> is_meta_field (c_field c) then []
      else concat (map (\<lambda>v. case ExtractRelativeDateToken v of
             None \<Rightarrow> []
           | Some token \<Rightarrow> if isAllowOp (c_op c) then [(c_field c, token)] else []) (conditionValues c)))"

definition CollectRelativeDateConstraintTokens :: "order \<Rightarrow> raw \<Rightarrow> string gomap" where
  "CollectRelativeDateConstraintTokens ord constraints =
     (if constraints = Empty \<or> constraints = Doc JNull then []
      else if IsStructuredConstraintsV2 constraints then
        (case ParseStructuredConstraints ord constraints of
           Inl _ \<Rightarrow> []
         | Inr sc \<Rightarrow> last_wins (concat (map (\<lambda>g. concat (map condition_tokens (g_conditions g))) (sc_groups sc))))
      else (case unmarshal json_map constraints of
          None \<Rightarrow> []
        | Some obj \<Rightarrow>
            concat (map (\<lambda>k. if k = MetaNamespaceKey \<or> k = DataWindowNamespaceKey then []
               else (case ExtractRelativeDateToken (raw_of (map_of obj k)) of None \<Rightarrow> [] | Some t \<Rightarrow> [(k, t)])) (ord (keys obj)))))"

definition parseTimeParamFlexible :: "json \<Rightarrow> string \<Rightarrow> instant option result" where
  "parseTimeParamFlexible j format =
     (case json_string j of
        None \<Rightarrow> Inl (ConfigErr ''datetime'' ''relative date parameter must be a timestamp string'')
      | Some s \<Rightarrow>
          if s = [] then Inr None
          else if format = ''date'' then
            (case parse_date s of
               None \<Rightarrow> Inl (ConfigErr ''datetime'' ''relative date parameter must be a YYYY-MM-DD date string'')
             | Some t \<Rightarrow> Inr (Some t))
          else (case parse_rfc3339 s of
               None \<Rightarrow> Inl (ConfigErr ''datetime'' ''relative date parameter must be an RFC3339 timestamp string'')
             | Some t \<Rightarrow> Inr (Some t)))"

definition effective_bound :: "bound_role \<Rightarrow> instant \<Rightarrow> instant option \<Rightarrow> instant" where
  "effective_bound role bound cur =
     (case cur of
        None \<Rightarrow> bound
      | Some t \<Rightarrow> (case role of Upper \<Rightarrow> if t < bound then t else bound | Exact \<Rightarrow> bound | Lower \<Rightarrow> if bound < t then t else bound))"

definition field_format :: "date_time_field gomap \<Rightarrow> string \<Rightarrow> string" where
  "field_format infos f =
     (let format = (case map_of infos f of None \<Rightarrow> [] | Some i \<Rightarrow> Format i) in if format = [] then ''date-time'' else format)"

definition field_role :: "date_time_field gomap \<Rightarrow> string \<Rightarrow> string \<Rightarrow> bound_role" where
  "field_role infos f token = RelativeDateBoundRoleForToken token (case map_of infos f of None \<Rightarrow> [] | Some i \<Rightarrow> Role i)"

text \<open>The body of the loop over the tokens, and the loop.\<close>

definition apply_token ::
  "date_time_field gomap \<Rightarrow> instant \<Rightarrow> string \<Rightarrow> string \<Rightarrow> json gomap option \<Rightarrow> json gomap option result" where
  "apply_token infos now f token m =
     (case ResolveRelativeDateToken token now of
        Inl e \<Rightarrow> Inl e
      | Inr bound \<Rightarrow>
          (case (case map_of (case m of None \<Rightarrow> [] | Some m' \<Rightarrow> m') f of
                   None \<Rightarrow> Inr None | Some j \<Rightarrow> parseTimeParamFlexible j (field_format infos f)) of
             Inl e \<Rightarrow> Inl e
           | Inr cur \<Rightarrow> assign f (marshalRelativeDateValue (effective_bound (field_role infos f token) bound cur) (field_format infos f)) m))"

fun apply_tokens ::
  "date_time_field gomap \<Rightarrow> instant \<Rightarrow> (string \<times> string) list \<Rightarrow> json gomap option \<Rightarrow> json gomap option result" where
  "apply_tokens infos now [] m = Inr m"
| "apply_tokens infos now ((f, token) # ts) m =
     (case apply_token infos now f token m of Inl e \<Rightarrow> Inl e | Inr m' \<Rightarrow> apply_tokens infos now ts m')"

definition ranged :: "order \<Rightarrow> string gomap \<Rightarrow> (string \<times> string) list" where
  "ranged ord tokens = map (\<lambda>k. (k, the (map_of tokens k))) (ord (keys tokens))"

definition ApplyRelativeDateConstraintsToParams ::
  "order \<Rightarrow> raw \<Rightarrow> raw \<Rightarrow> date_time_field gomap \<Rightarrow> instant \<Rightarrow> raw result" where
  "ApplyRelativeDateConstraintsToParams ord params constraints infos now =
     (let tokens = CollectRelativeDateConstraintTokens ord constraints
      in if tokens = [] then Inr params
         else (let m0 = (if params = Empty then Some (Some [])
                         else if params = Doc JNull then Some None
                         else map_option Some (unmarshal json_map params))
               in case m0 of
                    None \<Rightarrow> Inl (OtherErr ''invalid execution parameters'')
                  | Some m \<Rightarrow> (case apply_tokens infos now (ranged ord tokens) m of
                      Inl e \<Rightarrow> Inl e | Inr m' \<Rightarrow> Inr (marshal_map m'))))"

text \<open>\<open>schema\<close> is the row's \<^verbatim>\<open>parameters_schema\<close>: \<open>Inl\<close> a failed lookup, \<open>None\<close> no schema.\<close>

definition applyStandingApprovalRelativeDates ::
  "order \<Rightarrow> raw option result \<Rightarrow> raw \<Rightarrow> raw \<Rightarrow> instant \<Rightarrow> raw result" where
  "applyStandingApprovalRelativeDates ord schema constraints params now =
     (let tokens = CollectRelativeDateConstraintTokens ord constraints
      in if tokens = [] then Inr params
         else (case schema of
             Inl e \<Rightarrow> Inl e
           | Inr s \<Rightarrow>
               (case s of
                  None \<Rightarrow> Inl (OtherErr ''relative date constraints require action schema'')
                | Some sj \<Rightarrow>
                    if sj = Empty then Inl (OtherErr ''relative date constraints require action schema'')
                    else (case ParseActionSchemaDateTimeFields ord sj of
                        Inl e \<Rightarrow> Inl e
                      | Inr infos \<Rightarrow>
                          (case first_err (\<lambda>(f, token). if map_of infos f = None
                                  then Some (ConfigErr f (''relative date token '' @ quoted token @ '' is only valid on date or date-time parameters''))
                                  else None) (ranged ord tokens) of
                             Some e \<Rightarrow> Inl e
                           | None \<Rightarrow> ApplyRelativeDateConstraintsToParams ord params constraints infos now)))))"

section \<open>What the clamp guarantees\<close>

definition within_bound :: "bound_role \<Rightarrow> instant \<Rightarrow> instant \<Rightarrow> bool" where
  "within_bound role bound e = (case role of Upper \<Rightarrow> e \<le> bound | Exact \<Rightarrow> e = bound | Lower \<Rightarrow> bound \<le> e)"

lemma effective_bound_within: "within_bound role bound (effective_bound role bound cur)"
  by (cases cur; cases role) (simp_all add: within_bound_def effective_bound_def)

lemma apply_token_cases:
  assumes "apply_token infos now f token m = Inr m'"
  obtains m0 bound e where "m = Some m0" "ResolveRelativeDateToken token now = Inr bound"
    "within_bound (field_role infos f token) bound e"
    "m' = Some (AList.update f (marshalRelativeDateValue e (field_format infos f)) m0)"
proof -
  obtain bound where b: "ResolveRelativeDateToken token now = Inr bound"
    using assms by (cases "ResolveRelativeDateToken token now") (simp_all add: apply_token_def)
  let ?cur = "case map_of (case m of None \<Rightarrow> [] | Some m' \<Rightarrow> m') f of
      None \<Rightarrow> Inr None | Some j \<Rightarrow> parseTimeParamFlexible j (field_format infos f)"
  obtain cur where c: "?cur = Inr cur" using assms b by (cases ?cur) (simp_all add: apply_token_def)
  from assms b c obtain m0 where m: "m = Some m0"
    by (cases m) (simp_all add: apply_token_def assign_def)
  show thesis
    by (rule that [OF m b effective_bound_within [of _ _ cur]])
      (use assms b c m in \<open>simp add: apply_token_def assign_def\<close>)
qed

lemma apply_tokens_ok:
  assumes "apply_tokens infos now ts (Some m0) = Inr m'" "distinct (map fst ts)" "distinct (keys m0)"
  shows "\<exists>m. m' = Some m \<and> distinct (keys m) \<and>
     (\<forall>(f, token) \<in> set ts. \<exists>bound e. ResolveRelativeDateToken token now = Inr bound \<and>
        within_bound (field_role infos f token) bound e \<and>
        map_of m f = Some (marshalRelativeDateValue e (field_format infos f))) \<and>
     (\<forall>k. k \<notin> fst ` set ts \<longrightarrow> map_of m k = map_of m0 k)"
  using assms
proof (induction ts arbitrary: m0)
  case (Cons ft ts)
  obtain f token where ft: "ft = (f, token)" by (cases ft)
  from Cons.prems(1) obtain m1 where one: "apply_token infos now f token (Some m0) = Inr m1"
      and rest: "apply_tokens infos now ts m1 = Inr m'"
    by (cases "apply_token infos now f token (Some m0)") (simp_all add: ft)
  from one show ?case
  proof (rule apply_token_cases)
    fix m0' bound e
    assume "Some m0 = Some m0'" and b: "ResolveRelativeDateToken token now = Inr bound"
      and w: "within_bound (field_role infos f token) bound e"
      and m1: "m1 = Some (AList.update f (marshalRelativeDateValue e (field_format infos f)) m0')"
    let ?m1 = "AList.update f (marshalRelativeDateValue e (field_format infos f)) m0"
    have fresh: "f \<notin> fst ` set ts" using Cons.prems(2) by (simp add: ft)
    have "distinct (keys ?m1)" by (rule keys_update_distinct [OF Cons.prems(3)])
    moreover have "apply_tokens infos now ts (Some ?m1) = Inr m'" using rest m1 \<open>Some m0 = Some m0'\<close> by simp
    moreover have "distinct (map fst ts)" using Cons.prems(2) by simp
    ultimately obtain m where m: "m' = Some m" "distinct (keys m)"
        "\<forall>(f, token) \<in> set ts. \<exists>bound e. ResolveRelativeDateToken token now = Inr bound \<and>
            within_bound (field_role infos f token) bound e \<and>
            map_of m f = Some (marshalRelativeDateValue e (field_format infos f))"
        "\<forall>k. k \<notin> fst ` set ts \<longrightarrow> map_of m k = map_of ?m1 k"
      using Cons.IH by blast
    have "map_of m f = Some (marshalRelativeDateValue e (field_format infos f))"
      using m(4) fresh by (simp add: update_conv')
    with b w m show ?thesis by (intro exI [of _ m]) (auto simp: ft update_conv')
  qed
qed auto

lemma collect_distinct:
  assumes "range_order ord"
  shows "distinct (keys (CollectRelativeDateConstraintTokens ord constraints))"
proof -
  have part: "distinct (map fst (concat (map (\<lambda>k. if P k then [] else (case g k of None \<Rightarrow> [] | Some t \<Rightarrow> [(k, t)])) ks)))"
    if "distinct ks" for P :: "string \<Rightarrow> bool" and g :: "string \<Rightarrow> string option" and ks
    using that by (induction ks) (auto split: option.splits if_splits)
  have d: "distinct (ord (keys obj))" if "unmarshal json_map constraints = Some obj" for obj
    by (simp add: range_order_distinct [OF assms] unmarshal_map_distinct [OF that])
  show ?thesis
  proof (cases "constraints = Empty \<or> constraints = Doc JNull")
    case True then show ?thesis by (simp add: CollectRelativeDateConstraintTokens_def keys_def)
  next
    case plain: False
    show ?thesis
    proof (cases "IsStructuredConstraintsV2 constraints")
      case True
      then show ?thesis using plain
        by (cases "ParseStructuredConstraints ord constraints")
          (simp_all add: CollectRelativeDateConstraintTokens_def keys_def [of "[]"])
    next
      case False
      then show ?thesis using plain part d
        by (cases "unmarshal json_map constraints")
          (simp_all add: CollectRelativeDateConstraintTokens_def keys_def)
    qed
  qed
qed

lemma ranged_tokens:
  assumes "range_order ord"
  shows "map fst (ranged ord tokens) = ord (keys tokens)" "fst ` set (ranged ord tokens) = set (keys tokens)"
    and "map_of tokens f = Some token \<Longrightarrow> (f, token) \<in> set (ranged ord tokens)"
proof -
  show fst_ranged: "map fst (ranged ord tokens) = ord (keys tokens)" by (simp add: ranged_def comp_def)
  show "fst ` set (ranged ord tokens) = set (keys tokens)"
    unfolding set_map [symmetric] fst_ranged by (rule range_order_set [OF assms])
  show "(f, token) \<in> set (ranged ord tokens)" if "map_of tokens f = Some token"
    using that range_order_set [OF assms, of "keys tokens"]
    by (auto simp: ranged_def set_keys dom_def image_iff)
qed

text \<open>The tokens are applied to the decoded parameters; a null document would panic at the first of them.\<close>

lemma tokens_applied:
  assumes "ApplyRelativeDateConstraintsToParams ord params constraints infos now = Inr out"
    and "range_order ord" "CollectRelativeDateConstraintTokens ord constraints \<noteq> []"
  obtains m' where "apply_tokens infos now (ranged ord (CollectRelativeDateConstraintTokens ord constraints)) (Some (window_input params)) = Inr m'"
    and "out = marshal_map m'"
proof -
  let ?tokens = "CollectRelativeDateConstraintTokens ord constraints"
  obtain m0 where m0: "m0 = Some (window_input params) \<or> m0 = None"
    and step: "(case apply_tokens infos now (ranged ord ?tokens) m0 of
        Inl e \<Rightarrow> Inl e | Inr m' \<Rightarrow> Inr (marshal_map m')) = Inr out"
  proof (cases "unmarshal json_map params")
    case None
    with assms(1,3) have "params = Empty"
      by (cases params) (simp_all add: ApplyRelativeDateConstraintsToParams_def Let_def split: if_splits)
    with assms(1,3) show thesis
      by (intro that [of "Some []"]) (simp_all add: ApplyRelativeDateConstraintsToParams_def window_input_def)
  next
    case (Some m1)
    then have "params \<noteq> Empty" by (cases params) simp_all
    with Some assms(1,3) show thesis
      by (cases "params = Doc JNull")
        (simp add: that [of None] ApplyRelativeDateConstraintsToParams_def,
          simp add: that [of "Some m1"] ApplyRelativeDateConstraintsToParams_def window_input_def)
  qed
  obtain m' where app: "apply_tokens infos now (ranged ord ?tokens) m0 = Inr m'" and out: "out = marshal_map m'"
    using step by (cases "apply_tokens infos now (ranged ord ?tokens) m0") simp_all
  have "ranged ord ?tokens \<noteq> []" using assms(3) ranged_tokens(2) [OF assms(2), of ?tokens] by (auto simp: keys_def)
  then obtain f token ts where "ranged ord ?tokens = (f, token) # ts" by (metis surj_pair neq_Nil_conv)
  with app have "m0 \<noteq> None"
    by (auto elim: apply_token_cases split: sum.splits)
  with m0 app out that show thesis by simp
qed



text \<open>The tokens of all groups are applied, also those of a group that did not match: a request for the team dev,
  accepted by the second group with any start, is moved to the start only the first group (for the team ops) asks for.\<close>

theorem relative_date_leaks_across_groups:
  "let ops = [matches_cond ''team'' (JStr ''ops''), matches_cond ''since'' (JStr ''-7d'')];
       any = [matches_cond ''team'' (JStr ''*''), matches_cond ''since'' (JStr ''*'')];
       exec = [(''since'', JStr ''1970-01-01T00:00:00Z''), (''team'', JStr ''dev'')];
       infos = [(''since'', \<lparr>Format = ''date-time'', Role = ''lower''\<rparr>)]
   in ValidateParametersAgainstStructuredConfig rev (doc_of [ops]) (Doc (JObj exec)) Empty \<noteq> None \<and>
      ValidateParametersAgainstStructuredConfig rev (doc_of [ops, any]) (Doc (JObj exec)) Empty = None \<and>
      ApplyRelativeDateConstraintsToParams rev (Doc (JObj exec)) (Doc (marshal_document (doc_of [ops, any]))) infos (10 * ns_per_day)
        = Inr (Doc (JObj [(''since'', JStr ''1970-01-04T00:00:00Z''), (''team'', JStr ''dev'')]))"
  unfolding Let_def by (intro conjI) code_simp+

end
