(* ===== verification/StandingApprovals.thy ===== *)
theory StandingApprovals
  imports ApprovalListing StructuredConstraints
begin

text \<open>
  Standing approvals (\<^verbatim>\<open>db/standing_approvals.go\<close>): the tables \<^verbatim>\<open>standing_approvals\<close> and \<^verbatim>\<open>standing_approval_executions\<close>
  and every statement on them, with the CHECK constraints on the columns the model reads. \<open>owns\<close> is the
  table of agents and their approvers, \<open>agent_meta\<close> their metadata, \<open>io_ok = False\<close> a statement that fails for
  a reason of its own.
\<close>

section \<open>Rows\<close>

datatype standing_status = Active | Revoked | Lapsed

record standing =
  sa_id :: string
  sa_agent :: int
  sa_user :: string
  sa_action :: string
  sa_version :: string
  sa_constraints :: raw
  sa_name :: "string option"
  sa_description :: "string option"
  sa_instance :: "string option"
  sa_status :: standing_status
  sa_starts :: instant
  sa_expires :: "instant option"
  sa_created :: instant
  sa_revoked_at :: "instant option"
  sa_expired_at :: "instant option"
  sa_unrestricted :: bool
  sa_resource :: "string option"

text \<open>\<^verbatim>\<open>*StandingApprovalError\<close> by its code; \<open>SaDbFailure\<close> is any other error.\<close>

datatype standing_error =
    SaNotFound | SaAlreadyRevoked | SaNotActive "standing_status option" | SaAgentNotFound | SaDuplicateRequest | SaDbFailure

definition WildcardActionType :: string where
  "WildcardActionType = ''*''"

text \<open>\<^verbatim>\<open>expires_at IS NULL OR datetime(expires_at) > datetime('now')\<close> and \<^verbatim>\<open>datetime(starts_at) <= datetime('now')\<close>.\<close>

definition unexpired :: "instant \<Rightarrow> standing \<Rightarrow> bool" where
  "unexpired now g \<longleftrightarrow> (case sa_expires g of None \<Rightarrow> True | Some e \<Rightarrow> datetime now < datetime e)"

definition started :: "instant \<Rightarrow> standing \<Rightarrow> bool" where
  "started now g \<longleftrightarrow> datetime (sa_starts g) \<le> datetime now"

definition CountActiveStandingApprovalsByUser :: "instant \<Rightarrow> string \<Rightarrow> standing list \<Rightarrow> nat" where
  "CountActiveStandingApprovalsByUser now u rows =
     length (filter (\<lambda>g. sa_user g = u \<and> sa_status g = Active \<and> unexpired now g) rows)"

section \<open>Creating\<close>

record standing_params =
  cp_id :: string
  cp_agent :: int
  cp_user :: string
  cp_action :: string
  cp_version :: string
  cp_constraints :: raw
  cp_name :: "string option"
  cp_description :: "string option"
  cp_instance :: "string option"
  cp_starts :: instant
  cp_expires :: "instant option"
  cp_unrestricted :: bool
  cp_resource :: "string option"

definition new_standing :: "instant \<Rightarrow> standing_params \<Rightarrow> standing" where
  "new_standing now p =
     \<lparr>sa_id = cp_id p, sa_agent = cp_agent p, sa_user = cp_user p, sa_action = cp_action p, sa_version = cp_version p,
      sa_constraints = cp_constraints p, sa_name = cp_name p, sa_description = cp_description p, sa_instance = cp_instance p,
      sa_status = Active, sa_starts = cp_starts p, sa_expires = cp_expires p, sa_created = sql_now now,
      sa_revoked_at = None, sa_expired_at = None, sa_unrestricted = cp_unrestricted p, sa_resource = cp_resource p\<rparr>"

text \<open>The CHECK constraints; \<^verbatim>\<open>expires_at >= starts_at\<close> compares the stored texts.\<close>

definition standing_checks :: "standing \<Rightarrow> bool" where
  "standing_checks g \<longleftrightarrow>
     length (sa_id g) \<le> 255 \<and> length (sa_action g) \<le> 128 \<and> length (sa_version g) \<le> 10 \<and>
     (case sa_name g of None \<Rightarrow> True | Some n \<Rightarrow> length n \<le> 255) \<and>
     (case sa_description g of None \<Rightarrow> True | Some d \<Rightarrow> length d \<le> 4096) \<and>
     (case sa_expires g of None \<Rightarrow> True | Some e \<Rightarrow> TimestampForSQLite (sa_starts g) \<le> TimestampForSQLite e)"

definition CreateStandingApproval ::
  "instant \<Rightarrow> (int \<Rightarrow> string \<Rightarrow> bool) \<Rightarrow> standing_params \<Rightarrow> bool \<Rightarrow> standing list \<Rightarrow> standing list \<times> (standing_error + standing)" where
  "CreateStandingApproval now owns p io_ok rows =
     (let g = new_standing now p
      in if \<not> io_ok then (rows, Inl SaDbFailure)
         else if \<not> owns (cp_agent p) (cp_user p) then (rows, Inl SaAgentNotFound)
         else if cp_id p \<in> sa_id ` set rows \<or> \<not> standing_checks g then (rows, Inl SaDbFailure)
         else (g # rows, Inr g))"

section \<open>Listing\<close>

definition standing_key :: "standing \<Rightarrow> string \<times> string" where
  "standing_key g = (strftime_text (sa_created g), sa_id g)"

definition standing_cursor :: "standing \<Rightarrow> string \<times> string" where
  "standing_cursor g = (TimestampForSQLite (sa_created g), sa_id g)"

datatype standing_filter = OnlyActive | AnyStatus | OnlyStatus standing_status

definition standing_selected :: "standing_filter \<Rightarrow> standing \<Rightarrow> bool" where
  "standing_selected f g = (case f of OnlyActive \<Rightarrow> sa_status g = Active | AnyStatus \<Rightarrow> True | OnlyStatus s \<Rightarrow> sa_status g = s)"

definition ListStandingApprovalsByUser ::
  "string \<Rightarrow> standing_filter \<Rightarrow> int \<Rightarrow> (string \<times> string) option \<Rightarrow> standing list \<Rightarrow> standing list \<times> bool" where
  "ListStandingApprovalsByUser u f limit cursor rows =
     fetch_page standing_key (clamp_limit limit) cursor (filter (\<lambda>g. sa_user g = u \<and> standing_selected f g) rows)"

definition ListStandingApprovalsByAgent ::
  "int \<Rightarrow> int \<Rightarrow> (string \<times> string) option \<Rightarrow> standing list \<Rightarrow> standing list \<times> bool" where
  "ListStandingApprovalsByAgent ag limit cursor rows =
     fetch_page standing_key (clamp_limit limit) cursor (filter (\<lambda>g. sa_agent g = ag \<and> sa_status g = Active) rows)"

definition GetStandingApprovalByIDAndUser :: "string \<Rightarrow> string \<Rightarrow> standing list \<Rightarrow> standing option" where
  "GetStandingApprovalByIDAndUser i u rows = find (\<lambda>g. sa_id g = i \<and> sa_user g = u) rows"

section \<open>Changing\<close>

definition diagnoseStandingApprovalFailure :: "string \<Rightarrow> string \<Rightarrow> standing list \<Rightarrow> standing_error" where
  "diagnoseStandingApprovalFailure i u rows =
     (case GetStandingApprovalByIDAndUser i u rows of
        None \<Rightarrow> SaNotFound
      | Some g \<Rightarrow> if sa_status g = Revoked then SaAlreadyRevoked else SaNotActive (Some (sa_status g)))"

definition RevokeStandingApproval ::
  "instant \<Rightarrow> string \<Rightarrow> string \<Rightarrow> standing list \<Rightarrow> standing list \<times> (standing_error + standing)" where
  "RevokeStandingApproval now i u rows =
     (case update_returning (\<lambda>g. sa_id g = i \<and> sa_user g = u \<and> sa_status g = Active)
             (\<lambda>g. g\<lparr>sa_status := Revoked, sa_revoked_at := Some (sql_now now)\<rparr>) rows of
        (rows', Some g) \<Rightarrow> (rows', Inr g)
      | (_, None) \<Rightarrow> (rows, Inl (diagnoseStandingApprovalFailure i u rows)))"

record standing_update =
  up_id :: string
  up_user :: string
  up_constraints :: raw
  up_name :: "string option option"
  up_description :: "string option option"
  up_expires :: "instant option"
  up_instance :: "string option option"
  up_unrestricted :: bool
  up_resource :: "string option"

text \<open>\<open>None\<close> in \<open>up_name\<close>, \<open>up_description\<close> and \<open>up_instance\<close> is an unset \<^verbatim>\<open>...Set\<close> flag.\<close>

definition updated :: "standing_update \<Rightarrow> standing \<Rightarrow> standing" where
  "updated p g = g\<lparr>sa_constraints := up_constraints p, sa_expires := up_expires p, sa_unrestricted := up_unrestricted p,
     sa_resource := up_resource p,
     sa_name := (case up_name p of None \<Rightarrow> sa_name g | Some n \<Rightarrow> n),
     sa_description := (case up_description p of None \<Rightarrow> sa_description g | Some d \<Rightarrow> d),
     sa_instance := (case up_instance p of None \<Rightarrow> sa_instance g | Some i \<Rightarrow> i)\<rparr>"

definition UpdateStandingApproval ::
  "standing_update \<Rightarrow> bool \<Rightarrow> standing list \<Rightarrow> standing list \<times> (standing_error + standing)" where
  "UpdateStandingApproval p io_ok rows =
     (case update_returning (\<lambda>g. sa_id g = up_id p \<and> sa_user g = up_user p \<and> sa_status g = Active) (updated p) rows of
        (rows', Some g) \<Rightarrow> if io_ok \<and> standing_checks g then (rows', Inr g) else (rows, Inl SaDbFailure)
      | (_, None) \<Rightarrow> (rows, Inl (if io_ok then diagnoseStandingApprovalFailure (up_id p) (up_user p) rows else SaDbFailure)))"

section \<open>Matching and executing\<close>

definition newest_first :: "standing list \<Rightarrow> standing list" where
  "newest_first rows = rev (sort_key standing_key rows)"

definition usable :: "instant \<Rightarrow> int \<Rightarrow> string \<Rightarrow> standing \<Rightarrow> bool" where
  "usable now ag inst g \<longleftrightarrow> sa_agent g = ag \<and> sa_status g = Active \<and> started now g \<and> unexpired now g \<and>
     (inst = [] \<or> sa_instance g = None \<or> sa_instance g = Some inst)"

definition FindActiveStandingApprovalsForAgent ::
  "instant \<Rightarrow> int \<Rightarrow> string \<Rightarrow> string \<Rightarrow> standing list \<Rightarrow> standing list" where
  "FindActiveStandingApprovalsForAgent now ag action inst rows =
     take 100 (newest_first (filter (\<lambda>g. sa_action g = action \<and> usable now ag inst g) rows) @
       newest_first (filter (\<lambda>g. sa_action g = WildcardActionType \<and> WildcardActionType \<noteq> action \<and> usable now ag inst g) rows))"

record execution =
  ex_id :: int
  ex_standing :: string
  ex_params :: raw
  ex_request :: "string option"
  ex_at :: instant

record standing_execution = execution +
  ex_agent :: int
  ex_user :: string
  ex_action :: string
  ex_instance :: "string option"
  ex_meta :: "string option"

text \<open>The first statement of each function, a plain \<^verbatim>\<open>SELECT\<close>, and the second, the \<^verbatim>\<open>INSERT\<close> under the unique index on
  the approval and the request id. They are two statements: other requests can run between them.\<close>

definition grant_for_user :: "instant \<Rightarrow> string \<Rightarrow> string \<Rightarrow> standing list \<Rightarrow> standing option" where
  "grant_for_user now i u rows = find (\<lambda>g. sa_id g = i \<and> sa_user g = u \<and> sa_status g = Active \<and> unexpired now g) rows"

definition grant_for_agent :: "instant \<Rightarrow> string \<Rightarrow> int \<Rightarrow> standing list \<Rightarrow> standing option" where
  "grant_for_agent now i ag rows =
     find (\<lambda>g. sa_id g = i \<and> sa_agent g = ag \<and> sa_status g = Active \<and> started now g \<and> unexpired now g) rows"

definition next_exec_id :: "execution list \<Rightarrow> int" where
  "next_exec_id execs = 1 + foldr max (map ex_id execs) 0"

definition insert_execution ::
  "instant \<Rightarrow> string \<Rightarrow> raw \<Rightarrow> string option \<Rightarrow> bool \<Rightarrow> execution list \<Rightarrow> execution list \<times> (standing_error + execution)" where
  "insert_execution now i params request io_ok execs =
     (let e = \<lparr>ex_id = next_exec_id execs, ex_standing = i, ex_params = params, ex_request = request, ex_at = sql_now now\<rparr>
      in if request \<noteq> None \<and> (\<exists>e \<in> set execs. ex_standing e = i \<and> ex_request e = request) then (execs, Inl SaDuplicateRequest)
         else if \<not> io_ok then (execs, Inl SaDbFailure)
         else (e # execs, Inr e))"

definition with_grant :: "(int \<Rightarrow> string option option) \<Rightarrow> standing \<Rightarrow> execution \<Rightarrow> standing_execution" where
  "with_grant agent_meta g e = execution.extend e
     \<lparr>ex_agent = sa_agent g, ex_user = sa_user g, ex_action = sa_action g, ex_instance = sa_instance g,
      ex_meta = (case agent_meta (sa_agent g) of None \<Rightarrow> None | Some m \<Rightarrow> m)\<rparr>"

definition RecordStandingApprovalExecution ::
  "instant \<Rightarrow> (int \<Rightarrow> string option option) \<Rightarrow> string \<Rightarrow> string \<Rightarrow> raw \<Rightarrow> bool \<Rightarrow> standing list \<Rightarrow> execution list
    \<Rightarrow> execution list \<times> (standing_error + standing_execution)" where
  "RecordStandingApprovalExecution now agent_meta i u params io_ok rows execs =
     (case grant_for_user now i u rows of
        None \<Rightarrow> (execs, Inl (diagnoseStandingApprovalFailure i u rows))
      | Some g \<Rightarrow> (case insert_execution now i params None io_ok execs of
          (execs', Inl e) \<Rightarrow> (execs', Inl e)
        | (execs', Inr e) \<Rightarrow> (execs', Inr (with_grant agent_meta g e))))"

definition RecordStandingApprovalExecutionByAgent ::
  "instant \<Rightarrow> (int \<Rightarrow> string option option) \<Rightarrow> string \<Rightarrow> int \<Rightarrow> string \<Rightarrow> raw \<Rightarrow> bool \<Rightarrow> standing list \<Rightarrow> execution list
    \<Rightarrow> execution list \<times> (standing_error + standing_execution)" where
  "RecordStandingApprovalExecutionByAgent now agent_meta i ag request params io_ok rows execs =
     (case grant_for_agent now i ag rows of
        None \<Rightarrow> (execs, Inl (SaNotActive None))
      | Some g \<Rightarrow> (case insert_execution now i params (Some request) io_ok execs of
          (execs', Inl e) \<Rightarrow> (execs', Inl e)
        | (execs', Inr e) \<Rightarrow> (execs', Inr (with_grant agent_meta g e))))"

end
