(* ===== verification/StandingLifecycle.thy ===== *)
theory StandingLifecycle
  imports StandingApprovals
begin

text \<open>
  Runs of standing approvals. Recording an execution is two statements with no transaction around them, so a
  run has a step for the check and one for the insert, and anything may happen in between. Proved: a request id
  is recorded once per approval, a revocation stops every execution but the ones already checked (and those it
  does not stop), and what the candidates for an automatic approval are, in which order.
\<close>

section \<open>Statements\<close>

lemma map_sa_id_update:
  "(\<And>g. p g \<Longrightarrow> sa_id (f g) = sa_id g) \<Longrightarrow> map sa_id (update_where p f rows) = map sa_id rows"
  by (rule map_update_where)

text \<open>Every statement on the rows keeps the keys distinct and leaves revoked rows as they are.\<close>

definition grants_after :: "standing list \<Rightarrow> standing list \<Rightarrow> bool" where
  "grants_after rows rows' \<longleftrightarrow> (distinct (map sa_id rows) \<longrightarrow> distinct (map sa_id rows')) \<and>
     (\<forall>g \<in> set rows. sa_status g = Revoked \<longrightarrow> g \<in> set rows')"

lemma grants_after_refl: "grants_after rows rows"
  by (simp add: grants_after_def)

lemma grants_after_update:
  assumes "\<And>g. p g \<Longrightarrow> sa_status g = Active" "\<And>g. p g \<Longrightarrow> sa_id (f g) = sa_id g"
  shows "grants_after rows (update_where p f rows)"
proof -
  have "map sa_id (update_where p f rows) = map sa_id rows" using assms(2) by (rule map_sa_id_update)
  moreover have "g \<in> set (update_where p f rows)" if "g \<in> set rows" "sa_status g = Revoked" for g
    using that assms(1) [of g] by (auto simp: set_update_where intro!: bexI [of _ g])
  ultimately show ?thesis by (simp add: grants_after_def)
qed

lemma create_after: "CreateStandingApproval now owns p io_ok rows = (rows', r) \<Longrightarrow> grants_after rows rows'"
  by (auto simp: CreateStandingApproval_def Let_def grants_after_def new_standing_def split: if_splits)

lemma revoke_after:
  assumes "RevokeStandingApproval now i u rows = (rows', r)"
  shows "grants_after rows rows'"
proof -
  let ?p = "\<lambda>g. sa_id g = i \<and> sa_user g = u \<and> sa_status g = Active"
  let ?f = "\<lambda>g. g\<lparr>sa_status := Revoked, sa_revoked_at := Some (sql_now now)\<rparr>"
  have "rows' = rows \<or> rows' = update_where ?p ?f rows"
    using assms by (cases "find ?p rows") (simp_all add: RevokeStandingApproval_def update_returning_def)
  moreover have "grants_after rows (update_where ?p ?f rows)" by (rule grants_after_update) simp_all
  ultimately show ?thesis by (elim disjE) (simp_all only: grants_after_refl)
qed

lemma update_after:
  assumes "UpdateStandingApproval p io_ok rows = (rows', r)"
  shows "grants_after rows rows'"
proof -
  let ?p = "\<lambda>g. sa_id g = up_id p \<and> sa_user g = up_user p \<and> sa_status g = Active"
  have "rows' = rows \<or> rows' = update_where ?p (updated p) rows"
    using assms by (cases "find ?p rows") (simp_all add: UpdateStandingApproval_def update_returning_def split: if_splits)
  moreover have "grants_after rows (update_where ?p (updated p) rows)"
    by (rule grants_after_update) (simp_all add: updated_def)
  ultimately show ?thesis by (elim disjE) (simp_all only: grants_after_refl)
qed

lemma grant_active:
  "grant_for_agent now i ag rows = Some g \<Longrightarrow> g \<in> set rows \<and> sa_id g = i \<and> sa_status g = Active"
  "grant_for_user now i u rows = Some g \<Longrightarrow> g \<in> set rows \<and> sa_id g = i \<and> sa_status g = Active"
  unfolding grant_for_agent_def grant_for_user_def by (drule find_SomeD, simp)+

text \<open>The executions of one approval, and the unique index over all of them.\<close>

definition runs_of :: "string \<Rightarrow> execution list \<Rightarrow> nat" where
  "runs_of i execs = length (filter (\<lambda>e. ex_standing e = i) execs)"

definition requests_unique :: "execution list \<Rightarrow> bool" where
  "requests_unique execs \<longleftrightarrow>
     distinct (map (\<lambda>e. (ex_standing e, ex_request e)) (filter (\<lambda>e. ex_request e \<noteq> None) execs))"

lemma insert_execution_cases:
  assumes "insert_execution now i params request io_ok execs = (execs', r)"
  obtains "execs' = execs" |
    e where "execs' = e # execs" "ex_standing e = i" "ex_request e = request" "ex_at e = sql_now now" "ex_params e = params"
      "request \<noteq> None \<longrightarrow> (\<forall>e \<in> set execs. ex_standing e = i \<longrightarrow> ex_request e \<noteq> request)"
  using assms by (auto simp: insert_execution_def Let_def split: if_splits)

lemma insert_unique:
  assumes "insert_execution now i params request io_ok execs = (execs', r)" "requests_unique execs"
  shows "requests_unique execs'"
  using assms(1)
proof (rule insert_execution_cases)
  fix e assume "execs' = e # execs" "ex_standing e = i" "ex_request e = request"
    and "request \<noteq> None \<longrightarrow> (\<forall>e \<in> set execs. ex_standing e = i \<longrightarrow> ex_request e \<noteq> request)"
  then show ?thesis using assms(2) by (auto simp: requests_unique_def)
qed (use assms(2) in simp)

section \<open>Runs\<close>

text \<open>\<open>checked\<close> holds the approvals (with the request id, if any) for which the \<^verbatim>\<open>SELECT\<close> succeeded and the
  \<^verbatim>\<open>INSERT\<close> is still to come.\<close>

record grants =
  clock :: instant
  table :: "standing list"
  execs :: "execution list"
  checked :: "(string \<times> string option) list"

definition grants_start :: "grants \<Rightarrow> bool" where
  "grants_start s \<longleftrightarrow> table s = [] \<and> execs s = [] \<and> checked s = []"

inductive grants_step :: "grants \<Rightarrow> grants \<Rightarrow> bool" where
  create: "CreateStandingApproval (clock s) owns p io_ok (table s) = (rows', r) \<Longrightarrow> grants_step s (s\<lparr>table := rows'\<rparr>)"
| revoke: "RevokeStandingApproval (clock s) i u (table s) = (rows', r) \<Longrightarrow> grants_step s (s\<lparr>table := rows'\<rparr>)"
| update: "UpdateStandingApproval p io_ok (table s) = (rows', r) \<Longrightarrow> grants_step s (s\<lparr>table := rows'\<rparr>)"
| check_agent: "grant_for_agent (clock s) i ag (table s) = Some g \<Longrightarrow> grants_step s (s\<lparr>checked := (i, Some request) # checked s\<rparr>)"
| check_user: "grant_for_user (clock s) i u (table s) = Some g \<Longrightarrow> grants_step s (s\<lparr>checked := (i, None) # checked s\<rparr>)"
| insert: "(i, request) \<in> set (checked s) \<Longrightarrow> insert_execution (clock s) i params request io_ok (execs s) = (execs', r) \<Longrightarrow>
     grants_step s (s\<lparr>checked := remove1 (i, request) (checked s), execs := execs'\<rparr>)"
| tick: "0 \<le> d \<Longrightarrow> grants_step s (s\<lparr>clock := clock s + d\<rparr>)"

definition waiting :: "string \<Rightarrow> (string \<times> string option) list \<Rightarrow> nat" where
  "waiting i c = length (filter (\<lambda>p. fst p = i) c)"

lemma waiting_remove1: "(i, r) \<in> set c \<Longrightarrow> waiting j c = waiting j (remove1 (i, r) c) + (if i = j then 1 else 0)"
  unfolding waiting_def by (induction c) auto

definition grants_inv :: "grants \<Rightarrow> bool" where
  "grants_inv s \<longleftrightarrow> distinct (map sa_id (table s)) \<and> requests_unique (execs s)"

text \<open>Executions are never lost; a revoked row stays, and no execution of it starts any more.\<close>

definition grants_later :: "grants \<Rightarrow> grants \<Rightarrow> bool" where
  "grants_later s t \<longleftrightarrow> (\<exists>new. execs t = new @ execs s) \<and>
     (\<forall>g \<in> set (table s). sa_status g = Revoked \<longrightarrow> g \<in> set (table t) \<and>
        runs_of (sa_id g) (execs t) + waiting (sa_id g) (checked t) \<le> runs_of (sa_id g) (execs s) + waiting (sa_id g) (checked s))"

lemma grants_later_table:
  "grants_after (table s) (table t) \<Longrightarrow> execs t = execs s \<Longrightarrow> checked t = checked s \<Longrightarrow> grants_later s t"
  by (simp add: grants_later_def grants_after_def)

lemma grants_later_check:
  assumes "grants_inv s" "g \<in> set (table s)" "sa_id g = i" "sa_status g = Active"
  shows "grants_later s (s\<lparr>checked := (i, request) # checked s\<rparr>)"
proof -
  have "sa_id h \<noteq> i" if "h \<in> set (table s)" "sa_status h = Revoked" for h
    using key_unique [of sa_id "table s" h g] that assms by (auto simp: grants_inv_def)
  then show ?thesis by (auto simp: grants_later_def waiting_def)
qed

lemma grants_step_ok: "grants_step s t \<Longrightarrow> grants_inv s \<Longrightarrow> grants_inv t \<and> grants_later s t"
proof (induction rule: grants_step.induct)
  case (create s owns p io_ok rows' r)
  from create_after [OF this(1)] this(2) show ?case
    by (simp add: grants_inv_def grants_after_def grants_later_def)
next
  case (revoke s i u rows' r)
  from revoke_after [OF this(1)] this(2) show ?case
    by (simp add: grants_inv_def grants_after_def grants_later_def)
next
  case (update p io_ok s rows' r)
  from update_after [OF this(1)] this(2) show ?case
    by (simp add: grants_inv_def grants_after_def grants_later_def)
next
  case (check_agent s i ag g request)
  then show ?case using grants_later_check [of s g i] grant_active(1) by (simp add: grants_inv_def)
next
  case (check_user s i u g)
  then show ?case using grants_later_check [of s g i] grant_active(2) by (simp add: grants_inv_def)
next
  case (insert i request s params io_ok execs' r)
  let ?t = "s\<lparr>checked := remove1 (i, request) (checked s), execs := execs'\<rparr>"
  have "grants_inv ?t" using insert_unique [OF insert(2)] insert(3) by (simp add: grants_inv_def)
  moreover have "(\<exists>new. execs' = new @ execs s) \<and> runs_of j execs' \<le> runs_of j (execs s) + (if i = j then 1 else 0)" for j
    using insert(2) by (rule insert_execution_cases) (auto simp: runs_of_def)
  then have "grants_later s ?t"
    using waiting_remove1 [OF insert(1)] by (simp add: grants_later_def)
  ultimately show ?case by simp
qed (simp add: grants_inv_def grants_later_def)

lemma grants_later_trans:
  assumes "grants_later s t" "grants_later t u"
  shows "grants_later s u"
proof -
  have "\<exists>new. execs u = new @ execs s" using assms by (auto simp: grants_later_def)
  moreover have "g \<in> set (table u) \<and>
      runs_of (sa_id g) (execs u) + waiting (sa_id g) (checked u) \<le> runs_of (sa_id g) (execs s) + waiting (sa_id g) (checked s)"
    if g: "g \<in> set (table s)" "sa_status g = Revoked" for g
  proof -
    have t: "g \<in> set (table t)"
        "runs_of (sa_id g) (execs t) + waiting (sa_id g) (checked t) \<le> runs_of (sa_id g) (execs s) + waiting (sa_id g) (checked s)"
      using assms(1) g by (simp_all add: grants_later_def)
    have "g \<in> set (table u)"
        "runs_of (sa_id g) (execs u) + waiting (sa_id g) (checked u) \<le> runs_of (sa_id g) (execs t) + waiting (sa_id g) (checked t)"
      using assms(2) t(1) g(2) by (simp_all add: grants_later_def)
    then show ?thesis using t(2) by simp
  qed
  ultimately show ?thesis by (simp add: grants_later_def)
qed

interpretation grants: system grants_start grants_step grants_inv grants_later
proof unfold_locales
  show "grants_start s \<Longrightarrow> grants_inv s" for s by (simp add: grants_start_def grants_inv_def requests_unique_def)
  show "grants_inv s \<Longrightarrow> grants_step s t \<Longrightarrow> grants_inv t" for s t using grants_step_ok by blast
  show "grants_inv s \<Longrightarrow> grants_step s t \<Longrightarrow> grants_later s t" for s t using grants_step_ok by blast
  show "grants_later s s" for s by (simp add: grants_later_def)
  show "grants_later s t \<Longrightarrow> grants_later t u \<Longrightarrow> grants_later s u" for s t u
    by (rule grants_later_trans)
qed

section \<open>What revoking stops\<close>

text \<open>C4: Revoking stops executions. Whatever happens after a standing approval was revoked, its row stays as it is, and the only
  executions recorded for it from then on are those whose check had already passed.\<close>

theorem revocation_stops_runs:
  assumes "reach grants_start grants_step s" "g \<in> set (table s)" "sa_status g = Revoked" "grants_step\<^sup>*\<^sup>* s t"
  shows "g \<in> set (table t) \<and> runs_of (sa_id g) (execs t) \<le> runs_of (sa_id g) (execs s) + waiting (sa_id g) (checked s)"
  using grants.later_reach [OF assms(1,4)] assms(2,3) unfolding grants_later_def by fastforce

text \<open>A request id counts once. In every reachable state no two executions of one standing approval carry the same request
  id, also when agents and their requests interleave.\<close>

theorem standing_request_once:
  assumes "reach grants_start grants_step s"
  shows "distinct (map (\<lambda>e. (ex_standing e, ex_request e)) (filter (\<lambda>e. ex_request e \<noteq> None) (execs s)))"
  using grants.invariant [OF assms] by (simp add: grants_inv_def requests_unique_def)

text \<open>A run: an agent's request is checked, the approver revokes, and the execution is recorded a second later.\<close>

definition example_standing_params :: standing_params where
  "example_standing_params = \<lparr>cp_id = ''sa_1'', cp_agent = 7, cp_user = ''u'', cp_action = ''x.y'', cp_version = ''1'',
     cp_constraints = Empty, cp_name = None, cp_description = None, cp_instance = None, cp_starts = 0, cp_expires = None,
     cp_unrestricted = False, cp_resource = None\<rparr>"

definition example_grant :: standing where
  "example_grant = new_standing 0 example_standing_params"

definition example_revoked :: standing where
  "example_revoked = example_grant\<lparr>sa_status := Revoked, sa_revoked_at := Some 0\<rparr>"

definition example_execution :: execution where
  "example_execution = \<lparr>ex_id = 1, ex_standing = ''sa_1'', ex_params = Empty, ex_request = Some ''r1'', ex_at = 1000000000\<rparr>"

lemmas example_defs = example_revoked_def example_grant_def example_standing_params_def new_standing_def

lemma grants_to: "reach grants_start grants_step s \<Longrightarrow> grants_step s t \<Longrightarrow> reach grants_start grants_step t"
  by (rule reach_step)

definition example_state :: "instant \<Rightarrow> standing list \<Rightarrow> execution list \<Rightarrow> (string \<times> string option) list \<Rightarrow> grants" where
  "example_state c rows es chk = \<lparr>clock = c, table = rows, execs = es, checked = chk\<rparr>"

lemma example_granted: "reach grants_start grants_step (example_state 0 [example_grant] [] [])"
proof -
  have "reach grants_start grants_step (example_state 0 [] [] [])"
    by (rule reach_start) (simp add: grants_start_def example_state_def)
  moreover have "CreateStandingApproval 0 (\<lambda>_ _. True) example_standing_params True [] = ([example_grant], Inr example_grant)"
    by (simp add: CreateStandingApproval_def Let_def example_defs standing_checks_def)
  then have "grants_step (example_state 0 [] [] []) (example_state 0 [example_grant] [] [])"
    using grants_step.create [of "example_state 0 [] [] []"] by (simp add: example_state_def)
  ultimately show ?thesis by (rule grants_to)
qed

lemma example_is_checked: "reach grants_start grants_step (example_state 0 [example_grant] [] [(''sa_1'', Some ''r1'')])"
proof -
  have "grant_for_agent 0 ''sa_1'' 7 [example_grant] = Some example_grant"
    by (simp add: grant_for_agent_def example_defs started_def unexpired_def)
  then have "grants_step (example_state 0 [example_grant] [] []) (example_state 0 [example_grant] [] [(''sa_1'', Some ''r1'')])"
    using grants_step.check_agent [of "example_state 0 [example_grant] [] []" "''sa_1''" 7 example_grant "''r1''"]
    by (simp add: example_state_def)
  then show ?thesis by (rule grants_to [OF example_granted])
qed

lemma example_is_revoked: "reach grants_start grants_step (example_state 0 [example_revoked] [] [(''sa_1'', Some ''r1'')])"
proof -
  have "RevokeStandingApproval 0 ''sa_1'' ''u'' [example_grant] = ([example_revoked], Inr example_revoked)"
    by (simp add: RevokeStandingApproval_def update_returning_def update_where_def example_defs sql_now_def)
  then have "grants_step (example_state 0 [example_grant] [] [(''sa_1'', Some ''r1'')])
      (example_state 0 [example_revoked] [] [(''sa_1'', Some ''r1'')])"
    using grants_step.revoke [of "example_state 0 [example_grant] [] [(''sa_1'', Some ''r1'')]"] by (simp add: example_state_def)
  then show ?thesis by (rule grants_to [OF example_is_checked])
qed

lemma example_is_recorded: "reach grants_start grants_step (example_state 1000000000 [example_revoked] [example_execution] [])"
proof -
  let ?c = "[(''sa_1'', Some ''r1'')]"
  have "grants_step (example_state 0 [example_revoked] [] ?c) (example_state 1000000000 [example_revoked] [] ?c)"
    using grants_step.tick [of 1000000000 "example_state 0 [example_revoked] [] ?c"] by (simp add: example_state_def)
  then have r: "reach grants_start grants_step (example_state 1000000000 [example_revoked] [] ?c)"
    by (rule grants_to [OF example_is_revoked])
  have "insert_execution 1000000000 ''sa_1'' Empty (Some ''r1'') True [] = ([example_execution], Inr example_execution)"
    by (simp add: insert_execution_def Let_def example_execution_def next_exec_id_def sql_now_def)
  then have "grants_step (example_state 1000000000 [example_revoked] [] ?c) (example_state 1000000000 [example_revoked] [example_execution] [])"
    using grants_step.insert [of "''sa_1''" "Some ''r1''" "example_state 1000000000 [example_revoked] [] ?c" Empty True "[example_execution]"]
    by (simp add: example_state_def)
  then show ?thesis by (rule grants_to [OF r])
qed

text \<open>The check and the insert race with a revocation: there is a run in which an execution is recorded, and its action run,
  a second after the standing approval was revoked.\<close>

theorem revoke_races_with_execution:
  "\<exists>s g e r. reach grants_start grants_step s \<and> g \<in> set (table s) \<and> sa_status g = Revoked \<and> sa_revoked_at g = Some r \<and>
     e \<in> set (execs s) \<and> ex_standing e = sa_id g \<and> r < ex_at e"
  by (intro exI [of _ "example_state 1000000000 [example_revoked] [example_execution] []"] exI [of _ example_revoked]
      exI [of _ example_execution] exI [of _ 0])
    (simp add: example_is_recorded, simp add: example_state_def example_execution_def example_defs)

theorem revocation_stops_runs_witness:
  "example_revoked \<in> set (table (example_state 1000000000 [example_revoked] [] [(''sa_1'', Some ''r1'')])) \<and>
   runs_of (sa_id example_revoked) (execs (example_state 1000000000 [example_revoked] [] [(''sa_1'', Some ''r1'')]))
     \<le> runs_of (sa_id example_revoked) [] + waiting (sa_id example_revoked) [(''sa_1'', Some ''r1'')]"
proof -
  let ?s = "example_state 0 [example_revoked] [] [(''sa_1'', Some ''r1'')]"
  have "grants_step ?s (example_state 1000000000 [example_revoked] [] [(''sa_1'', Some ''r1'')])"
    using grants_step.tick [of 1000000000 ?s] by (simp add: example_state_def)
  from revocation_stops_runs [OF example_is_revoked, of example_revoked, OF _ _ r_into_rtranclp [of grants_step, OF this]]
  show ?thesis by (simp add: example_state_def example_revoked_def)
qed

theorem standing_request_once_witness:
  "distinct (map (\<lambda>e. (ex_standing e, ex_request e)) (filter (\<lambda>e. ex_request e \<noteq> None)
     (execs (example_state 1000000000 [example_revoked] [example_execution] []))))"
  by (rule standing_request_once [OF example_is_recorded])

section \<open>Listings and candidates\<close>

interpretation grant_pages: paged standing_key standing_cursor "\<lambda>g. exact_text (sa_created g)"
  by unfold_locales (simp add: standing_key_def standing_cursor_def exact_texts)

lemma standing_key_distinct: "distinct (map sa_id rows) \<Longrightarrow> distinct (map standing_key rows)"
  by (auto simp: distinct_map inj_on_def standing_key_def)

lemma grants_page_walk:
  assumes "distinct (map sa_id rows)" "\<forall>g \<in> set rows. exact_text (sa_created g)"
  shows "follow_pages (length rows + 1) (\<lambda>k. ListStandingApprovalsByAgent ag limit k rows) standing_cursor None =
    Some (rev (sort_key standing_key (filter (\<lambda>g. sa_agent g = ag \<and> sa_status g = Active) rows)))"
proof -
  let ?sel = "filter (\<lambda>g. sa_agent g = ag \<and> sa_status g = Active) rows"
  have d: "distinct (map standing_key ?sel)" using standing_key_distinct [OF assms(1)] by (rule distinct_map_filter)
  have g: "\<forall>g \<in> set ?sel. exact_text (sa_created g)" using assms(2) by simp
  have n: "length ?sel < length rows + 1" using length_filter_le [of _ rows] by (simp add: le_imp_less_Suc)
  show ?thesis
    unfolding ListStandingApprovalsByAgent_def grant_pages.newest_first_def [symmetric]
    by (rule grant_pages.follow_suffix [OF d g conjunct1 [OF clamp_limit_range], of "[]"])
      (use n in \<open>simp_all add: grant_pages.page_first grant_pages.newest_first_def\<close>)
qed

text \<open>Exact matches come before wildcard ones, and newer before older within each kind.\<close>

definition tried_before :: "string \<Rightarrow> standing \<Rightarrow> standing \<Rightarrow> bool" where
  "tried_before action g h \<longleftrightarrow>
     (if (sa_action g = action) = (sa_action h = action) then standing_key h < standing_key g else sa_action g = action)"

lemma newest_descending:
  "distinct (map sa_id rows) \<Longrightarrow> sorted_wrt (\<lambda>g h. standing_key h < standing_key g) (newest_first (filter P rows))"
  using grant_pages.descending [OF distinct_map_filter [OF standing_key_distinct], of rows P]
  by (simp add: sorted_wrt_map newest_first_def grant_pages.newest_first_def)

lemma tried_newest_first:
  assumes "distinct (map sa_id rows)" "\<And>g. P g \<Longrightarrow> (sa_action g = action) = b"
  shows "sorted_wrt (tried_before action) (newest_first (filter P rows))"
proof (rule sorted_wrt_mono_rel [OF _ newest_descending [OF assms(1)]])
  fix g h assume "g \<in> set (newest_first (filter P rows))" "h \<in> set (newest_first (filter P rows))" "standing_key h < standing_key g"
  then show "tried_before action g h" using assms(2) [of g] assms(2) [of h] by (simp add: newest_first_def tried_before_def)
qed

text \<open>The candidates for an automatic approval are exactly the usable standing approvals of the agent for the action or for all
  actions, when there are at most 100; the exact ones come first and newer ones before older ones.\<close>

theorem candidates_exact:
  assumes "distinct (map sa_id rows)"
    and "length (filter (\<lambda>g. sa_action g \<in> {action, WildcardActionType} \<and> usable now ag inst g) rows) \<le> 100"
  shows "set (FindActiveStandingApprovalsForAgent now ag action inst rows)
      = {g \<in> set rows. sa_action g \<in> {action, WildcardActionType} \<and> usable now ag inst g} \<and>
    sorted_wrt (tried_before action) (FindActiveStandingApprovalsForAgent now ag action inst rows)"
proof -
  let ?e = "newest_first (filter (\<lambda>g. sa_action g = action \<and> usable now ag inst g) rows)"
  let ?w = "newest_first (filter (\<lambda>g. sa_action g = WildcardActionType \<and> WildcardActionType \<noteq> action \<and> usable now ag inst g) rows)"
  have se: "set ?e = {g \<in> set rows. sa_action g = action \<and> usable now ag inst g}"
    and sw: "set ?w = {g \<in> set rows. sa_action g = WildcardActionType \<and> WildcardActionType \<noteq> action \<and> usable now ag inst g}"
    by (simp_all add: newest_first_def)
  have "length (?e @ ?w) = length (filter (\<lambda>g. sa_action g \<in> {action, WildcardActionType} \<and> usable now ag inst g) rows)"
    unfolding newest_first_def by (induction rows) auto
  then have found: "FindActiveStandingApprovalsForAgent now ag action inst rows = ?e @ ?w"
    unfolding FindActiveStandingApprovalsForAgent_def using assms(2) by (simp only: take_all)
  have "sorted_wrt (tried_before action) ?e" "sorted_wrt (tried_before action) ?w"
    by (rule tried_newest_first [OF assms(1), where b = True], simp)
      (rule tried_newest_first [OF assms(1), where b = False], simp)
  then have "sorted_wrt (tried_before action) (?e @ ?w)"
    unfolding sorted_wrt_append using se sw by (auto simp: tried_before_def)
  moreover have "set (?e @ ?w) = {g \<in> set rows. sa_action g \<in> {action, WildcardActionType} \<and> usable now ag inst g}"
    unfolding set_append se sw by blast
  ultimately show ?thesis unfolding found by blast
qed

theorem candidates_exact_witness:
  "set (FindActiveStandingApprovalsForAgent 0 7 ''x.y'' [] [example_grant])
      = {g \<in> set [example_grant]. sa_action g \<in> {''x.y'', WildcardActionType} \<and> usable 0 7 [] g} \<and>
    sorted_wrt (tried_before ''x.y'') (FindActiveStandingApprovalsForAgent 0 7 ''x.y'' [] [example_grant])"
  by (rule candidates_exact) simp_all

end
