(* ===== verification/StandingRequests.thy ===== *)
theory StandingRequests
  imports StandingLifecycle
begin

text \<open>
  Requests of agents for standing approvals: \<^verbatim>\<open>db/standing_approval_requests.go\<close> and the approve and deny handlers of
  \<^verbatim>\<open>api/standing_approval_requests.go\<close>. The approve handler reads the request first and creates the approval in a
  later transaction, so that two handlers can interleave; a run has a step for each part. What the handler
  looks up elsewhere (the action's schema and display name, the resolved resource details, a fresh id) are
  arguments.
\<close>

section \<open>Rows and statements\<close>

datatype request_status = RPending | RApproved | RDenied | RExpired | RCancelled

record grant_request =
  rq_id :: string
  rq_agent :: int
  rq_user :: string
  rq_action :: string
  rq_version :: string
  rq_constraints :: raw
  rq_connector :: "string option"
  rq_instance :: "string option"
  rq_display :: "string option"
  rq_status :: request_status
  rq_decided :: "instant option"
  rq_result :: "string option"
  rq_created :: instant
  rq_updated :: instant
  rq_resource :: "string option"

datatype request_error = RqNotFound | RqAlreadyResolved request_status | RqDbFailure

record request_params =
  ip_id :: string
  ip_agent :: int
  ip_user :: string
  ip_action :: string
  ip_version :: string
  ip_constraints :: raw
  ip_connector :: "string option"
  ip_instance :: "string option"
  ip_display :: "string option"
  ip_resource :: "string option"

definition new_request :: "instant \<Rightarrow> request_params \<Rightarrow> grant_request" where
  "new_request now p =
     \<lparr>rq_id = ip_id p, rq_agent = ip_agent p, rq_user = ip_user p, rq_action = ip_action p, rq_version = ip_version p,
      rq_constraints = ip_constraints p, rq_connector = ip_connector p, rq_instance = ip_instance p, rq_display = ip_display p,
      rq_status = RPending, rq_decided = None, rq_result = None, rq_created = sql_now now, rq_updated = sql_now now,
      rq_resource = ip_resource p\<rparr>"

definition request_checks :: "grant_request \<Rightarrow> bool" where
  "request_checks r \<longleftrightarrow> length (rq_id r) \<le> 255 \<and> length (rq_action r) \<le> 128 \<and> length (rq_version r) \<le> 10 \<and> rq_constraints r \<noteq> Empty"

definition InsertStandingApprovalRequest ::
  "instant \<Rightarrow> request_params \<Rightarrow> bool \<Rightarrow> grant_request list \<Rightarrow> grant_request list \<times> (request_error + grant_request)" where
  "InsertStandingApprovalRequest now p io_ok rs =
     (let r = new_request now p
      in if \<not> io_ok \<or> ip_id p \<in> rq_id ` set rs \<or> \<not> request_checks r then (rs, Inl RqDbFailure) else (r # rs, Inr r))"

definition GetStandingApprovalRequestByIDAndUser :: "string \<Rightarrow> string \<Rightarrow> grant_request list \<Rightarrow> grant_request option" where
  "GetStandingApprovalRequestByIDAndUser i u rs = find (\<lambda>r. rq_id r = i \<and> rq_user r = u) rs"

definition UpdateStandingApprovalRequestResourceDetails ::
  "string \<Rightarrow> string \<Rightarrow> string option \<Rightarrow> grant_request list \<Rightarrow> grant_request list" where
  "UpdateStandingApprovalRequestResourceDetails i u details rs =
     update_where (\<lambda>r. rq_id r = i \<and> rq_user r = u \<and> rq_resource r = None) (\<lambda>r. r\<lparr>rq_resource := details\<rparr>) rs"

definition request_key :: "grant_request \<Rightarrow> string \<times> string" where
  "request_key r = (strftime_text (rq_created r), rq_id r)"

definition request_cursor :: "grant_request \<Rightarrow> string \<times> string" where
  "request_cursor r = (TimestampForSQLite (rq_created r), rq_id r)"

datatype request_filter = OnlyPending | AnyRequest | OnlyRequest request_status

definition request_selected :: "request_filter \<Rightarrow> grant_request \<Rightarrow> bool" where
  "request_selected f r = (case f of OnlyPending \<Rightarrow> rq_status r = RPending | AnyRequest \<Rightarrow> True | OnlyRequest s \<Rightarrow> rq_status r = s)"

definition ListStandingApprovalRequestsByUser ::
  "string \<Rightarrow> request_filter \<Rightarrow> int \<Rightarrow> (string \<times> string) option \<Rightarrow> grant_request list \<Rightarrow> grant_request list \<times> bool" where
  "ListStandingApprovalRequestsByUser u f limit cursor rs =
     fetch_page request_key (clamp_limit limit) cursor (filter (\<lambda>r. rq_user r = u \<and> request_selected f r) rs)"

text \<open>Deciding sets the status of a pending request; one decided that way already counts as success, whatever standing
  approval it is linked to.\<close>

definition decide_request ::
  "(grant_request \<Rightarrow> grant_request) \<Rightarrow> request_status \<Rightarrow> string \<Rightarrow> string \<Rightarrow> grant_request list
    \<Rightarrow> grant_request list \<times> (request_error + grant_request)" where
  "decide_request f done i u rs =
     (case update_returning (\<lambda>r. rq_id r = i \<and> rq_user r = u \<and> rq_status r = RPending) f rs of
        (rs', Some r) \<Rightarrow> (rs', Inr r)
      | (_, None) \<Rightarrow> (rs, case GetStandingApprovalRequestByIDAndUser i u rs of
            None \<Rightarrow> Inl RqNotFound
          | Some r \<Rightarrow> if rq_status r = done then Inr r else Inl (RqAlreadyResolved (rq_status r))))"

definition ApproveStandingApprovalRequest ::
  "instant \<Rightarrow> string \<Rightarrow> string \<Rightarrow> string \<Rightarrow> grant_request list \<Rightarrow> grant_request list \<times> (request_error + grant_request)" where
  "ApproveStandingApprovalRequest now i u standing_id rs = decide_request
     (\<lambda>r. r\<lparr>rq_status := RApproved, rq_decided := Some now, rq_result := Some standing_id, rq_updated := now\<rparr>) RApproved i u rs"

definition DenyStandingApprovalRequest ::
  "instant \<Rightarrow> string \<Rightarrow> string \<Rightarrow> grant_request list \<Rightarrow> grant_request list \<times> (request_error + grant_request)" where
  "DenyStandingApprovalRequest now i u rs = decide_request
     (\<lambda>r. r\<lparr>rq_status := RDenied, rq_decided := Some now, rq_updated := now\<rparr>) RDenied i u rs"

section \<open>The approve handler\<close>

datatype approve_outcome =
    BadRequestId | RequestNotFound | AlreadyApproved string "standing option" | NotPending | UnknownAction
  | CreateFailed standing_error | DecideFailed request_error | ApprovedWith grant_request standing

text \<open>The first part answers at once or hands the request it read to the second.\<close>

definition approve_load ::
  "string \<Rightarrow> string \<Rightarrow> standing list \<Rightarrow> grant_request list \<Rightarrow> approve_outcome + grant_request" where
  "approve_load i0 u rows rs =
     (let i = trim_space i0
      in if i = [] then Inl BadRequestId
         else (case GetStandingApprovalRequestByIDAndUser i u rs of
             None \<Rightarrow> Inl RequestNotFound
           | Some r \<Rightarrow> (case (rq_status r, rq_result r) of
               (RApproved, Some sid) \<Rightarrow> Inl (AlreadyApproved sid (GetStandingApprovalByIDAndUser sid u rows))
             | _ \<Rightarrow> if rq_status r \<noteq> RPending then Inl NotPending else Inr r)))"

record approve_env =
  rule_name :: string
  rule_description :: string
  action_known :: bool
  fresh_id :: string
  resolved_details :: "string option"
  range_of :: order

definition params_from_request :: "instant \<Rightarrow> approve_env \<Rightarrow> string \<Rightarrow> grant_request \<Rightarrow> standing_params" where
  "params_from_request now env u r =
     \<lparr>cp_id = fresh_id env, cp_agent = rq_agent r, cp_user = u, cp_action = rq_action r, cp_version = rq_version r,
      cp_constraints = rq_constraints r, cp_name = Some (rule_name env), cp_description = Some (rule_description env),
      cp_instance = rq_instance r, cp_starts = now, cp_expires = None,
      cp_unrestricted = ConstraintsAreUnrestricted (range_of env) (rq_constraints r),
      cp_resource = (if rq_resource r \<in> {None, Some []} then resolved_details env else rq_resource r)\<rparr>"

text \<open>The second part: create and link in one transaction, which an error rolls back. \<open>started_at\<close> is the clock at the
  load, \<open>now\<close> at the transaction.\<close>

definition approve_commit ::
  "instant \<Rightarrow> instant \<Rightarrow> (int \<Rightarrow> string \<Rightarrow> bool) \<Rightarrow> approve_env \<Rightarrow> bool \<Rightarrow> string \<Rightarrow> grant_request \<Rightarrow> standing list \<times> grant_request list
    \<Rightarrow> (standing list \<times> grant_request list) \<times> approve_outcome" where
  "approve_commit now started_at owns env io_ok u r st =
     (case st of (rows, rs) \<Rightarrow>
        if \<not> action_known env then (st, UnknownAction)
        else (case CreateStandingApproval now owns (params_from_request started_at env u r) io_ok rows of
            (_, Inl e) \<Rightarrow> (st, CreateFailed e)
          | (rows', Inr g) \<Rightarrow> (case ApproveStandingApprovalRequest now (rq_id r) u (fresh_id env) rs of
              (_, Inl e) \<Rightarrow> (st, DecideFailed e)
            | (rs', Inr r') \<Rightarrow> ((rows', rs'), ApprovedWith r' g))))"

definition handleApproveStandingApprovalRequest ::
  "instant \<Rightarrow> (int \<Rightarrow> string \<Rightarrow> bool) \<Rightarrow> approve_env \<Rightarrow> bool \<Rightarrow> string \<Rightarrow> string \<Rightarrow> standing list \<times> grant_request list
    \<Rightarrow> (standing list \<times> grant_request list) \<times> approve_outcome" where
  "handleApproveStandingApprovalRequest now owns env io_ok i u st =
     (case approve_load i u (fst st) (snd st) of
        Inl out \<Rightarrow> (st, out)
      | Inr r \<Rightarrow> approve_commit now now owns env io_ok u r st)"

definition handleDenyStandingApprovalRequest ::
  "instant \<Rightarrow> string \<Rightarrow> string \<Rightarrow> grant_request list \<Rightarrow> grant_request list \<times> (request_error + grant_request) option" where
  "handleDenyStandingApprovalRequest now i0 u rs =
     (let i = trim_space i0
      in if i = [] then (rs, None)
         else (case DenyStandingApprovalRequest now i u rs of (rs', r) \<Rightarrow> (rs', Some r)))"

section \<open>Runs\<close>

text \<open>\<open>loaded\<close> holds the requests read by handlers that have not come to their transaction; \<open>granted\<close> records which
  standing approval was created for which request.\<close>

record deciding =
  time :: instant
  rules :: "standing list"
  asked :: "grant_request list"
  loaded :: "(string \<times> grant_request \<times> instant) list"
  granted :: "(string \<times> string) list"

definition deciding_start :: "deciding \<Rightarrow> bool" where
  "deciding_start s \<longleftrightarrow> rules s = [] \<and> asked s = [] \<and> loaded s = [] \<and> granted s = []"

definition note_grant :: "approve_outcome \<Rightarrow> string \<Rightarrow> (string \<times> string) list \<Rightarrow> (string \<times> string) list" where
  "note_grant out q gs = (case out of ApprovedWith _ g \<Rightarrow> (sa_id g, q) # gs | _ \<Rightarrow> gs)"

inductive deciding_step :: "deciding \<Rightarrow> deciding \<Rightarrow> bool" where
  ask: "InsertStandingApprovalRequest (time s) p io_ok (asked s) = (rs', x) \<Longrightarrow> deciding_step s (s\<lparr>asked := rs'\<rparr>)"
| load: "approve_load i u (rules s) (asked s) = Inr r \<Longrightarrow> deciding_step s (s\<lparr>loaded := (u, r, time s) # loaded s\<rparr>)"
| commit: "(u, r, t0) \<in> set (loaded s) \<Longrightarrow>
     approve_commit (time s) t0 owns env io_ok u r (rules s, asked s) = ((rows', rs'), out) \<Longrightarrow>
     deciding_step s (s\<lparr>rules := rows', asked := rs', loaded := remove1 (u, r, t0) (loaded s), granted := note_grant out (rq_id r) (granted s)\<rparr>)"
| deny: "handleDenyStandingApprovalRequest (time s) i u (asked s) = (rs', x) \<Longrightarrow> deciding_step s (s\<lparr>asked := rs'\<rparr>)"
| withdraw: "RevokeStandingApproval (time s) i u (rules s) = (rows', x) \<Longrightarrow> deciding_step s (s\<lparr>rules := rows'\<rparr>)"
| tick: "0 \<le> d \<Longrightarrow> deciding_step s (s\<lparr>time := time s + d\<rparr>)"

text \<open>What a request asks for, and what a standing approval grants.\<close>

definition asked_for :: "grant_request \<Rightarrow> int \<times> string \<times> string \<times> string \<times> raw \<times> string option" where
  "asked_for r = (rq_agent r, rq_user r, rq_action r, rq_version r, rq_constraints r, rq_instance r)"

definition grants_that :: "standing \<Rightarrow> int \<times> string \<times> string \<times> string \<times> raw \<times> string option" where
  "grants_that g = (sa_agent g, sa_user g, sa_action g, sa_version g, sa_constraints g, sa_instance g)"

text \<open>How requests move: the fields asked for stay, and a decision is final.\<close>

definition request_after :: "grant_request \<Rightarrow> grant_request \<Rightarrow> bool" where
  "request_after r r' \<longleftrightarrow> rq_id r' = rq_id r \<and> asked_for r' = asked_for r \<and>
     (rq_status r \<noteq> RPending \<longrightarrow> rq_status r' = rq_status r \<and> rq_result r' = rq_result r)"

definition requests_after :: "grant_request list \<Rightarrow> grant_request list \<Rightarrow> bool" where
  "requests_after rs rs' \<longleftrightarrow> (\<forall>r \<in> set rs. \<exists>r' \<in> set rs'. request_after r r')"

lemma request_after_refl: "request_after r r"
  by (simp add: request_after_def)

lemma requests_after_refl: "requests_after rs rs"
  by (auto simp: requests_after_def intro: request_after_refl)

lemma requests_after_trans: "requests_after a b \<Longrightarrow> requests_after b c \<Longrightarrow> requests_after a c"
  unfolding requests_after_def request_after_def by (metis (no_types, lifting))

text \<open>Every request and its standing approvals agree.\<close>

definition backed :: "standing list \<Rightarrow> grant_request list \<Rightarrow> string \<Rightarrow> string \<Rightarrow> bool" where
  "backed rows rs i q \<longleftrightarrow> (\<exists>r \<in> set rs. \<exists>g \<in> set rows.
     rq_id r = q \<and> rq_status r = RApproved \<and> sa_id g = i \<and> grants_that g = asked_for r)"

definition linked :: "standing list \<Rightarrow> grant_request list \<Rightarrow> (string \<times> string) list \<Rightarrow> bool" where
  "linked rows rs gs \<longleftrightarrow> distinct (map rq_id rs) \<and> (\<forall>i q. (i, q) \<in> set gs \<longrightarrow> backed rows rs i q) \<and>
     (\<forall>r \<in> set rs. rq_status r = RApproved \<longrightarrow> (\<exists>i. rq_result r = Some i \<and> (i, rq_id r) \<in> set gs))"

definition deciding_inv :: "deciding \<Rightarrow> bool" where
  "deciding_inv s \<longleftrightarrow> linked (rules s) (asked s) (granted s) \<and>
     (\<forall>u r t0. (u, r, t0) \<in> set (loaded s) \<longrightarrow> rq_user r = u \<and> (\<exists>r' \<in> set (asked s). request_after r r'))"

definition deciding_later :: "deciding \<Rightarrow> deciding \<Rightarrow> bool" where
  "deciding_later s t \<longleftrightarrow> requests_after (asked s) (asked t) \<and> set (granted s) \<subseteq> set (granted t)"

text \<open>A decision moves the one request it is about.\<close>

lemma decide_cases:
  assumes "decide_request f done i u rs = (rs', x)"
  obtains "rs' = rs" | r where "r \<in> set rs" "rq_id r = i" "rq_user r = u" "rq_status r = RPending" "x = Inr (f r)"
    "rs' = update_where (\<lambda>r. rq_id r = i \<and> rq_user r = u \<and> rq_status r = RPending) f rs"
proof -
  let ?p = "\<lambda>r. rq_id r = i \<and> rq_user r = u \<and> rq_status r = RPending"
  show thesis
  proof (cases "find ?p rs")
    case None
    with assms that(1) show ?thesis by (simp add: decide_request_def update_returning_def)
  next
    case (Some r)
    then have "r \<in> set rs \<and> ?p r" by (rule find_SomeD)
    moreover have "rs' = update_where ?p f rs" "x = Inr (f r)" using assms Some by (simp_all add: decide_request_def update_returning_def)
    ultimately show ?thesis using that(2) by blast
  qed
qed

lemma update_requests_after:
  assumes "\<And>r. p r \<Longrightarrow> request_after r (f r)"
  shows "requests_after rs (update_where p f rs)" "map rq_id (update_where p f rs) = map rq_id rs"
proof -
  have "request_after r (if p r then f r else r)" for r using assms request_after_refl by simp
  then show "requests_after rs (update_where p f rs)" unfolding requests_after_def update_where_def set_map by blast
  show "map rq_id (update_where p f rs) = map rq_id rs"
    using assms by (intro map_update_where) (simp add: request_after_def)
qed

lemma note_grant_simps [simp]:
  "note_grant UnknownAction q gs = gs" "note_grant (CreateFailed e) q gs = gs" "note_grant (DecideFailed d) q gs = gs"
  "note_grant (ApprovedWith r g) q gs = (sa_id g, q) # gs"
  by (simp_all add: note_grant_def)

text \<open>A transaction of the handler that changes anything adds one standing approval that grants what was asked.\<close>

lemma commit_cases:
  assumes "approve_commit now t0 owns env io_ok u r (rows, rs) = ((rows', rs'), out)" "rq_user r = u"
  obtains "rows' = rows" "rs' = rs" "note_grant out (rq_id r) gs = gs" |
    g r' where "rows' = g # rows" "note_grant out (rq_id r) gs = (sa_id g, rq_id r) # gs"
      "grants_that g = asked_for r" "ApproveStandingApprovalRequest now (rq_id r) u (sa_id g) rs = (rs', Inr r')"
proof (cases "action_known env")
  case False
  with assms(1) have "rows' = rows" "rs' = rs" "out = UnknownAction" by (simp_all add: approve_commit_def)
  with that(1) show thesis by simp
next
  case known: True
  let ?create = "CreateStandingApproval now owns (params_from_request t0 env u r) io_ok rows"
  obtain rows1 x where c: "?create = (rows1, x)" by (cases ?create)
  show thesis
  proof (cases x)
    case (Inl e)
    with assms(1) known c have "rows' = rows" "rs' = rs" "out = CreateFailed e" by (simp_all add: approve_commit_def)
    with that(1) show thesis by simp
  next
    case (Inr g)
    with c have g: "g = new_standing now (params_from_request t0 env u r)" "rows1 = g # rows"
      by (auto simp: CreateStandingApproval_def Let_def split: if_splits)
    then have i: "sa_id g = fresh_id env" by (simp add: new_standing_def params_from_request_def)
    obtain rs1 y where d: "ApproveStandingApprovalRequest now (rq_id r) u (fresh_id env) rs = (rs1, y)"
      by (cases "ApproveStandingApprovalRequest now (rq_id r) u (fresh_id env) rs")
    show thesis
    proof (cases y)
      case (Inl e)
      with assms(1) known c \<open>x = Inr g\<close> d have "rows' = rows" "rs' = rs" "out = DecideFailed e"
        by (simp_all add: approve_commit_def)
      with that(1) show thesis by simp
    next
      case (Inr r')
      moreover have "grants_that g = asked_for r"
        using assms(2) by (simp add: g(1) grants_that_def asked_for_def new_standing_def params_from_request_def)
      moreover have "rows' = g # rows" "rs' = rs1" "out = ApprovedWith r' g"
        using assms(1) known c \<open>x = Inr g\<close> d g(2) Inr by (simp_all add: approve_commit_def)
      ultimately show thesis using d i that(2) [of g r'] by simp
    qed
  qed
qed

lemma approve_result:
  assumes "ApproveStandingApprovalRequest now q u i rs = (rs', Inr x)"
  obtains r where "rs' = rs" "r \<in> set rs" "rq_id r = q" "rq_user r = u" "rq_status r = RApproved" |
    r where "r \<in> set rs" "rq_id r = q" "rq_user r = u" "rq_status r = RPending"
      "rs' = update_where (\<lambda>r. rq_id r = q \<and> rq_user r = u \<and> rq_status r = RPending)
        (\<lambda>r. r\<lparr>rq_status := RApproved, rq_decided := Some now, rq_result := Some i, rq_updated := now\<rparr>) rs"
proof -
  let ?p = "\<lambda>r. rq_id r = q \<and> rq_user r = u \<and> rq_status r = RPending"
  let ?q = "\<lambda>r. rq_id r = q \<and> rq_user r = u"
  show thesis
  proof (cases "find ?p rs")
    case None
    then obtain r where "find ?q rs = Some r" "rs' = rs" "rq_status r = RApproved"
      using assms by (cases "find ?q rs")
        (simp_all add: ApproveStandingApprovalRequest_def decide_request_def update_returning_def
          GetStandingApprovalRequestByIDAndUser_def split: if_splits)
    with find_SomeD [of ?q rs r] that(1) show ?thesis by blast
  next
    case (Some r)
    with assms find_SomeD [OF Some] that(2) [of r] show ?thesis
      by (simp add: ApproveStandingApprovalRequest_def decide_request_def update_returning_def)
  qed
qed

lemma approve_changes:
  "request_after r (r\<lparr>rq_status := RApproved, rq_decided := d, rq_result := i, rq_updated := now\<rparr>)" if "rq_status r = RPending"
  using that by (simp add: request_after_def asked_for_def)

lemma deny_changes:
  "request_after r (r\<lparr>rq_status := RDenied, rq_decided := d, rq_updated := now\<rparr>)" if "rq_status r = RPending"
  using that by (simp add: request_after_def asked_for_def)

lemma backed_mono:
  assumes "backed rows rs i q" "requests_after rs rs'"
    and "\<And>g. g \<in> set rows \<Longrightarrow> \<exists>g' \<in> set rows'. sa_id g' = sa_id g \<and> grants_that g' = grants_that g"
  shows "backed rows' rs' i q"
proof -
  obtain r g where r: "r \<in> set rs" "rq_id r = q" "rq_status r = RApproved"
      and g: "g \<in> set rows" "sa_id g = i" "grants_that g = asked_for r"
    using assms(1) unfolding backed_def by blast
  obtain r' where r': "r' \<in> set rs'" "request_after r r'" using assms(2) r(1) unfolding requests_after_def by blast
  obtain g' where g': "g' \<in> set rows'" "sa_id g' = sa_id g" "grants_that g' = grants_that g" using assms(3) g(1) by blast
  show ?thesis unfolding backed_def
    by (rule bexI [OF _ r'(1)], rule bexI [OF _ g'(1)]) (use r r'(2) g g' in \<open>simp add: request_after_def\<close>)
qed

lemma linked_rows:
  assumes "linked rows rs gs" "\<And>g. g \<in> set rows \<Longrightarrow> \<exists>g' \<in> set rows'. sa_id g' = sa_id g \<and> grants_that g' = grants_that g"
  shows "linked rows' rs gs"
  using assms(1) backed_mono [OF _ requests_after_refl assms(2)] unfolding linked_def by blast

text \<open>Requests may be decided or added, as long as none becomes approved without a grant.\<close>

lemma linked_requests:
  assumes "linked rows rs gs" "requests_after rs rs'" "distinct (map rq_id rs')"
    and "\<And>r. r \<in> set rs' \<Longrightarrow> rq_status r = RApproved \<Longrightarrow> r \<in> set rs"
  shows "linked rows rs' gs"
proof -
  have "backed rows rs' i q" if "(i, q) \<in> set gs" for i q
    using backed_mono [of rows rs i q rs' rows, OF _ assms(2)] assms(1) that unfolding linked_def by blast
  then show ?thesis using assms(1,3,4) unfolding linked_def by blast
qed

lemma linked_commit:
  assumes "linked rows rs gs" "grants_that g = asked_for r" "rq_user r = u"
    and "\<exists>r0 \<in> set rs. request_after r r0"
    and a: "ApproveStandingApprovalRequest now (rq_id r) u (sa_id g) rs = (rs', Inr x)"
  shows "linked (g # rows) rs' ((sa_id g, rq_id r) # gs)" "requests_after rs rs'"
proof -
  have d: "distinct (map rq_id rs)" using assms(1) unfolding linked_def by blast
  obtain r0 where r0: "r0 \<in> set rs" "request_after r r0" using assms(4) by blast
  have same: "r1 = r0" if "r1 \<in> set rs" "rq_id r1 = rq_id r" for r1
    using key_unique [OF d that(1) r0(1)] that(2) r0(2) by (simp add: request_after_def)
  let ?gs = "(sa_id g, rq_id r) # gs"
  have L: "linked (g # rows) rs gs" by (rule linked_rows [OF assms(1)]) auto
  from a show "linked (g # rows) rs' ?gs"
  proof (rule approve_result)
    fix r1 assume r1: "rs' = rs" "r1 \<in> set rs" "rq_id r1 = rq_id r" "rq_status r1 = RApproved"
    then have "r1 = r0" using same by simp
    then have "backed (g # rows) rs (sa_id g) (rq_id r)"
      unfolding backed_def using r1 r0 assms(2) by (intro bexI [of _ r0] bexI [of _ g]) (simp_all add: request_after_def)
    then show ?thesis using L unfolding linked_def r1(1) by auto
  next
    fix r1
    let ?p = "\<lambda>r1. rq_id r1 = rq_id r \<and> rq_user r1 = u \<and> rq_status r1 = RPending"
    let ?f = "\<lambda>r. r\<lparr>rq_status := RApproved, rq_decided := Some now, rq_result := Some (sa_id g), rq_updated := now\<rparr>"
    assume r1: "r1 \<in> set rs" "rq_id r1 = rq_id r" "rq_user r1 = u" "rq_status r1 = RPending" and rs': "rs' = update_where ?p ?f rs"
    then have e: "r1 = r0" using same by simp
    have m: "map rq_id rs' = map rq_id rs" and ra: "requests_after rs rs'"
      unfolding rs' by (rule update_requests_after, rule approve_changes, simp)+
    have f0: "?f r0 \<in> set rs'" unfolding rs' set_update_where using r0(1) r1 e by (intro bexI [of _ r0]) simp_all
    have "backed (g # rows) rs' (sa_id g) (rq_id r)"
      unfolding backed_def using f0 r0(2) assms(2)
      by (intro bexI [of _ "?f r0"] bexI [of _ g]) (simp_all add: request_after_def asked_for_def)
    moreover have "backed (g # rows) rs' i q" if "(i, q) \<in> set gs" for i q
      using backed_mono [of "g # rows" rs i q rs' "g # rows", OF _ ra] L that unfolding linked_def by blast
    moreover have "\<exists>i. rq_result r2 = Some i \<and> (i, rq_id r2) \<in> set ?gs" if "r2 \<in> set rs'" "rq_status r2 = RApproved" for r2
    proof -
      obtain r3 where r3: "r3 \<in> set rs" "r2 = (if ?p r3 then ?f r3 else r3)" using \<open>r2 \<in> set rs'\<close> unfolding rs' set_update_where by blast
      then show ?thesis using L that(2) unfolding linked_def by (cases "?p r3") auto
    qed
    ultimately show ?thesis using d m unfolding linked_def by (metis (no_types, lifting) list.set_intros(1) set_ConsD prod.inject)
  qed
  from a show "requests_after rs rs'"
  proof (rule approve_result)
    fix r1 assume "rs' = update_where (\<lambda>r1. rq_id r1 = rq_id r \<and> rq_user r1 = u \<and> rq_status r1 = RPending)
        (\<lambda>r. r\<lparr>rq_status := RApproved, rq_decided := Some now, rq_result := Some (sa_id g), rq_updated := now\<rparr>) rs"
    then show ?thesis by (simp only:) (rule update_requests_after, rule approve_changes, simp)
  qed (simp add: requests_after_refl)
qed

lemma ask_requests:
  assumes "InsertStandingApprovalRequest now p io_ok rs = (rs', x)" "linked rows rs gs"
  shows "linked rows rs' gs" "requests_after rs rs'"
proof -
  consider "rs' = rs" | "rs' = new_request now p # rs" "ip_id p \<notin> rq_id ` set rs"
    using assms(1) by (auto simp: InsertStandingApprovalRequest_def Let_def split: if_splits)
  then have "requests_after rs rs' \<and> linked rows rs' gs"
  proof cases
    case 1
    then show ?thesis using assms(2) requests_after_refl by simp
  next
    case 2
    have a: "requests_after rs rs'" unfolding requests_after_def 2 using request_after_refl by (meson list.set_intros(2))
    have "distinct (map rq_id rs')" using assms(2) 2 by (simp add: linked_def new_request_def)
    moreover have "rq_status (new_request now p) = RPending" by (simp add: new_request_def)
    then have "r \<in> set rs" if "r \<in> set rs'" "rq_status r = RApproved" for r using that by (auto simp: 2)
    ultimately show ?thesis using linked_requests [OF assms(2) a] a by blast
  qed
  then show "linked rows rs' gs" "requests_after rs rs'" by simp_all
qed

lemma deny_requests:
  assumes "handleDenyStandingApprovalRequest now i0 u rs = (rs', x)" "linked rows rs gs"
  shows "linked rows rs' gs" "requests_after rs rs'"
proof -
  let ?f = "\<lambda>r. r\<lparr>rq_status := RDenied, rq_decided := Some now, rq_updated := now\<rparr>"
  let ?p = "\<lambda>r. rq_id r = trim_space i0 \<and> rq_user r = u \<and> rq_status r = RPending"
  have "rs' = rs \<or> rs' = update_where ?p ?f rs"
  proof (cases "trim_space i0 = []")
    case True
    then show ?thesis using assms(1) by (simp add: handleDenyStandingApprovalRequest_def)
  next
    case False
    obtain y where d: "decide_request ?f RDenied (trim_space i0) u rs = (rs', y)"
      using assms(1) False
      by (cases "decide_request ?f RDenied (trim_space i0) u rs")
        (simp add: handleDenyStandingApprovalRequest_def DenyStandingApprovalRequest_def)
    then show ?thesis by (rule decide_cases) simp_all
  qed
  moreover have "requests_after rs (update_where ?p ?f rs)" "map rq_id (update_where ?p ?f rs) = map rq_id rs"
    by (rule update_requests_after, rule deny_changes, simp)+
  moreover from this have "linked rows (update_where ?p ?f rs) gs"
    using assms(2) by (intro linked_requests [OF assms(2)]) (auto simp: linked_def set_update_where split: if_splits)
  ultimately show "linked rows rs' gs" "requests_after rs rs'" using assms(2) requests_after_refl by auto
qed

lemma withdraw_rows:
  assumes "RevokeStandingApproval now i u rows = (rows', x)" "linked rows rs gs"
  shows "linked rows' rs gs"
proof -
  let ?p = "\<lambda>g. sa_id g = i \<and> sa_user g = u \<and> sa_status g = Active"
  let ?f = "\<lambda>g. g\<lparr>sa_status := Revoked, sa_revoked_at := Some (sql_now now)\<rparr>"
  have "rows' = rows \<or> rows' = update_where ?p ?f rows"
    using assms(1) by (cases "find ?p rows") (simp_all add: RevokeStandingApproval_def update_returning_def)
  moreover have "linked (update_where ?p ?f rows) rs gs"
  proof (rule linked_rows [OF assms(2)])
    fix g assume "g \<in> set rows"
    then show "\<exists>g' \<in> set (update_where ?p ?f rows). sa_id g' = sa_id g \<and> grants_that g' = grants_that g"
      by (intro bexI [of _ "if ?p g then ?f g else g"]) (simp_all add: update_where_def grants_that_def)
  qed
  ultimately show ?thesis using assms(2) by auto
qed

lemma load_request:
  assumes "approve_load i0 u rows rs = Inr r"
  shows "r \<in> set rs" "rq_user r = u" "rq_status r = RPending" "rq_id r = trim_space i0" "trim_space i0 \<noteq> []"
proof -
  show "trim_space i0 \<noteq> []" using assms by (auto simp: approve_load_def)
  have f: "GetStandingApprovalRequestByIDAndUser (trim_space i0) u rs = Some r \<and> rq_status r = RPending"
  proof (cases "trim_space i0 = []")
    case True
    with assms show ?thesis by (simp add: approve_load_def)
  next
    case ne: False
    show ?thesis
    proof (cases "GetStandingApprovalRequestByIDAndUser (trim_space i0) u rs")
      case None
      with assms ne show ?thesis by (simp add: approve_load_def)
    next
      case (Some r1)
      with assms ne show ?thesis
        by (cases "rq_status r1"; cases "rq_result r1") (simp_all add: approve_load_def)
    qed
  qed
  then show "rq_status r = RPending" by simp
  from f find_SomeD [of "\<lambda>r. rq_id r = trim_space i0 \<and> rq_user r = u" rs r] show "r \<in> set rs" "rq_user r = u" "rq_id r = trim_space i0"
    by (simp_all add: GetStandingApprovalRequestByIDAndUser_def)
qed

lemma deciding_inv_requests:
  assumes "deciding_inv s" "linked (rules t) (asked t) (granted t)" "requests_after (asked s) (asked t)"
    and "set (loaded t) \<subseteq> set (loaded s)" "set (granted s) \<subseteq> set (granted t)"
  shows "deciding_inv t \<and> deciding_later s t"
proof -
  have "rq_user r = u \<and> (\<exists>r' \<in> set (asked t). request_after r r')" if l: "(u, r, t0) \<in> set (loaded t)" for u r t0
  proof -
    have "(u, r, t0) \<in> set (loaded s)" using assms(4) l by (rule subsetD)
    then obtain r1 where r1: "rq_user r = u" "r1 \<in> set (asked s)" "request_after r r1"
      using assms(1) unfolding deciding_inv_def by meson
    then obtain r2 where r2: "r2 \<in> set (asked t)" "request_after r1 r2" using assms(3) unfolding requests_after_def by blast
    have "request_after r r2" using r1(3) r2(2) by (simp add: request_after_def)
    then show ?thesis using r1(1) r2(1) by blast
  qed
  then show ?thesis using assms unfolding deciding_inv_def deciding_later_def by blast
qed

lemma deciding_step_ok: "deciding_step s t \<Longrightarrow> deciding_inv s \<Longrightarrow> deciding_inv t \<and> deciding_later s t"
proof (induction rule: deciding_step.induct)
  case (ask s p io_ok rs' x)
  note q = ask_requests [OF ask(1), of "rules s" "granted s"]
  show ?case using ask(2) q by (intro deciding_inv_requests [OF ask(2)]) (simp_all add: deciding_inv_def)
next
  case (load i u s r)
  note r = load_request [OF load(1)]
  have "deciding_inv (s\<lparr>loaded := (u, r, time s) # loaded s\<rparr>)"
    using load(2) r(2) bexI [of "request_after r", OF request_after_refl r(1)] by (simp add: deciding_inv_def)
  then show ?case by (simp add: deciding_later_def requests_after_refl)
next
  case (commit u r t0 s owns env io_ok rows' rs' out)
  have l: "linked (rules s) (asked s) (granted s)" and u: "rq_user r = u" "\<exists>r' \<in> set (asked s). request_after r r'"
    using commit(1,3) unfolding deciding_inv_def by meson+
  have lr: "set (remove1 (u, r, t0) (loaded s)) \<subseteq> set (loaded s)" by (rule set_remove1_subset)
  from commit(2) u(1) show ?case
  proof (rule commit_cases [where gs = "granted s"])
    assume "rows' = rules s" "rs' = asked s" "note_grant out (rq_id r) (granted s) = granted s"
    then show ?thesis using l lr requests_after_refl by (intro deciding_inv_requests [OF commit(3)]) simp_all
  next
    fix g x
    assume g: "rows' = g # rules s" "note_grant out (rq_id r) (granted s) = (sa_id g, rq_id r) # granted s" "grants_that g = asked_for r"
      and a: "ApproveStandingApprovalRequest (time s) (rq_id r) u (sa_id g) (asked s) = (rs', Inr x)"
    show ?thesis using linked_commit [OF l g(3) u a] lr g by (intro deciding_inv_requests [OF commit(3)]) auto
  qed
next
  case (deny s i u rs' x)
  note q = deny_requests [OF deny(1), of "rules s" "granted s"]
  show ?case using deny(2) q by (intro deciding_inv_requests [OF deny(2)]) (simp_all add: deciding_inv_def)
next
  case (withdraw s i u rows' x)
  note q = withdraw_rows [OF withdraw(1), of "asked s" "granted s"]
  show ?case using withdraw(2) q requests_after_refl
    by (intro deciding_inv_requests [OF withdraw(2)]) (simp_all add: deciding_inv_def)
next
  case (tick d s)
  then show ?case using requests_after_refl by (intro deciding_inv_requests [OF tick(2)]) (simp_all add: deciding_inv_def)
qed

interpretation deciding: system deciding_start deciding_step deciding_inv deciding_later
proof unfold_locales
  show "deciding_start s \<Longrightarrow> deciding_inv s" for s by (simp add: deciding_start_def deciding_inv_def linked_def)
  show "deciding_inv s \<Longrightarrow> deciding_step s t \<Longrightarrow> deciding_inv t" for s t using deciding_step_ok by blast
  show "deciding_inv s \<Longrightarrow> deciding_step s t \<Longrightarrow> deciding_later s t" for s t using deciding_step_ok by blast
  show "deciding_later s s" for s by (simp add: deciding_later_def requests_after_refl)
  show "deciding_later s t \<Longrightarrow> deciding_later t u \<Longrightarrow> deciding_later s u" for s t u
    using requests_after_trans unfolding deciding_later_def by blast
qed

section \<open>What a decision grants\<close>

text \<open>C7: A denial is final and grants nothing: whatever approvals, denials and revocations follow and however they interleave, a denied
  request stays denied and no standing approval is ever created for it.\<close>

theorem denied_request_grants_nothing:
  assumes "reach deciding_start deciding_step s" "r \<in> set (asked s)" "rq_status r = RDenied" "deciding_step\<^sup>*\<^sup>* s t"
  shows "\<exists>r' \<in> set (asked t). rq_id r' = rq_id r \<and> rq_status r' = RDenied \<and> (\<forall>i. (i, rq_id r) \<notin> set (granted t))"
proof -
  have inv: "deciding_inv t" using deciding.inv_star [OF assms(4) deciding.invariant [OF assms(1)]] .
  obtain r' where r': "r' \<in> set (asked t)" "request_after r r'"
    using deciding.later_reach [OF assms(1,4)] assms(2) unfolding deciding_later_def requests_after_def by blast
  then have q: "rq_id r' = rq_id r" "rq_status r' = RDenied" using assms(3) by (simp_all add: request_after_def)
  have "(i, rq_id r) \<notin> set (granted t)" for i
  proof
    assume "(i, rq_id r) \<in> set (granted t)"
    then have "backed (rules t) (asked t) i (rq_id r)" using inv unfolding deciding_inv_def linked_def by blast
    then obtain r2 where r2: "r2 \<in> set (asked t)" "rq_id r2 = rq_id r" "rq_status r2 = RApproved" unfolding backed_def by blast
    have "distinct (map rq_id (asked t))" using inv unfolding deciding_inv_def linked_def by blast
    then have "r2 = r'" using key_unique [of rq_id "asked t" r2 r'] r2 r'(1) q(1) by simp
    then show False using r2(3) q(2) by simp
  qed
  then show ?thesis using r'(1) q by blast
qed


text \<open>Approving is idempotent when nothing interleaves: a second call answers with the standing approval of the first and changes
  nothing.\<close>

theorem approve_twice_in_sequence:
  assumes "handleApproveStandingApprovalRequest now owns env io_ok i u (rows, rs) = (st, ApprovedWith r g)"
    and "distinct (map rq_id rs)"
  shows "handleApproveStandingApprovalRequest now' owns' env' io_ok' i u st = (st, AlreadyApproved (sa_id g) (Some g))"
proof -
  have "approve_load i u rows rs \<noteq> Inl (ApprovedWith r g)"
    by (auto simp: approve_load_def Let_def split: option.splits request_status.splits)
  with assms(1) obtain r0 where load: "approve_load i u rows rs = Inr r0"
    by (cases "approve_load i u rows rs") (auto simp: handleApproveStandingApprovalRequest_def)
  note r0 = load_request [OF load]
  let ?f = "\<lambda>r. r\<lparr>rq_status := RApproved, rq_decided := Some now, rq_result := Some (sa_id g), rq_updated := now\<rparr>"
  let ?p = "\<lambda>r. rq_id r = rq_id r0 \<and> rq_user r = u \<and> rq_status r = RPending"
  from assms(1) load have c: "approve_commit now now owns env io_ok u r0 (rows, rs) = ((fst st, snd st), ApprovedWith r g)"
    by (simp add: handleApproveStandingApprovalRequest_def)
  obtain g' x where g': "fst st = g' # rows" "note_grant (ApprovedWith r g) (rq_id r0) [] = [(sa_id g', rq_id r0)]" "grants_that g' = asked_for r0"
      "ApproveStandingApprovalRequest now (rq_id r0) u (sa_id g') rs = (snd st, Inr x)"
    using c r0(2) by (rule commit_cases [where gs = "[]"]) auto
  have "g' = g" using c g'(1)
    by (auto simp: approve_commit_def CreateStandingApproval_def Let_def split: if_splits sum.splits prod.splits)
  note g = g' [unfolded this]
  have f: "find ?p rs = Some r0" using r0 by (intro find_key [OF assms(2)]) simp_all
  then have rs': "snd st = update_where ?p ?f rs"
    using g(4) by (simp add: ApproveStandingApprovalRequest_def decide_request_def update_returning_def)
  have m: "map rq_id (snd st) = map rq_id rs" unfolding rs' by (rule update_requests_after, rule approve_changes, simp)
  have "?f r0 \<in> set (snd st)" unfolding rs' set_update_where using r0 by (intro bexI [of _ r0]) simp_all
  then have "GetStandingApprovalRequestByIDAndUser (trim_space i) u (snd st) = Some (?f r0)"
    unfolding GetStandingApprovalRequestByIDAndUser_def using r0 m assms(2) by (intro find_key [of rq_id]) simp_all
  moreover have "GetStandingApprovalByIDAndUser (sa_id g) u (fst st) = Some g"
    using g(1,3) r0(2) by (simp add: GetStandingApprovalByIDAndUser_def grants_that_def asked_for_def)
  ultimately have "approve_load i u (fst st) (snd st) = Inl (AlreadyApproved (sa_id g) (Some g))"
    using r0(5) by (simp add: approve_load_def)
  then show ?thesis by (simp add: handleApproveStandingApprovalRequest_def)
qed

section \<open>Two handlers at once\<close>

definition example_ask :: request_params where
  "example_ask = \<lparr>ip_id = ''sar_1'', ip_agent = 7, ip_user = ''u'', ip_action = ''x.y'', ip_version = ''1'', ip_constraints = Garbage,
     ip_connector = None, ip_instance = None, ip_display = None, ip_resource = None\<rparr>"

definition example_env :: "string \<Rightarrow> approve_env" where
  "example_env i = \<lparr>rule_name = ''n'', rule_description = ''d'', action_known = True, fresh_id = i, resolved_details = None,
     range_of = (\<lambda>ks. ks)\<rparr>"

definition example_pending :: grant_request where
  "example_pending = new_request 0 example_ask"

definition example_decided :: grant_request where
  "example_decided = example_pending\<lparr>rq_status := RApproved, rq_decided := Some 0, rq_result := Some ''sa_1'', rq_updated := 0\<rparr>"

definition example_rule :: "string \<Rightarrow> standing" where
  "example_rule i = new_standing 0 (params_from_request 0 (example_env i) ''u'' example_pending)"

definition deciding_at :: "standing list \<Rightarrow> grant_request list \<Rightarrow> nat \<Rightarrow> (string \<times> string) list \<Rightarrow> deciding" where
  "deciding_at rows rs n gs = \<lparr>time = 0, rules = rows, asked = rs, loaded = replicate n (''u'', example_pending, 0), granted = gs\<rparr>"

lemma example_pending_fields [simp]:
  "rq_id example_pending = ''sar_1''" "rq_user example_pending = ''u''" "rq_agent example_pending = 7" "rq_status example_pending = RPending"
  "rq_action example_pending = ''x.y''" "rq_version example_pending = ''1''"
  by (simp_all add: example_pending_def new_request_def example_ask_def)

lemma example_rule_fields [simp]:
  "sa_id (example_rule i) = i" "sa_user (example_rule i) = ''u''" "sa_status (example_rule i) = Active" 
  by (simp_all add: example_rule_def new_standing_def params_from_request_def example_env_def)

lemma trim_id: "trim_space ''sar_1'' = ''sar_1''" by code_simp

lemma example_checks: "length i \<le> 255 \<Longrightarrow> standing_checks (example_rule i)"
  by (simp add: standing_checks_def example_rule_def new_standing_def params_from_request_def example_env_def)

lemma example_asked: "reach deciding_start deciding_step (deciding_at [] [example_pending] 0 [])"
proof -
  have "reach deciding_start deciding_step (deciding_at [] [] 0 [])"
    by (rule reach_start) (simp add: deciding_start_def deciding_at_def)
  moreover have "InsertStandingApprovalRequest 0 example_ask True [] = ([example_pending], Inr example_pending)"
    by (simp add: InsertStandingApprovalRequest_def Let_def request_checks_def example_pending_def new_request_def example_ask_def)
  then have "deciding_step (deciding_at [] [] 0 []) (deciding_at [] [example_pending] 0 [])"
    using deciding_step.ask [of "deciding_at [] [] 0 []"] by (simp add: deciding_at_def)
  ultimately show ?thesis by (rule reach_step)
qed

lemma example_load:
  assumes "reach deciding_start deciding_step (deciding_at [] [example_pending] n [])"
  shows "reach deciding_start deciding_step (deciding_at [] [example_pending] (Suc n) [])"
proof -
  have "approve_load ''sar_1'' ''u'' [] [example_pending] = Inr example_pending"
    by (simp add: approve_load_def trim_id GetStandingApprovalRequestByIDAndUser_def)
  then have "deciding_step (deciding_at [] [example_pending] n []) (deciding_at [] [example_pending] (Suc n) [])"
    using deciding_step.load [of "''sar_1''" "''u''" "deciding_at [] [example_pending] n []" example_pending]
    by (simp add: deciding_at_def)
  with assms show ?thesis by (rule reach_step)
qed

lemma example_create:
  "i \<notin> sa_id ` set rows \<Longrightarrow> length i \<le> 255 \<Longrightarrow>
   CreateStandingApproval 0 (\<lambda>_ _. True) (params_from_request 0 (example_env i) ''u'' example_pending) True rows
     = (example_rule i # rows, Inr (example_rule i))"
  using example_checks [of i]
  by (simp add: CreateStandingApproval_def Let_def example_rule_def [symmetric])
    (simp add: params_from_request_def example_env_def)

lemma example_commit:
  assumes "reach deciding_start deciding_step (deciding_at rows rs (Suc n) gs)" "i \<notin> sa_id ` set rows" "length i \<le> 255"
    and "ApproveStandingApprovalRequest 0 ''sar_1'' ''u'' i rs = (rs', Inr x)"
  shows "reach deciding_start deciding_step (deciding_at (example_rule i # rows) rs' n ((i, ''sar_1'') # gs))"
proof -
  have "approve_commit 0 0 (\<lambda>_ _. True) (example_env i) True ''u'' example_pending (rows, rs)
      = ((example_rule i # rows, rs'), ApprovedWith x (example_rule i))"
    using assms(4) example_create [OF assms(2,3)] by (simp add: approve_commit_def example_env_def)
  then have "deciding_step (deciding_at rows rs (Suc n) gs) (deciding_at (example_rule i # rows) rs' n ((i, ''sar_1'') # gs))"
    using deciding_step.commit [of "''u''" example_pending 0 "deciding_at rows rs (Suc n) gs" "\<lambda>_ _. True" "example_env i" True]
    by (simp add: deciding_at_def)
  with assms(1) show ?thesis by (rule reach_step)
qed

lemma example_granted_once:
  "reach deciding_start deciding_step (deciding_at [example_rule ''sa_1''] [example_decided] 1 [(''sa_1'', ''sar_1'')])"
proof -
  have "ApproveStandingApprovalRequest 0 ''sar_1'' ''u'' ''sa_1'' [example_pending] = ([example_decided], Inr example_decided)"
    by (simp add: ApproveStandingApprovalRequest_def decide_request_def update_returning_def update_where_def example_decided_def)
  from example_commit [OF example_load [OF example_load [OF example_asked]] _ _ this] show ?thesis by simp
qed

lemma example_granted_twice:
  "reach deciding_start deciding_step
     (deciding_at [example_rule ''sa_2'', example_rule ''sa_1''] [example_decided] 0 [(''sa_2'', ''sar_1''), (''sa_1'', ''sar_1'')])"
proof -
  have "ApproveStandingApprovalRequest 0 ''sar_1'' ''u'' ''sa_2'' [example_decided] = ([example_decided], Inr example_decided)"
    by (simp add: ApproveStandingApprovalRequest_def decide_request_def update_returning_def update_where_def example_decided_def
        GetStandingApprovalRequestByIDAndUser_def)
  from example_commit [of "[example_rule ''sa_1'']" "[example_decided]" 0 "[(''sa_1'', ''sar_1'')]" "''sa_2''", OF _ _ _ this]
  show ?thesis using example_granted_once by simp
qed

text \<open>C39: Two approve calls that both read the pending request create two standing approvals for it, both active; the second is not the one the
  request is linked to, so it does not show there and outlives a revocation of the linked one.\<close>

theorem request_granted_twice:
  "\<exists>s i j r. reach deciding_start deciding_step s \<and> (i, r) \<in> set (granted s) \<and> (j, r) \<in> set (granted s) \<and> i \<noteq> j \<and>
     list_all (\<lambda>g. sa_status g = Active) (rules s) \<and> {i, j} \<subseteq> sa_id ` set (rules s) \<and>
     map rq_result (filter (\<lambda>q. rq_id q = r) (asked s)) = [Some i]"
  by (intro exI [of _ "deciding_at [example_rule ''sa_2'', example_rule ''sa_1''] [example_decided] 0 [(''sa_2'', ''sar_1''), (''sa_1'', ''sar_1'')]"]
      exI [of _ "''sa_1''"] exI [of _ "''sa_2''"] exI [of _ "''sar_1''"])
    (simp add: example_granted_twice, simp add: deciding_at_def example_decided_def)


theorem approve_twice_in_sequence_witness:
  "handleApproveStandingApprovalRequest 5 (\<lambda>_ _. False) (example_env ''sa_9'') True ''sar_1'' ''u'' ([example_rule ''sa_1''], [example_decided])
     = (([example_rule ''sa_1''], [example_decided]), AlreadyApproved ''sa_1'' (Some (example_rule ''sa_1'')))"
proof -
  have "ApproveStandingApprovalRequest 0 ''sar_1'' ''u'' ''sa_1'' [example_pending] = ([example_decided], Inr example_decided)"
    by (simp add: ApproveStandingApprovalRequest_def decide_request_def update_returning_def update_where_def example_decided_def)
  moreover have "approve_load ''sar_1'' ''u'' [] [example_pending] = Inr example_pending"
    by (simp add: approve_load_def trim_id GetStandingApprovalRequestByIDAndUser_def)
  ultimately have "handleApproveStandingApprovalRequest 0 (\<lambda>_ _. True) (example_env ''sa_1'') True ''sar_1'' ''u'' ([], [example_pending])
      = (([example_rule ''sa_1''], [example_decided]), ApprovedWith example_decided (example_rule ''sa_1''))"
    using example_create [of "''sa_1''" "[]"] by (simp add: handleApproveStandingApprovalRequest_def approve_commit_def example_env_def)
  from approve_twice_in_sequence [OF this] show ?thesis by simp
qed

definition example_denied :: grant_request where
  "example_denied = example_pending\<lparr>rq_status := RDenied, rq_decided := Some 0, rq_updated := 0\<rparr>"

theorem denied_request_grants_nothing_witness:
  "\<exists>r' \<in> set [example_denied]. rq_id r' = rq_id example_denied \<and> rq_status r' = RDenied \<and> (\<forall>i. (i, rq_id example_denied) \<notin> set [])"
proof -
  have "handleDenyStandingApprovalRequest 0 ''sar_1'' ''u'' [example_pending] = ([example_denied], Some (Inr example_denied))"
    by (simp add: handleDenyStandingApprovalRequest_def trim_id DenyStandingApprovalRequest_def decide_request_def update_returning_def
        update_where_def example_denied_def)
  then have "deciding_step (deciding_at [] [example_pending] 1 []) (deciding_at [] [example_denied] 1 [])"
    using deciding_step.deny [of "deciding_at [] [example_pending] 1 []" "''sar_1''" "''u''"] by (simp add: deciding_at_def)
  then have "reach deciding_start deciding_step (deciding_at [] [example_denied] 1 [])"
    by (rule reach_step [OF example_load [OF example_asked, unfolded One_nat_def [symmetric]]])
  moreover have "deciding_step (deciding_at [] [example_denied] 1 []) (deciding_at [] [example_denied] 1 [])"
    using deciding_step.tick [of 0 "deciding_at [] [example_denied] 1 []"] by (simp add: deciding_at_def)
  ultimately show ?thesis
    using denied_request_grants_nothing [of "deciding_at [] [example_denied] 1 []" example_denied "deciding_at [] [example_denied] 1 []"]
    by (simp add: deciding_at_def example_denied_def)
qed

end
