(* ===== verification/ConstraintAuthoring.thy ===== *)
theory ConstraintAuthoring
  imports RelativeDates FlatConstraints
begin

text \<open>
  Writing constraints: validation and normalisation of what a user or an agent sends
  (\<^verbatim>\<open>validateStandingApprovalConstraints\<close> in \<^verbatim>\<open>api/standing_approvals.go\<close>) and the check of its keys against
  the schema of the action and the metadata of the connector
  (\<^verbatim>\<open>api/standing_approval_constraint_keys.go\<close>). The schema lookup (\<open>Inl\<close> an error, \<open>None\<close> no row), the lookup
  of the window parameters and the connector registry are arguments.
\<close>

section \<open>Normalising\<close>

definition wrap_pattern :: "string \<Rightarrow> json" where
  "wrap_pattern s = JObj [(PatternKey, JStr s)]"

definition null_value :: string where
  "null_value = ''constraint values must not be null; use '' @ quoted ''*'' @ '' for a wildcard or omit the key entirely''"

text \<open>A plain string with a star in it becomes a pattern; \<open>None\<close> is an unchanged value.\<close>

definition auto_wrap :: "json \<Rightarrow> json option" where
  "auto_wrap v = (case json_string v of
       None \<Rightarrow> None
     | Some s \<Rightarrow> if s = ''*'' then None else if CHR ''*'' \<in> set s then Some (wrap_pattern s) else None)"

definition author_meta_value :: "string \<Rightarrow> json \<Rightarrow> json option result" where
  "author_meta_value k v =
     (if k = [] then Inl (OtherErr ''$meta constraint keys must not be empty'')
      else if v = JNull then Inl (OtherErr null_value)
      else Inr (auto_wrap v))"

text \<open>A loop over a map that replaces values in it; the flag says whether any was.\<close>

fun rewrite_values :: "(string \<Rightarrow> json \<Rightarrow> json option result) \<Rightarrow> string list \<Rightarrow> json gomap \<Rightarrow> bool \<Rightarrow> (json gomap \<times> bool) result" where
  "rewrite_values f [] m mutated = Inr (m, mutated)"
| "rewrite_values f (k # ks) m mutated =
     (case f k (the (map_of m k)) of
        Inl e \<Rightarrow> Inl e
      | Inr None \<Rightarrow> rewrite_values f ks m mutated
      | Inr (Some v) \<Rightarrow> rewrite_values f ks (AList.update k v m) True)"

definition sorted_object :: "json gomap \<Rightarrow> json" where
  "sorted_object m = JObj (sort_key fst m)"

definition author_meta :: "order \<Rightarrow> json \<Rightarrow> json option result" where
  "author_meta ord v =
     (case json_map v of
        None \<Rightarrow> Inl (OtherErr ''$meta constraints must be a JSON object'')
      | Some m \<Rightarrow> (case rewrite_values author_meta_value (ord (keys m)) m False of
          Inl e \<Rightarrow> Inl e
        | Inr (m', mutated) \<Rightarrow> Inr (if mutated then Some (sorted_object m') else None)))"

definition author_value :: "order \<Rightarrow> string \<Rightarrow> json \<Rightarrow> json option result" where
  "author_value ord k v =
     (if k = MetaNamespaceKey then author_meta ord v
      else if k = DataWindowNamespaceKey then
        (case ValidateDataWindowConstraintShape ord (Doc v) of Some e \<Rightarrow> Inl e | None \<Rightarrow> Inr None)
      else (case ExtractRelativeDateToken (Doc v) of
          Some token \<Rightarrow> (case ValidateRelativeDateToken token of Some e \<Rightarrow> Inl e | None \<Rightarrow> Inr None)
        | None \<Rightarrow> if v = JNull then Inl (OtherErr null_value) else Inr (auto_wrap v)))"

definition dbConditionValues :: "condition \<Rightarrow> raw list" where
  "dbConditionValues c =
     (if c_op c \<in> {OpAnyOf, OpNoneOf} then c_values c
      else if c_op c \<in> {OpMatches, OpDoesNotMatch} then (if c_value c \<noteq> Empty then [c_value c] else [])
      else [])"

definition author_condition :: "condition \<Rightarrow> go_error option" where
  "author_condition c =
     (if is_meta_field (c_field c) \<and> trim_prefix (c_field c) (MetaNamespaceKey @ ''.'') = []
      then Some (OtherErr ''$meta constraint keys must not be empty'')
      else first_err (\<lambda>v. if v = Doc JNull then Some (OtherErr null_value)
          else (case ExtractRelativeDateToken v of None \<Rightarrow> None | Some token \<Rightarrow> ValidateRelativeDateToken token)) (dbConditionValues c))"

definition validateStructuredStandingApprovalConstraints :: "order \<Rightarrow> raw \<Rightarrow> raw result" where
  "validateStructuredStandingApprovalConstraints ord r =
     (case ValidateStructuredConstraintShape ord r of
        Some e \<Rightarrow> Inl e
      | None \<Rightarrow> (case ParseStructuredConstraints ord r of
          Inl e \<Rightarrow> Inl e
        | Inr sc \<Rightarrow> (case first_err (\<lambda>g. first_err author_condition (g_conditions g)) (sc_groups sc) of
            Some e \<Rightarrow> Inl e
          | None \<Rightarrow> NormalizeStructuredConstraints r)))"

definition validateStandingApprovalConstraints :: "order \<Rightarrow> raw \<Rightarrow> raw result" where
  "validateStandingApprovalConstraints ord r =
     (if r = Empty \<or> r = Doc JNull then Inl (OtherErr ''constraints are required for standing approvals'')
      else if IsStructuredConstraintsV2 r then
        (case ParseStructuredConstraints ord r of
           Inl e \<Rightarrow> Inl e
         | Inr sc \<Rightarrow> if StructuredConstraintGroupsAreEmpty sc then Inr (Doc (JObj []))
             else validateStructuredStandingApprovalConstraints ord r)
      else (case unmarshal json_map r of
          None \<Rightarrow> Inl (OtherErr ''constraints must be a JSON object'')
        | Some obj \<Rightarrow> if obj = [] then Inr (Doc (JObj []))
            else (case rewrite_values (author_value ord) (ord (keys obj)) obj False of
                Inl e \<Rightarrow> Inl e
              | Inr (obj', mutated) \<Rightarrow> Inr (if mutated then Doc (sorted_object obj') else r))))"

section \<open>Keys of the schema\<close>

definition mergePropertyKeys :: "json \<Rightarrow> string list \<Rightarrow> string list option" where
  "mergePropertyKeys props ks = map_option (\<lambda>m. ks @ filter (\<lambda>k. k \<notin> set ks) (keys m)) (json_map props)"

fun merge_branch_keys :: "json gomap list \<Rightarrow> string list \<Rightarrow> string list option" where
  "merge_branch_keys [] ks = Some ks"
| "merge_branch_keys (b # bs) ks =
     (case map_of b ''properties'' of
        None \<Rightarrow> merge_branch_keys bs ks
      | Some props \<Rightarrow> (case mergePropertyKeys props ks of None \<Rightarrow> None | Some ks' \<Rightarrow> merge_branch_keys bs ks'))"

definition extractSchemaPropertyKeys :: "raw \<Rightarrow> string list option" where
  "extractSchemaPropertyKeys schema =
     (case unmarshal json_map schema of
        None \<Rightarrow> None
      | Some doc \<Rightarrow>
          (case (case map_of doc ''properties'' of None \<Rightarrow> Some [] | Some props \<Rightarrow> mergePropertyKeys props []) of
             None \<Rightarrow> None
           | Some ks \<Rightarrow> (case map_of doc ''anyOf'' of
               None \<Rightarrow> Some ks
             | Some anyOf \<Rightarrow> (case json_maps anyOf of None \<Rightarrow> None | Some branches \<Rightarrow> merge_branch_keys branches ks))))"

text \<open>\<open>None\<close> is the nil map: no schema.\<close>

definition actionSchemaPropertyKeys :: "raw option result \<Rightarrow> string list option result" where
  "actionSchemaPropertyKeys lookup =
     (case lookup of
        Inl e \<Rightarrow> Inl (Wrapped ''lookup action schema: '' e)
      | Inr None \<Rightarrow> Inr None
      | Inr (Some schema) \<Rightarrow> if schema = Empty then Inr None
          else (case extractSchemaPropertyKeys schema of
              None \<Rightarrow> Inl (OtherErr ''parse action schema'')
            | Some ks \<Rightarrow> Inr (Some ks)))"

section \<open>Filling in\<close>

fun fill_keys :: "string list \<Rightarrow> json gomap option \<Rightarrow> bool \<Rightarrow> (json gomap option \<times> bool) result" where
  "fill_keys [] m mutated = Inr (m, mutated)"
| "fill_keys (k # ks) m mutated =
     (if map_of (case m of None \<Rightarrow> [] | Some m' \<Rightarrow> m') k \<noteq> None then fill_keys ks m mutated
      else (case assign k (JStr ''*'') m of Inl e \<Rightarrow> Inl e | Inr m' \<Rightarrow> fill_keys ks m' True))"

definition fillMissingSchemaParameterWildcards :: "order \<Rightarrow> raw option result \<Rightarrow> raw \<Rightarrow> raw result" where
  "fillMissingSchemaParameterWildcards ord lookup constraints =
     (case actionSchemaPropertyKeys lookup of
        Inl e \<Rightarrow> Inl e
      | Inr schemaKeys \<Rightarrow>
          (case schemaKeys of
             None \<Rightarrow> Inr constraints
           | Some ks \<Rightarrow>
               if ks = [] then Inr constraints
               else if IsStructuredConstraintsV2 constraints then
                 (case ParseStructuredConstraints ord constraints of
                    Inl e \<Rightarrow> Inl e
                  | Inr sc \<Rightarrow> MarshalStructuredConstraints (AddMissingSchemaFieldsToStructured ord sc ks))
               else (case (if constraints = Doc JNull then Some None else map_option Some (unmarshal json_map constraints)) of
                   None \<Rightarrow> Inl (OtherErr ''constraints must be a JSON object'')
                 | Some m \<Rightarrow> (case fill_keys (ord ks) m False of
                     Inl e \<Rightarrow> Inl e
                   | Inr (m', mutated) \<Rightarrow> Inr (if mutated then marshal_map m' else constraints)))))"

section \<open>Checking keys\<close>

text \<open>The registry: no registry at all, no connector of that name, a connector without metadata capabilities, or the
  fields it supports for an action.\<close>

type_synonym registry = "(string \<Rightarrow> (string \<Rightarrow> string list \<times> bool) option option) option"

definition actionMetaConstraintFieldList :: "registry \<Rightarrow> string \<Rightarrow> string list option" where
  "actionMetaConstraintFieldList registry actionType =
     (case registry of
        None \<Rightarrow> None
      | Some get \<Rightarrow> if CHR ''.'' \<notin> set actionType then None
          else (case get (takeWhile (\<lambda>c. c \<noteq> CHR ''.'') actionType) of
              None \<Rightarrow> None
            | Some None \<Rightarrow> None
            | Some (Some support) \<Rightarrow> (case support actionType of
                (fs, supported) \<Rightarrow> if \<not> supported \<or> fs = [] then None else Some (sort fs))))"

definition connectorMetaConstraintFields :: "registry \<Rightarrow> string \<Rightarrow> string set option" where
  "connectorMetaConstraintFields registry actionType = map_option set (actionMetaConstraintFieldList registry actionType)"

text \<open>\<^verbatim>\<open>json.Number\<close> takes a number, null, and a string that reads as a number; the string case is never reached.\<close>

definition isAllowedParameterConstraintValue :: "raw \<Rightarrow> bool" where
  "isAllowedParameterConstraintValue v \<longleftrightarrow>
     ExtractRelativeDateToken v \<noteq> None \<or> unmarshal json_string v \<noteq> None \<or>
     (\<exists>n. v = Doc (JNum n)) \<or> (\<exists>b. v = Doc (JBool b)) \<or>
     (case unmarshal json_map v of None \<Rightarrow> False | Some m \<Rightarrow> length m = 1 \<and> map_of m PatternKey \<noteq> None)"

lemma allowed_value_code [code]:
  "isAllowedParameterConstraintValue v \<longleftrightarrow>
     ExtractRelativeDateToken v \<noteq> None \<or> unmarshal json_string v \<noteq> None \<or>
     (case v of Doc (JNum n) \<Rightarrow> True | Doc (JBool b) \<Rightarrow> True | _ \<Rightarrow> False) \<or>
     (case unmarshal json_map v of None \<Rightarrow> False | Some m \<Rightarrow> length m = 1 \<and> map_of m PatternKey \<noteq> None)"
  by (auto simp: isAllowedParameterConstraintValue_def split: raw.splits json.splits)

definition unknown_key :: "string \<Rightarrow> string \<Rightarrow> string" where
  "unknown_key key actionType = ''constraint key '' @ quoted key @ '' is not a parameter on action '' @ quoted actionType"

definition formatUnknownConstraintKeyError :: "string \<Rightarrow> string \<Rightarrow> string set option \<Rightarrow> go_error" where
  "formatUnknownConstraintKeyError key actionType metaFields =
     OtherErr (case metaFields of
         Some fs \<Rightarrow> if key \<in> fs then unknown_key key actionType @
             ''; did you mean a verified metadata constraint? Use {'' @ quoted ''$meta'' @ '':{'' @ quoted key @ '':...}}''
           else unknown_key key actionType
       | None \<Rightarrow> unknown_key key actionType)"

definition formatEmptyConstraintKeyError :: "order \<Rightarrow> raw \<Rightarrow> string set option \<Rightarrow> go_error" where
  "formatEmptyConstraintKeyError ord v metaFields =
     OtherErr (case (case (unmarshal json_map v, metaFields) of
           (Some m, Some fs) \<Rightarrow> find (\<lambda>k. k \<in> fs) (ord (keys m)) | _ \<Rightarrow> None) of
         Some k \<Rightarrow> ''constraint keys must not be empty; did you mean a verified metadata constraint? Use {'' @
             quoted ''$meta'' @ '':{'' @ quoted k @ '':...}}''
       | None \<Rightarrow> ''constraint keys must not be empty'')"

text \<open>The checks of one value of a parameter the schema knows; \<open>infos\<close> are the temporal fields, empty for the nil map.\<close>

definition temporal_error :: "string \<Rightarrow> string \<Rightarrow> string \<Rightarrow> date_time_field gomap \<Rightarrow> go_error option" where
  "temporal_error token key actionType infos =
     (let pre = ''relative date token '' @ quoted token @ '' is only valid on date or date-time parameters; ''
      in if infos = [] then Some (OtherErr (pre @ ''action '' @ quoted actionType @ '' has no temporal fields''))
         else if map_of infos key = None then
           Some (OtherErr (pre @ quoted key @ '' is not a temporal field on action '' @ quoted actionType))
         else None)"

definition bad_value :: "string \<Rightarrow> go_error" where
  "bad_value key = OtherErr (''constraint value for '' @ quoted key @
     '' must be a string, number, boolean, wildcard, or $pattern object'')"

record key_env =
  ke_schema :: "raw option result"
  ke_window :: "raw option result"
  ke_registry :: registry

definition check_flat_key ::
  "order \<Rightarrow> string \<Rightarrow> string list option \<Rightarrow> string set option \<Rightarrow> date_time_field gomap \<Rightarrow> json gomap \<Rightarrow> string \<Rightarrow> go_error option" where
  "check_flat_key ord actionType schemaKeys metaFields infos obj key =
     (let val = lookup_raw obj key
      in if key = MetaNamespaceKey \<or> key = DataWindowNamespaceKey then None
         else (case ExtractRelativeDateToken val of
             Some token \<Rightarrow> and_then (ValidateRelativeDateToken token)
               (case schemaKeys of
                  None \<Rightarrow> None
                | Some ks \<Rightarrow> if key \<notin> set ks then Some (formatUnknownConstraintKeyError key actionType metaFields)
                    else temporal_error token key actionType infos)
           | None \<Rightarrow>
               if key = [] then Some (formatEmptyConstraintKeyError ord val metaFields)
               else (case schemaKeys of
                   Some ks \<Rightarrow> if key \<notin> set ks then Some (formatUnknownConstraintKeyError key actionType metaFields)
                     else if \<not> isAllowedParameterConstraintValue val then Some (bad_value key) else None
                 | None \<Rightarrow>
                     if (case metaFields of None \<Rightarrow> False | Some fs \<Rightarrow> key \<in> fs) then
                       Some (formatUnknownConstraintKeyError key actionType metaFields)
                     else if isAllowedParameterConstraintValue val then None
                     else Some (formatUnknownConstraintKeyError key actionType metaFields))))"

definition unsupported_meta :: "string \<Rightarrow> go_error" where
  "unsupported_meta actionType = OtherErr (''$meta constraints are not supported for action '' @ quoted actionType)"

definition check_meta_keys :: "order \<Rightarrow> string \<Rightarrow> string set option \<Rightarrow> raw \<Rightarrow> go_error option" where
  "check_meta_keys ord actionType metaFields metaRaw =
     (case unmarshal json_map metaRaw of
        None \<Rightarrow> Some (OtherErr ''$meta constraints must be a JSON object'')
      | Some m \<Rightarrow> if m = [] then None
          else (case metaFields of
              None \<Rightarrow> Some (unsupported_meta actionType)
            | Some fs \<Rightarrow> first_err (\<lambda>k. if k \<notin> fs then
                Some (OtherErr (''unsupported $meta constraint key '' @ quoted k @ '' for action '' @ quoted actionType)) else None)
                (ord (keys m))))"

text \<open>\<open>column\<close> is \<^verbatim>\<open>SELECT data_window\<close> for the action: an error, no row, or the text of the column.\<close>

definition window_param_field :: "string \<Rightarrow> json \<Rightarrow> data_window_params \<Rightarrow> data_window_params option" where
  "window_param_field n j p =
     (if n = ''START_PARAM'' then set_string (\<lambda>s. StartParam_update (\<lambda>_. s)) j p
      else if n = ''END_PARAM'' then set_string (\<lambda>s. EndParam_update (\<lambda>_. s)) j p
      else Some p)"

definition GetActionDataWindowParams :: "raw option result \<Rightarrow> data_window_params option result" where
  "GetActionDataWindowParams column =
     (case column of
        Inl e \<Rightarrow> Inl e
      | Inr None \<Rightarrow> Inr None
      | Inr (Some r) \<Rightarrow> if r = Empty \<or> r = Doc JNull then Inr None
          else (case unmarshal (decode_struct window_param_field \<lparr>StartParam = [], EndParam = []\<rparr>) r of
              None \<Rightarrow> Inl (OtherErr ''cannot unmarshal data_window'')
            | Some p \<Rightarrow> if StartParam p = [] \<or> EndParam p = [] then Inr None else Inr (Some p)))"

definition check_window_support :: "order \<Rightarrow> string \<Rightarrow> raw option result \<Rightarrow> raw \<Rightarrow> go_error option" where
  "check_window_support ord actionType window v =
     and_then (ValidateDataWindowConstraintShape ord v)
       (case GetActionDataWindowParams window of
          Inl e \<Rightarrow> Some (Wrapped ''lookup action data window: '' e)
        | Inr None \<Rightarrow> Some (OtherErr (''$data_window constraints are not supported for action '' @ quoted actionType))
        | Inr (Some _) \<Rightarrow> None)"

text \<open>The temporal fields, looked up only when there is a schema.\<close>

definition temporal_fields :: "order \<Rightarrow> raw option result \<Rightarrow> string list option \<Rightarrow> date_time_field gomap result" where
  "temporal_fields ord lookup schemaKeys =
     (if schemaKeys = None then Inr []
      else (case lookup of
          Inl e \<Rightarrow> Inl (Wrapped ''lookup action schema: '' e)
        | Inr None \<Rightarrow> Inr []
        | Inr (Some schema) \<Rightarrow> ParseActionSchemaDateTimeFields ord schema))"

definition check_structured_condition ::
  "order \<Rightarrow> key_env \<Rightarrow> string \<Rightarrow> string list option \<Rightarrow> string set option \<Rightarrow> date_time_field gomap
    \<Rightarrow> nat \<Rightarrow> nat \<Rightarrow> condition \<Rightarrow> go_error option" where
  "check_structured_condition ord env actionType schemaKeys metaFields infos gi ci c =
     (let f = c_field c; pre = ''group '' @ nat_str gi @ '' condition '' @ nat_str ci
      in if f = DataWindowNamespaceKey then check_window_support ord actionType (ke_window env) (c_value c)
         else if is_meta_field f then
           (case metaFields of
              None \<Rightarrow> Some (unsupported_meta actionType)
            | Some fs \<Rightarrow> (let k = trim_prefix f (MetaNamespaceKey @ ''.'')
                in if k = [] then Some (OtherErr (pre @ '': $meta field must not be empty''))
                   else if k \<notin> fs then
                     Some (OtherErr (''unsupported $meta constraint key '' @ quoted k @ '' for action '' @ quoted actionType))
                   else None))
         else if f = [] then Some (OtherErr (pre @ '': field must not be empty''))
         else (case schemaKeys of
             Some ks \<Rightarrow> if f \<notin> set ks then Some (formatUnknownConstraintKeyError f actionType metaFields)
               else first_err (\<lambda>v. case ExtractRelativeDateToken v of
                   Some token \<Rightarrow> and_then (ValidateRelativeDateToken token) (temporal_error token f actionType infos)
                 | None \<Rightarrow> if \<not> isAllowedParameterConstraintValue v then Some (bad_value f) else None) (dbConditionValues c)
           | None \<Rightarrow>
               if (case metaFields of None \<Rightarrow> False | Some fs \<Rightarrow> f \<in> fs) then Some (formatUnknownConstraintKeyError f actionType metaFields)
               else first_err (\<lambda>v. if \<not> isAllowedParameterConstraintValue v then
                 Some (formatUnknownConstraintKeyError f actionType metaFields) else None) (dbConditionValues c)))"

definition validateStructuredStandingApprovalConstraintKeys :: "order \<Rightarrow> key_env \<Rightarrow> string \<Rightarrow> raw \<Rightarrow> go_error option" where
  "validateStructuredStandingApprovalConstraintKeys ord env actionType constraints =
     (case ParseStructuredConstraints ord constraints of
        Inl e \<Rightarrow> Some e
      | Inr sc \<Rightarrow> (case actionSchemaPropertyKeys (ke_schema env) of
          Inl e \<Rightarrow> Some e
        | Inr schemaKeys \<Rightarrow> (case temporal_fields ord (ke_schema env) schemaKeys of
            Inl e \<Rightarrow> Some e
          | Inr infos \<Rightarrow> first_err_from 0 (\<lambda>gi g. first_err_from 0
              (check_structured_condition ord env actionType schemaKeys
                (connectorMetaConstraintFields (ke_registry env) actionType) infos gi) (g_conditions g)) (sc_groups sc))))"

definition validateStandingApprovalConstraintKeys :: "order \<Rightarrow> key_env \<Rightarrow> string \<Rightarrow> raw \<Rightarrow> go_error option" where
  "validateStandingApprovalConstraintKeys ord env actionType constraints =
     (if IsStructuredConstraintsV2 constraints then
        validateStructuredStandingApprovalConstraintKeys ord env actionType constraints
      else (case unmarshal json_map constraints of
          None \<Rightarrow> Some (OtherErr ''constraints must be a JSON object'')
        | Some obj \<Rightarrow> (case actionSchemaPropertyKeys (ke_schema env) of
            Inl e \<Rightarrow> Some e
          | Inr schemaKeys \<Rightarrow>
              (let metaFields = connectorMetaConstraintFields (ke_registry env) actionType
               in and_then (if map_of obj MetaNamespaceKey = None then None
                     else check_meta_keys ord actionType metaFields (lookup_raw obj MetaNamespaceKey))
                  (and_then (if map_of obj DataWindowNamespaceKey = None then None
                     else check_window_support ord actionType (ke_window env) (lookup_raw obj DataWindowNamespaceKey))
                  (case temporal_fields ord (ke_schema env) schemaKeys of
                     Inl e \<Rightarrow> Some e
                   | Inr infos \<Rightarrow> first_err (check_flat_key ord actionType schemaKeys metaFields infos obj) (ord (keys obj))))))))"

definition validateStandingApprovalConstraintsForAction :: "order \<Rightarrow> key_env \<Rightarrow> string \<Rightarrow> raw \<Rightarrow> raw result" where
  "validateStandingApprovalConstraintsForAction ord env actionType r =
     (case validateStandingApprovalConstraints ord r of
        Inl e \<Rightarrow> Inl e
      | Inr normalized \<Rightarrow> (case validateStandingApprovalConstraintKeys ord env actionType normalized of
          Some e \<Rightarrow> Inl e
        | None \<Rightarrow> fillMissingSchemaParameterWildcards ord (ke_schema env) normalized))"

definition requireUnrestrictedConfirmation :: "order \<Rightarrow> raw \<Rightarrow> bool \<Rightarrow> go_error option" where
  "requireUnrestrictedConfirmation ord constraints confirmed =
     (if ConstraintsAreUnrestricted ord constraints \<and> \<not> confirmed then
        Some (OtherErr (''this standing approval has no parameter constraints and will auto-approve any parameters for this action; '' @
          ''set confirm_unrestricted to true to proceed'')) else None)"

section \<open>What authored constraints mean\<close>

definition kept :: "json \<Rightarrow> json option \<Rightarrow> json" where
  "kept v w = (case w of None \<Rightarrow> v | Some x \<Rightarrow> x)"

definition replaced :: "string \<Rightarrow> json option \<Rightarrow> json gomap \<Rightarrow> json gomap" where
  "replaced k w m = (case w of None \<Rightarrow> m | Some x \<Rightarrow> AList.update k x m)"

lemma replaced_simps:
  "j \<noteq> k \<Longrightarrow> map_of (replaced k w m) j = map_of m j"
  "map_of m k = Some v \<Longrightarrow> map_of (replaced k w m) k = Some (kept v w)"
  "distinct (keys m) \<Longrightarrow> distinct (keys (replaced k w m))"
  "k \<in> set (keys m) \<Longrightarrow> set (keys (replaced k w m)) = set (keys m)"
  by (cases w; auto simp: replaced_def kept_def update_conv' keys_update_distinct set_keys)+

lemma rewrite_values_step:
  assumes "rewrite_values f (k # ks) m b = Inr (m', b')"
  obtains w where "f k (the (map_of m k)) = Inr w" "rewrite_values f ks (replaced k w m) (b \<or> w \<noteq> None) = Inr (m', b')"
proof (cases "f k (the (map_of m k))")
  case (Inr w)
  then show thesis using assms that [of w] by (cases w) (simp_all add: replaced_def)
qed (use assms in simp)

lemma rewrite_values_other:
  "rewrite_values f ks m b = Inr (m', b') \<Longrightarrow> j \<notin> set ks \<Longrightarrow> map_of m' j = map_of m j"
proof (induction ks arbitrary: m b)
  case (Cons k ks)
  from Cons.prems(1) obtain w where "rewrite_values f ks (replaced k w m) (b \<or> w \<noteq> None) = Inr (m', b')"
    by (rule rewrite_values_step)
  from Cons.IH [OF this] Cons.prems(2) show ?case by (simp add: replaced_simps)
qed simp

lemma rewrite_values_keys:
  "rewrite_values f ks m b = Inr (m', b') \<Longrightarrow> set ks \<subseteq> set (keys m) \<Longrightarrow> distinct (keys m) \<Longrightarrow>
   distinct (keys m') \<and> set (keys m') = set (keys m)"
proof (induction ks arbitrary: m b)
  case (Cons k ks)
  from Cons.prems(1) obtain w where "rewrite_values f ks (replaced k w m) (b \<or> w \<noteq> None) = Inr (m', b')"
    by (rule rewrite_values_step)
  from Cons.IH [OF this] Cons.prems(2,3) show ?case by (simp add: replaced_simps)
qed simp

lemma rewrite_values_at:
  "rewrite_values f ks m b = Inr (m', b') \<Longrightarrow> distinct ks \<Longrightarrow> j \<in> set ks \<Longrightarrow> map_of m j = Some v \<Longrightarrow>
   \<exists>w. f j v = Inr w \<and> map_of m' j = Some (kept v w)"
proof (induction ks arbitrary: m b)
  case (Cons k ks)
  from Cons.prems(1) obtain w where w: "f k (the (map_of m k)) = Inr w"
      and rest: "rewrite_values f ks (replaced k w m) (b \<or> w \<noteq> None) = Inr (m', b')"
    by (rule rewrite_values_step)
  show ?case
  proof (cases "j = k")
    case True
    then show ?thesis using w rewrite_values_other [OF rest, of k] Cons.prems(2,4) by (simp add: replaced_simps)
  next
    case False
    then show ?thesis using Cons.IH [OF rest] Cons.prems(2-4) by (simp add: replaced_simps)
  qed
qed simp

lemma rewrite_values_unchanged:
  "rewrite_values f ks m b = Inr (m', b') \<Longrightarrow> (b \<longrightarrow> b') \<and> (\<not> b' \<longrightarrow> m' = m)"
proof (induction ks arbitrary: m b)
  case (Cons k ks)
  from Cons.prems obtain w where "rewrite_values f ks (replaced k w m) (b \<or> w \<noteq> None) = Inr (m', b')"
    by (rule rewrite_values_step)
  from Cons.IH [OF this] show ?case by (cases w) (simp_all add: replaced_def)
qed simp

lemma sorted_object_map:
  "distinct (keys m) \<Longrightarrow> json_map (sorted_object m) = Some (sort_key fst m) \<and> map_of (sort_key fst m) = map_of m \<and> set (keys (sort_key fst m)) = set (keys m)"
proof -
  assume d: "distinct (keys m)"
  have "distinct (map fst (sort_key fst m))" using d by (simp add: keys_def distinct_map)
  then show ?thesis using d by (simp add: sorted_object_def last_wins_distinct map_of_sort_key) (simp add: keys_def)
qed

text \<open>The stored document has the keys of the one sent, and each value is kept or wrapped.\<close>

lemma authored_document:
  assumes "validateStandingApprovalConstraints ord r = Inr r'" "\<not> IsStructuredConstraintsV2 r" "range_order ord"
    and m: "unmarshal json_map r = Some m"
  shows "\<exists>m'. unmarshal json_map r' = Some m' \<and> set (keys m') = set (keys m) \<and>
     (\<forall>k v. map_of m k = Some v \<longrightarrow> (\<exists>w. author_value ord k v = Inr w \<and> map_of m' k = Some (kept v w)))"
proof -
  have ne: "r \<noteq> Empty" "r \<noteq> Doc JNull" using assms(1) by (auto simp: validateStandingApprovalConstraints_def)
  show ?thesis
  proof (cases "m = []")
    case True
    then have "r' = Doc (JObj [])" using assms(1,2) m ne by (simp add: validateStandingApprovalConstraints_def)
    then show ?thesis using True by (simp add: last_wins_def)
  next
    case False
    then obtain m1 b where rw: "rewrite_values (author_value ord) (ord (keys m)) m False = Inr (m1, b)"
        and r': "r' = (if b then Doc (sorted_object m1) else r)"
      using assms(1,2) m ne
      by (cases "rewrite_values (author_value ord) (ord (keys m)) m False") (auto simp: validateStandingApprovalConstraints_def)
    have d: "distinct (keys m)" by (rule unmarshal_map_distinct [OF m])
    have ks: "distinct (ord (keys m))" "set (ord (keys m)) = set (keys m)"
      using d by (simp_all add: range_order_distinct [OF assms(3)] range_order_set [OF assms(3)])
    have k1: "distinct (keys m1)" "set (keys m1) = set (keys m)"
      using rewrite_values_keys [OF rw] ks d by simp_all
    let ?m' = "if b then sort_key fst m1 else m1"
    have m': "unmarshal json_map r' = Some ?m'" "map_of ?m' = map_of m1" "set (keys ?m') = set (keys m1)"
      using sorted_object_map [OF k1(1)] r' m rewrite_values_unchanged [OF rw] by auto
    have "\<exists>w. author_value ord k v = Inr w \<and> map_of m1 k = Some (kept v w)" if "map_of m k = Some v" for k v
      using rewrite_values_at [OF rw ks(1) _ that] that ks(2) by (auto simp: set_keys)
    then show ?thesis using m' k1(2) by (intro exI [of _ ?m']) simp
  qed
qed

text \<open>What a value typed by the user accepts: a date token, a star, a text with stars as a glob, any other value as it is.\<close>

definition typed_ok :: "json \<Rightarrow> json option \<Rightarrow> bool" where
  "typed_ok v x \<longleftrightarrow> (case v of
       JStr s \<Rightarrow> ExtractRelativeDateToken (Doc v) \<noteq> None \<or> s = ''*'' \<or>
         (case x of
            None \<Rightarrow> False
          | Some j \<Rightarrow> if CHR ''*'' \<in> set s
              then (case strings_of (Doc j) of None \<Rightarrow> False | Some ts \<Rightarrow> ts \<noteq> [] \<and> (\<forall>t \<in> set ts. glob s t))
              else jsonValuesEqual (Doc v) (Doc j))
     | _ \<Rightarrow> flat_value_ok (Doc v) x)"

lemma auto_wrap_str: "auto_wrap (JStr s) = (if s = ''*'' then None else if CHR ''*'' \<in> set s then Some (wrap_pattern s) else None)"
  by (simp add: auto_wrap_def)

lemma flat_value_wrapped:
  "flat_value_ok (Doc (wrap_pattern s)) x = (case x of None \<Rightarrow> False | Some j \<Rightarrow>
     (case strings_of (Doc j) of None \<Rightarrow> False | Some ts \<Rightarrow> ts \<noteq> [] \<and> (\<forall>t \<in> set ts. glob s t)))"
proof -
  have "extractPattern (Doc (wrap_pattern s)) = Some s" by (simp add: extractPattern_def wrap_pattern_def last_wins_def)
  moreover have "ExtractRelativeDateToken (Doc (wrap_pattern s)) = None" by (simp add: ExtractRelativeDateToken_def wrap_pattern_def)
  ultimately show ?thesis by (simp add: flat_value_ok_def IsWildcard_iff wrap_pattern_def split: option.splits)
qed

lemma author_value_meaning:
  assumes "author_value ord k v = Inr w" "k \<noteq> MetaNamespaceKey" "k \<noteq> DataWindowNamespaceKey"
  shows "flat_value_ok (Doc (kept v w)) x = typed_ok v x"
proof (cases "ExtractRelativeDateToken (Doc v)")
  case (Some token)
  then have "w = None" using assms by (auto simp: author_value_def split: option.splits)
  moreover obtain s where "v = JStr s" using token_not_wildcard [OF Some] by auto
  ultimately show ?thesis using Some by (simp add: kept_def typed_ok_def flat_value_ok_def)
next
  case None
  then have v: "v \<noteq> JNull" and w: "w = auto_wrap v" using assms by (auto simp: author_value_def split: if_splits)
  show ?thesis
  proof (cases v)
    case (JStr s)
    show ?thesis
    proof (cases "CHR ''*'' \<in> set s \<and> s \<noteq> ''*''")
      case True
      then show ?thesis using None
        by (cases x) (simp_all add: JStr w auto_wrap_str kept_def typed_ok_def flat_value_wrapped)
    next
      case False
      then have "auto_wrap (JStr s) = None" unfolding auto_wrap_str by (simp only: if_False if_True split: if_split) blast
      then have k: "kept v w = v" by (simp add: JStr w kept_def)
      show ?thesis
      proof (cases "s = ''*''")
        case True
        then show ?thesis unfolding k unfolding JStr typed_ok_def flat_value_ok_def IsWildcard_iff by simp
      next
        case plain: False
        with False have "CHR ''*'' \<notin> set s" by blast
        then show ?thesis using None plain unfolding k unfolding JStr typed_ok_def flat_value_ok_def IsWildcard_iff
          by (cases x) (simp_all only: option.case json.case extractPattern_JStr if_False json.inject raw.inject simp_thms)
      qed
    qed
  qed (use v in \<open>simp_all add: w auto_wrap_def kept_def typed_ok_def\<close>)
qed

lemma fill_keys_ok:
  "fill_keys ks (Some m) b = Inr (x, b') \<Longrightarrow> distinct (keys m) \<Longrightarrow>
   \<exists>m'. x = Some m' \<and> distinct (keys m') \<and> (b \<longrightarrow> b') \<and> (\<not> b' \<longrightarrow> m' = m) \<and>
     map_of m' = (\<lambda>k. if map_of m k = None \<and> k \<in> set ks then Some (JStr ''*'') else map_of m k)"
proof (induction ks arbitrary: m b)
  case (Cons k ks)
  show ?case
  proof (cases "map_of m k")
    case None
    then have "fill_keys ks (Some (AList.update k (JStr ''*'') m)) True = Inr (x, b')" using Cons.prems(1) by (simp add: assign_def)
    from Cons.IH [OF this keys_update_distinct [OF Cons.prems(2)]] obtain m' where
      "x = Some m' \<and> distinct (keys m') \<and> b' \<and> map_of m' = (\<lambda>j. if map_of (AList.update k (JStr ''*'') m) j = None \<and> j \<in> set ks
        then Some (JStr ''*'') else map_of (AList.update k (JStr ''*'') m) j)" by blast
    then show ?thesis using None by (intro exI [of _ m']) (auto simp: update_conv' fun_eq_iff)
  next
    case (Some v)
    then have "fill_keys ks (Some m) b = Inr (x, b')" using Cons.prems(1) by simp
    moreover have "(\<lambda>j. if map_of m j = None \<and> j \<in> set ks then Some (JStr ''*'') else map_of m j)
        = (\<lambda>j. if map_of m j = None \<and> j \<in> set (k # ks) then Some (JStr ''*'') else map_of m j)" using Some by (auto simp: fun_eq_iff)
    ultimately show ?thesis using Cons.IH [OF _ Cons.prems(2), of b] by (simp only:)
  qed
qed auto

lemma filled_document:
  assumes "fillMissingSchemaParameterWildcards ord lookup r = Inr r'" "actionSchemaPropertyKeys lookup = Inr (Some ks)"
    and "\<not> IsStructuredConstraintsV2 r" "r \<noteq> Doc JNull" "unmarshal json_map r = Some m" "range_order ord"
  shows "\<exists>m'. unmarshal json_map r' = Some m' \<and> map_of m' = (\<lambda>k. if map_of m k = None \<and> k \<in> set ks then Some (JStr ''*'') else map_of m k)"
proof (cases "ks = []")
  case True
  then have "r' = r" using assms(1,2) by (simp add: fillMissingSchemaParameterWildcards_def)
  then show ?thesis using assms(5) True by auto
next
  case False
  have d: "distinct (keys m)" by (rule unmarshal_map_distinct [OF assms(5)])
  obtain x b where f: "fill_keys (ord ks) (Some m) False = Inr (x, b)" and r': "r' = (if b then marshal_map x else r)"
    using assms(1-5) False by (cases "fill_keys (ord ks) (Some m) False") (auto simp: fillMissingSchemaParameterWildcards_def)
  from fill_keys_ok [OF f d] obtain m' where m': "x = Some m'" "distinct (keys m')" "\<not> b \<longrightarrow> m' = m"
    "map_of m' = (\<lambda>k. if map_of m k = None \<and> k \<in> set ks then Some (JStr ''*'') else map_of m k)"
    unfolding range_order_set [OF assms(6)] by blast
  show ?thesis
  proof (cases b)
    case True
    then have "unmarshal json_map r' = Some (sort_key fst m')" "map_of (sort_key fst m') = map_of m'"
      using sorted_object_map [OF m'(2)] r' m'(1) by (simp_all add: marshal_map_def sorted_object_def)
    then show ?thesis using m'(4) by auto
  next
    case False
    then show ?thesis using m' r' assms(5) by auto
  qed
qed



end
