(* ===== verification/AutoApprove.thy ===== *)
theory AutoApprove
  imports ConstraintAuthoring StandingLifecycle
begin

text \<open>
  Automatic approval: \<^verbatim>\<open>tryStandingApprovalAutoApprove\<close> (\<^verbatim>\<open>api/standing_approval_match.go\<close>) with the steps it is made of
  (\<^verbatim>\<open>api/constraint_validate.go\<close>, \<^verbatim>\<open>api/data_window.go\<close>). It joins the components: the candidates of the standing
  approvals, the constraint evaluators, the clamps of data windows and relative dates, and the record of the
  execution. The connector is an argument: the metadata it resolves for parameters and whether the action succeeds.
\<close>

section \<open>Steps\<close>

text \<open>The metadata side of the registry: no registry, no connector, no resolver, or what it resolves (\<open>None\<close> for an error or a
  nil map).\<close>

type_synonym resolvers = "(string \<Rightarrow> (string \<Rightarrow> raw \<Rightarrow> json gomap option) option option) option"

definition resolveConstraintMetadata :: "resolvers \<Rightarrow> string \<Rightarrow> raw \<Rightarrow> json gomap result" where
  "resolveConstraintMetadata resolvers actionType params =
     (case resolvers of
        None \<Rightarrow> Inl MetadataUnresolved
      | Some get \<Rightarrow> if CHR ''.'' \<notin> set actionType then Inl MetadataUnresolved
          else (case get (takeWhile (\<lambda>c. c \<noteq> CHR ''.'') actionType) of
              None \<Rightarrow> Inl MetadataUnresolved
            | Some None \<Rightarrow> Inl MetadataUnresolved
            | Some (Some resolve) \<Rightarrow> (case resolve actionType params of None \<Rightarrow> Inl MetadataUnresolved | Some meta \<Rightarrow> Inr meta)))"

definition configHasMetaConstraints :: "order \<Rightarrow> raw \<Rightarrow> bool" where
  "configHasMetaConstraints ord config \<longleftrightarrow>
     (if config = Empty \<or> config = Doc JNull then False
      else if IsStructuredConstraintsV2 config then
        (case ParseStructuredConstraints ord config of Inl _ \<Rightarrow> False | Inr sc \<Rightarrow> StructuredConstraintsHasMeta sc)
      else (case unmarshal json_map config of
          None \<Rightarrow> False
        | Some obj \<Rightarrow> map_of obj MetaNamespaceKey \<notin> {None, Some JNull, Some (JObj [])}))"

definition validateActionConstraints :: "order \<Rightarrow> resolvers \<Rightarrow> string \<Rightarrow> raw \<Rightarrow> raw \<Rightarrow> go_error option" where
  "validateActionConstraints ord resolvers actionType config params =
     (if \<not> configHasMetaConstraints ord config then ValidateParametersAgainstConfig ord config params Empty
      else (case resolveConstraintMetadata resolvers actionType params of
          Inl e \<Rightarrow> Some e
        | Inr meta \<Rightarrow> ValidateParametersAgainstConfig ord config params (marshal_map (Some meta))))"

text \<open>\<^verbatim>\<open>errors.Is\<close> and \<^verbatim>\<open>errors.As\<close> look through wrapped errors.\<close>

fun is_unresolved :: "go_error \<Rightarrow> bool" where
  "is_unresolved MetadataUnresolved = True"
| "is_unresolved (Wrapped _ e) = is_unresolved e"
| "is_unresolved _ = False"

fun as_config_error :: "go_error \<Rightarrow> go_error option" where
  "as_config_error (ConfigErr p r) = Some (ConfigErr p r)"
| "as_config_error (Wrapped _ e) = as_config_error e"
| "as_config_error _ = None"

definition constraintMatchErr :: "go_error \<Rightarrow> go_error option \<times> bool" where
  "constraintMatchErr e = (if is_unresolved e then (None, True) else (as_config_error e, False))"

text \<open>\<open>column\<close> is the action's \<^verbatim>\<open>data_window\<close> column.\<close>

definition applyStandingApprovalDataWindow ::
  "order \<Rightarrow> raw option result \<Rightarrow> raw \<Rightarrow> raw \<Rightarrow> instant \<Rightarrow> raw result" where
  "applyStandingApprovalDataWindow ord column constraints params now =
     (case ExtractDataWindowConstraint constraints of
        None \<Rightarrow> Inr params
      | Some dw \<Rightarrow> (case GetActionDataWindowParams column of
          Inl e \<Rightarrow> Inl e
        | Inr None \<Rightarrow> Inl DataWindowUnsupported
        | Inr (Some pair) \<Rightarrow> (case ResolveDataWindowConstraint ord (Doc dw) now of
            Inl e \<Rightarrow> Inl e
          | Inr w \<Rightarrow> ApplyDataWindowToParams params w (StartParam pair) (EndParam pair))))"

section \<open>Candidates\<close>

text \<open>What a request is tried with: the action's row (schema and window parameters), the resolvers, the iteration order, and the
  clock at the two clamps of a candidate.\<close>

record probe =
  pr_order :: order
  pr_schema :: "raw option result"
  pr_window :: "raw option result"
  pr_resolvers :: resolvers
  pr_window_clock :: "string \<Rightarrow> instant"
  pr_date_clock :: "string \<Rightarrow> instant"

text \<open>The loop body: a match with the parameters to run, a skip with the parameters the next candidate is tried with (and whether
  metadata was missing), or a panic.\<close>

datatype verdict = Match raw | Skip raw bool | Crash string

definition skip_or_crash :: "go_error \<Rightarrow> raw \<Rightarrow> verdict" where
  "skip_or_crash e params = (case e of GoPanic t \<Rightarrow> Crash t | _ \<Rightarrow> Skip params False)"

definition try_candidate :: "probe \<Rightarrow> string \<Rightarrow> standing \<Rightarrow> raw \<Rightarrow> verdict" where
  "try_candidate pr actionType g params =
     (if sa_constraints g = Empty then Match params
      else (case fillMissingSchemaParameterWildcards (pr_order pr) (pr_schema pr) (sa_constraints g) of
          Inl e \<Rightarrow> skip_or_crash e params
        | Inr effective \<Rightarrow>
            (case validateActionConstraints (pr_order pr) (pr_resolvers pr) actionType effective params of
               Some e \<Rightarrow> Skip params (snd (constraintMatchErr e))
             | None \<Rightarrow>
                 (case applyStandingApprovalDataWindow (pr_order pr) (pr_window pr) (sa_constraints g) params (pr_window_clock pr (sa_id g)) of
                    Inl e \<Rightarrow> skip_or_crash e params
                  | Inr params1 \<Rightarrow>
                      (case applyStandingApprovalRelativeDates (pr_order pr) (pr_schema pr) (sa_constraints g) params1 (pr_date_clock pr (sa_id g)) of
                         Inl e \<Rightarrow> skip_or_crash e params1
                       | Inr params2 \<Rightarrow> Match params2)))))"

datatype choice = Chosen standing raw | NoMatch bool | Crashed string

fun pick_candidate :: "probe \<Rightarrow> string \<Rightarrow> standing list \<Rightarrow> raw \<Rightarrow> bool \<Rightarrow> choice" where
  "pick_candidate pr actionType [] params unresolved = NoMatch unresolved"
| "pick_candidate pr actionType (g # gs) params unresolved =
     (case try_candidate pr actionType g params of
        Match params' \<Rightarrow> Chosen g params'
      | Skip params' u \<Rightarrow> pick_candidate pr actionType gs params' (unresolved \<or> u)
      | Crash t \<Rightarrow> Crashed t)"

definition configHasMetaConstraintsForAny :: "order \<Rightarrow> standing list \<Rightarrow> bool" where
  "configHasMetaConstraintsForAny ord gs \<longleftrightarrow> list_ex (\<lambda>g. configHasMetaConstraints ord (sa_constraints g)) gs"

section \<open>The handler\<close>

text \<open>The outcome: not handled (with the reason \<^verbatim>\<open>metadata_unavailable\<close> or without), a conflict on the request id, an action that ran (with
  what was recorded and whether it succeeded), or a panic.\<close>

datatype auto_outcome = FallThrough bool | DuplicateRequestId | Ran standing raw standing_execution bool | Panicked string

record db_view =
  dv_clock :: instant
  dv_rows :: "standing list"
  dv_execs :: "execution list"

text \<open>\<open>find\<close> is the database at the search for candidates, \<open>rec\<close> at the record of the execution, which is one statement later than its own
  check; other requests run in between. \<open>find_ok\<close> and \<open>rec_ok\<close> are the database calls that do not fail for a reason of their own,
  \<open>connector\<close> says whether the action succeeds with the parameters it is run with.\<close>

definition tryStandingApprovalAutoApprove ::
  "probe \<Rightarrow> db_view \<Rightarrow> bool \<Rightarrow> db_view \<Rightarrow> bool \<Rightarrow> (int \<Rightarrow> string option option) \<Rightarrow> (raw \<Rightarrow> bool) \<Rightarrow>
    int \<Rightarrow> string \<Rightarrow> raw \<Rightarrow> string \<Rightarrow> string \<Rightarrow> execution list \<times> auto_outcome" where
  "tryStandingApprovalAutoApprove pr found find_ok recorded rec_ok agent_meta connector ag actionType params request inst =
     (let candidates = FindActiveStandingApprovalsForAgent (dv_clock found) ag actionType inst (dv_rows found);
          execs = dv_execs recorded
      in if \<not> find_ok \<or> candidates = [] then (execs, FallThrough False)
         else (case pick_candidate pr actionType candidates params False of
             Crashed t \<Rightarrow> (execs, Panicked t)
           | NoMatch unresolved \<Rightarrow> (execs, FallThrough (unresolved \<and> configHasMetaConstraintsForAny (pr_order pr) candidates))
           | Chosen g params' \<Rightarrow>
               (case RecordStandingApprovalExecutionByAgent (dv_clock recorded) agent_meta (sa_id g) ag request params' rec_ok
                       (dv_rows recorded) execs of
                  (execs', Inl SaDuplicateRequest) \<Rightarrow> (execs', DuplicateRequestId)
                | (execs', Inl _) \<Rightarrow> (execs', FallThrough False)
                | (execs', Inr e) \<Rightarrow> (execs', Ran g params' e (connector params')))))"

section \<open>What runs was granted\<close>

text \<open>The parameters a candidate is tried with, after the candidates before it.\<close>

fun carry :: "probe \<Rightarrow> string \<Rightarrow> standing list \<Rightarrow> raw \<Rightarrow> raw" where
  "carry pr actionType [] params = params"
| "carry pr actionType (g # gs) params =
     (case try_candidate pr actionType g params of Skip params' _ \<Rightarrow> carry pr actionType gs params' | _ \<Rightarrow> params)"

lemma pick_candidate_Chosen:
  "pick_candidate pr a gs params u = Chosen g p \<Longrightarrow>
   \<exists>pre post. gs = pre @ g # post \<and> try_candidate pr a g (carry pr a pre params) = Match p"
proof (induction gs arbitrary: params u)
  case (Cons h gs)
  show ?case
  proof (cases "try_candidate pr a h params")
    case (Match q)
    with Cons.prems have "h = g" "q = p" by simp_all
    with Match show ?thesis by (intro exI [of _ "[]"] exI [of _ gs]) simp
  next
    case (Skip q v)
    with Cons.prems Cons.IH obtain pre post where "gs = pre @ g # post" "try_candidate pr a g (carry pr a pre q) = Match p"
      by fastforce
    with Skip show ?thesis by (intro exI [of _ "h # pre"] exI [of _ post]) simp
  qed (use Cons.prems in simp)
qed simp

text \<open>A match passed every check with the parameters it was tried with.\<close>

definition grants_run :: "probe \<Rightarrow> string \<Rightarrow> standing \<Rightarrow> raw \<Rightarrow> raw \<Rightarrow> bool" where
  "grants_run pr actionType g asked p \<longleftrightarrow> sa_constraints g = Empty \<and> p = asked \<or>
     (\<exists>effective clamped.
        fillMissingSchemaParameterWildcards (pr_order pr) (pr_schema pr) (sa_constraints g) = Inr effective \<and>
        validateActionConstraints (pr_order pr) (pr_resolvers pr) actionType effective asked = None \<and>
        applyStandingApprovalDataWindow (pr_order pr) (pr_window pr) (sa_constraints g) asked (pr_window_clock pr (sa_id g)) = Inr clamped \<and>
        applyStandingApprovalRelativeDates (pr_order pr) (pr_schema pr) (sa_constraints g) clamped (pr_date_clock pr (sa_id g)) = Inr p)"

lemma skip_or_crash_not_Match [simp]: "skip_or_crash e params \<noteq> Match p"
  by (cases e) (simp_all add: skip_or_crash_def)

lemma try_candidate_Match: "try_candidate pr a g asked = Match p \<longleftrightarrow> grants_run pr a g asked p \<and> (sa_constraints g = Empty \<longrightarrow> p = asked)"
  by (auto simp: try_candidate_def grants_run_def split: if_splits sum.splits option.splits)

lemma candidates_usable:
  "g \<in> set (FindActiveStandingApprovalsForAgent now ag action inst rows) \<Longrightarrow>
   g \<in> set rows \<and> sa_action g \<in> {action, WildcardActionType} \<and> usable now ag inst g"
  unfolding FindActiveStandingApprovalsForAgent_def by (drule in_set_takeD) (auto simp: newest_first_def)

lemma record_by_agent:
  assumes "RecordStandingApprovalExecutionByAgent now meta i ag request p io_ok rows es = (es', Inr e)"
  shows "\<exists>g. grant_for_agent now i ag rows = Some g \<and> ex_agent e = sa_agent g \<and> ex_user e = sa_user g \<and>
     ex_standing e = i \<and> ex_params e = p \<and> ex_request e = Some request \<and> es' = execution.truncate e # es"
proof -
  from assms obtain g where g: "grant_for_agent now i ag rows = Some g"
    by (cases "grant_for_agent now i ag rows") (simp_all add: RecordStandingApprovalExecutionByAgent_def)
  from assms g show ?thesis
    by (auto simp: RecordStandingApprovalExecutionByAgent_def insert_execution_def Let_def with_grant_def execution.defs split: if_splits)
qed

lemma carry_without_windows:
  "(\<And>h. h \<in> set gs \<Longrightarrow> ExtractDataWindowConstraint (sa_constraints h) = None) \<Longrightarrow> carry pr a gs params = params"
proof (induction gs)
  case (Cons h gs)
  have "try_candidate pr a h params = Skip q u \<Longrightarrow> q = params" for q u
    using Cons.prems [of h]
    by (auto simp: try_candidate_def applyStandingApprovalDataWindow_def skip_or_crash_def
        split: if_splits sum.splits option.splits go_error.splits)
  moreover have "carry pr a gs params = params" using Cons by simp
  ultimately show ?case by (cases "try_candidate pr a h params") auto
qed simp

text \<open>C1: What runs automatically was granted. When the handler runs an action, it recorded the parameters it runs for a candidate that was
  active, started, unexpired and meant for this agent, action and instance, and that was still so at the record; its
  constraints accepted the parameters it was tried with, and only its own clamps changed them. Those are the agent's parameters, unless
  an earlier candidate had a data window.\<close>

theorem auto_approve_sound:
  assumes "tryStandingApprovalAutoApprove pr found find_ok recorded rec_ok meta connector ag a params request inst
     = (execs', Ran g p e ok)"
  shows "\<exists>pre post g'.
     FindActiveStandingApprovalsForAgent (dv_clock found) ag a inst (dv_rows found) = pre @ g # post \<and>
     usable (dv_clock found) ag inst g \<and> sa_action g \<in> {a, WildcardActionType} \<and>
     grants_run pr a g (carry pr a pre params) p \<and>
     ((\<forall>h \<in> set pre. ExtractDataWindowConstraint (sa_constraints h) = None) \<longrightarrow> carry pr a pre params = params) \<and>
     grant_for_agent (dv_clock recorded) (sa_id g) ag (dv_rows recorded) = Some g' \<and>
     ex_params e = p \<and> ex_standing e = sa_id g \<and> ex_request e = Some request \<and> ex_user e = sa_user g' \<and>
     execs' = execution.truncate e # dv_execs recorded"
proof -
  let ?c = "FindActiveStandingApprovalsForAgent (dv_clock found) ag a inst (dv_rows found)"
  have "pick_candidate pr a ?c params False = Chosen g p \<and>
      RecordStandingApprovalExecutionByAgent (dv_clock recorded) meta (sa_id g) ag request p rec_ok (dv_rows recorded) (dv_execs recorded)
        = (execs', Inr e)"
    using assms by (auto simp: tryStandingApprovalAutoApprove_def Let_def
        split: if_splits choice.splits prod.splits sum.splits standing_error.splits)
  then obtain pre post where c: "?c = pre @ g # post" "try_candidate pr a g (carry pr a pre params) = Match p"
      and r: "RecordStandingApprovalExecutionByAgent (dv_clock recorded) meta (sa_id g) ag request p rec_ok (dv_rows recorded)
        (dv_execs recorded) = (execs', Inr e)"
    using pick_candidate_Chosen by blast
  have "usable (dv_clock found) ag inst g \<and> sa_action g \<in> {a, WildcardActionType}"
    using candidates_usable [of g "dv_clock found" ag a inst "dv_rows found"] c(1) by simp
  moreover have "grants_run pr a g (carry pr a pre params) p" using c(2) try_candidate_Match by blast
  ultimately show ?thesis using c(1) carry_without_windows [of pre pr a params] record_by_agent [OF r] by blast
qed

text \<open>A run: the newest candidate has a data window and a date token; the agent's value for the token's field is no date. The older
  candidate has no constraints.\<close>

definition example_schema :: raw where
  "example_schema = Doc (JObj [(''properties'', JObj [(''from'', JObj []), (''to'', JObj []), (''day'', JObj [(''format'', JStr ''date-time'')])])])"

definition example_probe :: probe where
  "example_probe = \<lparr>pr_order = (\<lambda>ks. ks), pr_schema = Inr (Some example_schema),
     pr_window = Inr (Some (Doc (JObj [(''start_param'', JStr ''from''), (''end_param'', JStr ''to'')]))),
     pr_resolvers = None, pr_window_clock = (\<lambda>_. 0), pr_date_clock = (\<lambda>_. 0)\<rparr>"

definition windowed_grant :: standing where
  "windowed_grant = example_grant\<lparr>sa_id := ''sa_2'', sa_constraints := Doc (JObj
     [(''$data_window'', JObj [(''starts_at'', JStr ''1970-01-01T00:00:00Z''), (''ends_at'', JStr ''1970-01-03T00:00:00Z'')]),
      (''day'', JStr ''@today'')])\<rparr>"

definition leaked :: raw where
  "leaked = Doc (JObj [(''day'', JNum ''5''), (''from'', JStr ''1970-01-01T00:00:00Z''), (''to'', JStr ''1970-01-03T00:00:00Z'')])"

lemma windowed_skips: "try_candidate example_probe ''x.y'' windowed_grant (Doc (JObj [(''day'', JNum ''5'')])) = Skip leaked False"
  by code_simp


definition example_view :: db_view where
  "example_view = \<lparr>dv_clock = 0, dv_rows = [example_grant], dv_execs = []\<rparr>"

definition example_ran :: standing_execution where
  "example_ran = \<lparr>ex_id = 1, ex_standing = ''sa_1'', ex_params = Doc (JObj []), ex_request = Some ''r1'', ex_at = 0,
     ex_agent = 7, ex_user = ''u'', ex_action = ''x.y'', ex_instance = None, ex_meta = None\<rparr>"

lemma example_auto_run:
  "tryStandingApprovalAutoApprove example_probe example_view True example_view True (\<lambda>_. None) (\<lambda>_. True) 7 ''x.y'' (Doc (JObj [])) ''r1'' []
     = ([execution.truncate example_ran], Ran example_grant (Doc (JObj [])) example_ran True)"
proof -
  have "FindActiveStandingApprovalsForAgent 0 7 ''x.y'' [] [example_grant] = [example_grant]"
    by (simp add: FindActiveStandingApprovalsForAgent_def usable_def started_def unexpired_def WildcardActionType_def newest_first_def
        example_defs)
  moreover have "pick_candidate example_probe ''x.y'' [example_grant] (Doc (JObj [])) False = Chosen example_grant (Doc (JObj []))"
    by (simp add: try_candidate_def example_defs)
  moreover have "RecordStandingApprovalExecutionByAgent 0 (\<lambda>_. None) (sa_id example_grant) 7 ''r1'' (Doc (JObj [])) True [example_grant] []
      = ([execution.truncate example_ran], Inr example_ran)"
    by (simp add: RecordStandingApprovalExecutionByAgent_def grant_for_agent_def insert_execution_def Let_def with_grant_def
        execution.defs started_def unexpired_def next_exec_id_def sql_now_def example_ran_def example_defs)
  ultimately show ?thesis by (simp add: tryStandingApprovalAutoApprove_def example_view_def)
qed

theorem auto_approve_sound_witness:
  "\<exists>pre post g'.
     FindActiveStandingApprovalsForAgent 0 7 ''x.y'' [] [example_grant] = pre @ example_grant # post \<and>
     usable 0 7 [] example_grant \<and> sa_action example_grant \<in> {''x.y'', WildcardActionType} \<and>
     grants_run example_probe ''x.y'' example_grant (carry example_probe ''x.y'' pre (Doc (JObj []))) (Doc (JObj [])) \<and>
     ((\<forall>h \<in> set pre. ExtractDataWindowConstraint (sa_constraints h) = None) \<longrightarrow>
        carry example_probe ''x.y'' pre (Doc (JObj [])) = Doc (JObj [])) \<and>
     grant_for_agent 0 (sa_id example_grant) 7 [example_grant] = Some g' \<and>
     ex_params example_ran = Doc (JObj []) \<and> ex_standing example_ran = sa_id example_grant \<and> ex_request example_ran = Some ''r1'' \<and>
     ex_user example_ran = sa_user g' \<and> [execution.truncate example_ran] = execution.truncate example_ran # []"
  using auto_approve_sound [OF example_auto_run] by (simp only: example_view_def db_view.simps)

end
