(* ===== verification/Agents.thy ===== *)
theory Agents
  imports StandingLifecycle RelativeDates
begin

text \<open>
  Agents: \<^verbatim>\<open>db/agents.go\<close> and the code helpers \<^verbatim>\<open>api/confirmationcode.go\<close> and \<^verbatim>\<open>api/rand.go\<close>. A row is a record
  with the column names behind \<open>ag_\<close>; the table is a list of rows under the key \<open>ag_id\<close>, which SQLite counts up
  (rows are never deleted by this code). Timestamps written by the database are those of \<^verbatim>\<open>strftime\<close>, in
  milliseconds.
\<close>

section \<open>Rows\<close>

datatype agent_status = AgentPending | AgentRegistered | AgentDeactivated

record agent =
  ag_id :: int
  ag_key :: string
  ag_approver :: string
  ag_status :: agent_status
  ag_metadata :: raw
  ag_code :: "string option"
  ag_attempts :: int
  ag_ttl :: "int option"
  ag_expires :: "instant option"
  ag_registered_at :: "instant option"
  ag_deactivated_at :: "instant option"
  ag_last_active :: "instant option"
  ag_created :: instant

definition maxVerificationAttempts :: int where
  "maxVerificationAttempts = 5"

text \<open>\<^verbatim>\<open>expires_at IS NULL OR datetime(expires_at) > datetime('now')\<close>: the comparison drops the fraction of the second.\<close>

definition agent_unexpired :: "instant \<Rightarrow> agent \<Rightarrow> bool" where
  "agent_unexpired now a \<longleftrightarrow> (case ag_expires a of None \<Rightarrow> True | Some e \<Rightarrow> datetime now < datetime e)"

definition expired_pending :: "instant \<Rightarrow> agent \<Rightarrow> bool" where
  "expired_pending now a \<longleftrightarrow> ag_status a = AgentPending \<and> \<not> agent_unexpired now a"

section \<open>Codes\<close>

text \<open>\<open>random\<close> are the bytes \<^verbatim>\<open>crypto/rand\<close> returned; the length of the character set divides 256.\<close>

definition safeCodeCharset :: string where
  "safeCodeCharset = ''ABCDEFGHJKLMNPQRSTUVWXYZ23456789''"

definition generateRandomCode :: "char list \<Rightarrow> string" where
  "generateRandomCode random = map (\<lambda>b. safeCodeCharset ! (of_char b mod length safeCodeCharset)) random"

definition generateConfirmationCodePlaintext :: "char list \<Rightarrow> string" where
  "generateConfirmationCodePlaintext random =
     (let c = generateRandomCode random; mid = length c div 2 in take mid c @ ''-'' @ drop mid c)"

definition generateInviteCode :: "char list \<Rightarrow> string" where
  "generateInviteCode random = (let c = generateRandomCode random in ''PS-'' @ take 4 c @ ''-'' @ drop 4 c)"

definition normalizeConfirmationCode :: "string \<Rightarrow> string" where
  "normalizeConfirmationCode code = map upper_char (filter (\<lambda>c. c \<noteq> CHR ''-'') code)"

text \<open>The stored code as the verification compares it: hyphens removed, then \<^verbatim>\<open>strings.ToUpper\<close>; a cleared code is empty.\<close>

definition stored_code :: "agent \<Rightarrow> string" where
  "stored_code a = (case ag_code a of None \<Rightarrow> [] | Some c \<Rightarrow> to_upper (filter (\<lambda>x. x \<noteq> CHR ''-'') c))"

section \<open>Reading\<close>

definition agent_key :: "agent \<Rightarrow> string \<times> int" where
  "agent_key a = (strftime_text (ag_created a), ag_id a)"

definition agent_cursor :: "agent \<Rightarrow> string \<times> int" where
  "agent_cursor a = (TimestampForSQLite (ag_created a), ag_id a)"

text \<open>\<^verbatim>\<open>request_count_30d\<close>: texts are compared; the executions are joined to their standing approvals.\<close>

definition thirty_days :: instant where
  "thirty_days = 30 * 86400 * ns_per_sec"

definition request_count_30d :: "instant \<Rightarrow> approval list \<Rightarrow> execution list \<Rightarrow> standing list \<Rightarrow> int \<Rightarrow> nat" where
  "request_count_30d now approvals es grants ag =
     (let since = strftime_text (now - thirty_days)
      in length (filter (\<lambda>a. ap_agent a = ag \<and> since < strftime_text (ap_created a)) approvals) +
         sum_list (map (\<lambda>e. length (filter (\<lambda>g. sa_id g = ex_standing e \<and> sa_agent g = ag) grants))
           (filter (\<lambda>e. since < strftime_text (ex_at e)) es)))"

definition GetAgentsByApprover ::
  "instant \<Rightarrow> approval list \<Rightarrow> execution list \<Rightarrow> standing list \<Rightarrow> string \<Rightarrow> int \<Rightarrow> (string \<times> int) option \<Rightarrow> agent list
    \<Rightarrow> (agent \<times> nat) list \<times> bool" where
  "GetAgentsByApprover now approvals es grants u limit cursor rows =
     (case fetch_page agent_key (clamp_limit limit) cursor (filter (\<lambda>a. ag_approver a = u \<and> \<not> expired_pending now a) rows) of
        (page, has_more) \<Rightarrow> (map (\<lambda>a. (a, request_count_30d now approvals es grants (ag_id a))) page, has_more))"

definition GetAgentByID :: "int \<Rightarrow> string \<Rightarrow> agent list \<Rightarrow> agent option" where
  "GetAgentByID i u rows = find (\<lambda>a. ag_id a = i \<and> ag_approver a = u) rows"

definition GetAgentByIDUnscoped :: "int \<Rightarrow> agent list \<Rightarrow> agent option" where
  "GetAgentByIDUnscoped i rows = find (\<lambda>a. ag_id a = i) rows"

definition AgentBelongsToUser :: "agent list \<Rightarrow> int \<Rightarrow> string \<Rightarrow> bool" where
  "AgentBelongsToUser rows i u \<longleftrightarrow> list_ex (\<lambda>a. ag_id a = i \<and> ag_approver a = u) rows"

definition CountRegisteredAgentsByUser :: "instant \<Rightarrow> string \<Rightarrow> agent list \<Rightarrow> nat" where
  "CountRegisteredAgentsByUser now u rows =
     length (filter (\<lambda>a. ag_approver a = u \<and> (ag_status a = AgentRegistered \<or> ag_status a = AgentPending \<and> agent_unexpired now a)) rows)"

section \<open>Metadata\<close>

text \<open>The keys of the patch are assigned one by one; a \<^verbatim>\<open>null\<close> document is a nil map, and assigning to one panics.\<close>

fun merge_keys :: "string list \<Rightarrow> json gomap \<Rightarrow> json gomap option \<Rightarrow> json gomap option result" where
  "merge_keys [] right left = Inr left"
| "merge_keys (k # ks) right left =
     (case assign k (the (map_of right k)) left of Inl e \<Rightarrow> Inl e | Inr left' \<Rightarrow> merge_keys ks right left')"

definition decode_left :: "raw \<Rightarrow> json gomap option result" where
  "decode_left existing =
     (if existing = Empty then Inr (Some [])
      else if existing = Doc JNull then Inr None
      else (case unmarshal json_map existing of None \<Rightarrow> Inl (OtherErr ''unmarshal'') | Some m \<Rightarrow> Inr (Some m)))"

definition mergeAgentMetadataJSON :: "order \<Rightarrow> raw \<Rightarrow> raw \<Rightarrow> raw result" where
  "mergeAgentMetadataJSON ord existing patch =
     (if patch = Empty then Inr existing
      else (case decode_left existing of
          Inl e \<Rightarrow> Inl e
        | Inr left \<Rightarrow> (case unmarshal json_map patch of
            None \<Rightarrow> Inl (OtherErr ''unmarshal'')
          | Some right \<Rightarrow> (case merge_keys (ord (keys right)) right left of
              Inl e \<Rightarrow> Inl e
            | Inr m \<Rightarrow> Inr (marshal_map m)))))"

text \<open>Two statements; \<open>rows\<close> is the table at the read, \<open>rows'\<close> at the write. \<open>io_ok\<close> stands for the database calls, the size check of the column included.\<close>

definition read_metadata :: "int \<Rightarrow> string \<Rightarrow> agent list \<Rightarrow> raw option" where
  "read_metadata i u rows = map_option (\<lambda>a. if ag_metadata a = Empty then Doc (JObj []) else ag_metadata a) (GetAgentByID i u rows)"

definition write_metadata :: "int \<Rightarrow> string \<Rightarrow> raw \<Rightarrow> agent list \<Rightarrow> agent list \<times> agent option" where
  "write_metadata i u merged rows = update_returning (\<lambda>a. ag_id a = i \<and> ag_approver a = u) (\<lambda>a. a\<lparr>ag_metadata := merged\<rparr>) rows"

definition UpdateAgentMetadata ::
  "order \<Rightarrow> int \<Rightarrow> string \<Rightarrow> raw \<Rightarrow> bool \<Rightarrow> agent list \<Rightarrow> agent list \<Rightarrow> agent list \<times> agent option result" where
  "UpdateAgentMetadata ord i u patch io_ok rows rows' =
     (case read_metadata i u rows of
        None \<Rightarrow> (rows', Inr None)
      | Some existing \<Rightarrow> (case mergeAgentMetadataJSON ord existing patch of
          Inl e \<Rightarrow> (rows', Inl e)
        | Inr merged \<Rightarrow> if \<not> io_ok then (rows', Inl (OtherErr ''database''))
            else (case write_metadata i u merged rows' of (rows'', a) \<Rightarrow> (rows'', Inr a))))"

section \<open>Registration\<close>

definition next_agent_id :: "agent list \<Rightarrow> int" where
  "next_agent_id rows = 1 + foldr max (map ag_id rows) 0"

definition new_agent :: "instant \<Rightarrow> int \<Rightarrow> string \<Rightarrow> string \<Rightarrow> string \<Rightarrow> int \<Rightarrow> raw \<Rightarrow> agent" where
  "new_agent now i approver key code ttl metadata =
     \<lparr>ag_id = i, ag_key = key, ag_approver = approver, ag_status = AgentPending, ag_metadata = metadata, ag_code = Some code,
      ag_attempts = 0, ag_ttl = Some ttl, ag_expires = Some (sql_now now + ttl * ns_per_sec), ag_registered_at = None,
      ag_deactivated_at = None, ag_last_active = None, ag_created = sql_now now\<rparr>"

text \<open>The CHECK constraints of the table, but for the size of the metadata.\<close>

definition agent_checks :: "agent \<Rightarrow> bool" where
  "agent_checks a \<longleftrightarrow> length (ag_key a) \<le> 1024 \<and> (case ag_code a of None \<Rightarrow> True | Some c \<Rightarrow> length c \<le> 11) \<and>
     (case ag_ttl a of None \<Rightarrow> True | Some t \<Rightarrow> 60 \<le> t \<and> t \<le> 86400) \<and> 0 \<le> ag_attempts a"

definition InsertPendingAgent ::
  "instant \<Rightarrow> string \<Rightarrow> string \<Rightarrow> string \<Rightarrow> int \<Rightarrow> raw \<Rightarrow> bool \<Rightarrow> agent list \<Rightarrow> agent list \<times> agent option" where
  "InsertPendingAgent now approver key code ttl metadata io_ok rows =
     (let a = new_agent now (next_agent_id rows) approver key code ttl metadata
      in if io_ok \<and> agent_checks a then (a # rows, Some a) else (rows, None))"

definition registered :: "instant \<Rightarrow> agent \<Rightarrow> agent" where
  "registered now a = a\<lparr>ag_status := AgentRegistered, ag_registered_at := Some (sql_now now), ag_code := None\<rparr>"

definition RegisterAgent :: "instant \<Rightarrow> int \<Rightarrow> string \<Rightarrow> agent list \<Rightarrow> agent list \<times> agent option" where
  "RegisterAgent now i u rows =
     update_returning (\<lambda>a. ag_id a = i \<and> ag_approver a = u \<and> ag_status a = AgentPending) (registered now) rows"

text \<open>Both statements of \<^verbatim>\<open>DeactivateAgent\<close> run in one transaction.\<close>

definition revoke_all :: "instant \<Rightarrow> int \<Rightarrow> standing list \<Rightarrow> standing list" where
  "revoke_all now i grants = update_where (\<lambda>g. sa_agent g = i \<and> sa_status g = Active)
     (\<lambda>g. g\<lparr>sa_status := Revoked, sa_revoked_at := Some (sql_now now)\<rparr>) grants"

definition DeactivateAgent ::
  "instant \<Rightarrow> int \<Rightarrow> string \<Rightarrow> bool \<Rightarrow> agent list \<times> standing list \<Rightarrow> (agent list \<times> standing list) \<times> agent option result" where
  "DeactivateAgent now i u io_ok st =
     (case st of (rows, grants) \<Rightarrow>
        (case update_returning (\<lambda>a. ag_id a = i \<and> ag_approver a = u \<and> ag_status a \<noteq> AgentDeactivated)
                (\<lambda>a. a\<lparr>ag_status := AgentDeactivated, ag_deactivated_at := Some (sql_now now)\<rparr>) rows of
           (_, None) \<Rightarrow> (st, Inr None)
         | (rows', Some a) \<Rightarrow> if io_ok then ((rows', revoke_all now (ag_id a) grants), Inr (Some a))
             else (st, Inl (OtherErr ''database''))))"

definition TouchAgentLastActive :: "instant \<Rightarrow> int \<Rightarrow> agent list \<Rightarrow> agent list" where
  "TouchAgentLastActive now i rows = update_where (\<lambda>a. ag_id a = i) (\<lambda>a. a\<lparr>ag_last_active := Some (sql_now now)\<rparr>) rows"

section \<open>Confirmation codes\<close>

text \<open>\<open>None\<close> in the agent is a nil pointer. The first statement counts the attempt, the second registers; other requests can run
  between them.\<close>

datatype verify_failure = AgentNotPending | RegistrationExpired | VerificationLocked | InvalidConfirmation

definition diagnosePendingAgent :: "instant \<Rightarrow> int \<Rightarrow> agent list \<Rightarrow> agent option \<times> verify_failure option" where
  "diagnosePendingAgent now i rows =
     (case GetAgentByIDUnscoped i rows of
        None \<Rightarrow> (None, None)
      | Some a \<Rightarrow>
          if ag_status a \<noteq> AgentPending then (Some a, Some AgentNotPending)
          else if (case ag_expires a of None \<Rightarrow> False | Some e \<Rightarrow> e < now) then (Some a, Some RegistrationExpired)
          else (Some a, Some VerificationLocked))"

definition count_attempt :: "instant \<Rightarrow> int \<Rightarrow> agent list \<Rightarrow> agent list \<times> agent option" where
  "count_attempt now i rows =
     update_returning (\<lambda>a. ag_id a = i \<and> ag_status a = AgentPending \<and> agent_unexpired now a \<and> ag_attempts a < maxVerificationAttempts)
       (\<lambda>a. a\<lparr>ag_attempts := ag_attempts a + 1\<rparr>) rows"

definition register_verified :: "instant \<Rightarrow> agent \<Rightarrow> agent list \<Rightarrow> agent list \<times> agent option \<times> verify_failure option" where
  "register_verified now a rows =
     (case update_returning (\<lambda>b. ag_id b = ag_id a \<and> ag_status b = AgentPending) (registered now) rows of
        (rows', Some b) \<Rightarrow> (rows', Some b, None)
      | (_, None) \<Rightarrow> (rows, Some (case GetAgentByIDUnscoped (ag_id a) rows of Some b \<Rightarrow> b | None \<Rightarrow> a), Some AgentNotPending))"

definition VerifyAgentConfirmationCode ::
  "instant \<Rightarrow> int \<Rightarrow> string \<Rightarrow> agent list \<Rightarrow> agent list \<times> agent option \<times> verify_failure option" where
  "VerifyAgentConfirmationCode now i submitted rows =
     (case count_attempt now i rows of
        (_, None) \<Rightarrow> (rows, diagnosePendingAgent now i rows)
      | (rows', Some a) \<Rightarrow> if stored_code a \<noteq> submitted then (rows', Some a, Some InvalidConfirmation)
          else register_verified now a rows')"

end
