(* ===== verification/AgentLifecycle.thy ===== *)
theory AgentLifecycle
  imports Agents
begin

text \<open>
  Runs of the agents table with the standing approvals of the agents. Verifying a code is two statements, so a
  run has a step for the counted attempt and one for the registration, and an update of the metadata writes over
  a row read at any earlier moment. Histories record what the properties speak of: the codes issued, the guesses
  that were compared, and the agents an approver registered from the dashboard.
\<close>

section \<open>Well-formed rows\<close>

definition stamps :: "agent \<Rightarrow> instant set" where
  "stamps a = set_option (ag_registered_at a) \<union> set_option (ag_deactivated_at a) \<union> set_option (ag_last_active a)"

definition status_wf :: "agent \<Rightarrow> bool" where
  "status_wf a \<longleftrightarrow> (case ag_status a of
     AgentPending \<Rightarrow> ag_code a \<noteq> None \<and> ag_registered_at a = None \<and> ag_deactivated_at a = None
   | AgentRegistered \<Rightarrow> ag_code a = None \<and> ag_registered_at a \<noteq> None \<and> ag_deactivated_at a = None
   | AgentDeactivated \<Rightarrow> (ag_code a = None \<longleftrightarrow> ag_registered_at a \<noteq> None) \<and> ag_deactivated_at a \<noteq> None)"

definition agent_wf :: "instant \<Rightarrow> agent \<Rightarrow> bool" where
  "agent_wf now a \<longleftrightarrow> agent_checks a \<and> ag_attempts a \<le> maxVerificationAttempts \<and> status_wf a \<and>
     sql_now (ag_created a) = ag_created a \<and> ag_created a \<le> now \<and> (\<forall>t \<in> stamps a. ag_created a \<le> t \<and> t \<le> now) \<and>
     ag_expires a = map_option (\<lambda>ttl. ag_created a + ttl * ns_per_sec) (ag_ttl a) \<and> ag_ttl a \<noteq> None"

lemma sql_now_le: "sql_now t \<le> t"
  by (simp add: sql_now_def)

lemma sql_now_mono: "s \<le> t \<Longrightarrow> sql_now s \<le> sql_now t"
  by (simp add: sql_now_def zdiv_mono1)

lemma sql_now_idem [simp]: "sql_now (sql_now t) = sql_now t"
  by (simp add: sql_now_def)

lemmas wf_defs = agent_wf_def agent_checks_def status_wf_def stamps_def

lemma stamp_now: "agent_wf now a \<Longrightarrow> ag_created a \<le> sql_now now \<and> sql_now now \<le> now"
  by (metis agent_wf_def sql_now_le sql_now_mono)

lemma wf_later: "agent_wf now a \<Longrightarrow> now \<le> later \<Longrightarrow> agent_wf later a"
  unfolding agent_wf_def by (meson order_trans)

lemma wf_attempt:
  "agent_wf now a \<Longrightarrow> ag_attempts a < maxVerificationAttempts \<Longrightarrow> agent_wf now (a\<lparr>ag_attempts := ag_attempts a + 1\<rparr>)"
  by (cases "ag_status a") (simp_all add: wf_defs)

lemma wf_touch: "agent_wf now a \<Longrightarrow> agent_wf now (a\<lparr>ag_last_active := Some (sql_now now)\<rparr>)"
  using stamp_now [of now a] by (cases "ag_status a") (simp_all add: wf_defs)

lemma wf_metadata: "agent_wf now a \<Longrightarrow> agent_wf now (a\<lparr>ag_metadata := m\<rparr>)"
  by (cases "ag_status a") (simp_all add: wf_defs)

lemma wf_registered: "agent_wf now a \<Longrightarrow> ag_status a = AgentPending \<Longrightarrow> agent_wf now (registered now a)"
  using stamp_now [of now a]
  by (simp add: wf_defs registered_def)

lemma wf_deactivated:
  "agent_wf now a \<Longrightarrow> ag_status a \<noteq> AgentDeactivated \<Longrightarrow>
   agent_wf now (a\<lparr>ag_status := AgentDeactivated, ag_deactivated_at := Some (sql_now now)\<rparr>)"
  using stamp_now [of now a]
  by (cases "ag_status a") (simp_all add: wf_defs)

lemma wf_new: "agent_checks (new_agent now i u key code ttl m) \<Longrightarrow> agent_wf now (new_agent now i u key code ttl m)"
  by (simp add: agent_wf_def new_agent_def status_wf_def stamps_def sql_now_le maxVerificationAttempts_def)

section \<open>Runs\<close>

record agency =
  moment :: instant
  agents :: "agent list"
  rules_of :: "standing list"
  confirming :: "agent list"
  issued :: "(int \<times> string) list"
  guesses :: "(int \<times> string) list"
  by_owner :: "int list"

definition agency_start :: "agency \<Rightarrow> bool" where
  "agency_start s \<longleftrightarrow> agents s = [] \<and> rules_of s = [] \<and> confirming s = [] \<and> issued s = [] \<and> guesses s = [] \<and> by_owner s = []"

definition note_code :: "agent option \<Rightarrow> string \<Rightarrow> (int \<times> string) list \<Rightarrow> (int \<times> string) list" where
  "note_code r code xs = (case r of None \<Rightarrow> xs | Some a \<Rightarrow> (ag_id a, code) # xs)"

definition note_owner :: "agent option \<Rightarrow> int list \<Rightarrow> int list" where
  "note_owner r xs = (case r of None \<Rightarrow> xs | Some a \<Rightarrow> ag_id a # xs)"

inductive agency_step :: "agency \<Rightarrow> agency \<Rightarrow> bool" where
  invite: "InsertPendingAgent (moment s) u key code ttl m io_ok (agents s) = (rows', r) \<Longrightarrow>
     agency_step s (s\<lparr>agents := rows', issued := note_code r code (issued s)\<rparr>)"
| guess: "count_attempt (moment s) i (agents s) = (rows', Some a) \<Longrightarrow>
     agency_step s (s\<lparr>agents := rows', guesses := (i, submitted) # guesses s,
       confirming := (if stored_code a = submitted then a # confirming s else confirming s)\<rparr>)"
| confirm: "a \<in> set (confirming s) \<Longrightarrow> register_verified (moment s) a (agents s) = (rows', r) \<Longrightarrow>
     agency_step s (s\<lparr>agents := rows', confirming := remove1 a (confirming s)\<rparr>)"
| own: "RegisterAgent (moment s) i u (agents s) = (rows', r) \<Longrightarrow>
     agency_step s (s\<lparr>agents := rows', by_owner := note_owner r (by_owner s)\<rparr>)"
| deactivate: "DeactivateAgent (moment s) i u io_ok (agents s, rules_of s) = ((rows', gs'), r) \<Longrightarrow>
     agency_step s (s\<lparr>agents := rows', rules_of := gs'\<rparr>)"
| metadata: "UpdateAgentMetadata ord i u patch io_ok old (agents s) = (rows', r) \<Longrightarrow> agency_step s (s\<lparr>agents := rows'\<rparr>)"
| touch: "agency_step s (s\<lparr>agents := TouchAgentLastActive (moment s) i (agents s)\<rparr>)"
| grant: "CreateStandingApproval (moment s) (AgentBelongsToUser (agents s)) p io_ok (rules_of s) = (gs', r) \<Longrightarrow>
     agency_step s (s\<lparr>rules_of := gs'\<rparr>)"
| revoke: "RevokeStandingApproval (moment s) i u (rules_of s) = (gs', r) \<Longrightarrow> agency_step s (s\<lparr>rules_of := gs'\<rparr>)"
| update: "UpdateStandingApproval p io_ok (rules_of s) = (gs', r) \<Longrightarrow> agency_step s (s\<lparr>rules_of := gs'\<rparr>)"
| tick: "0 \<le> d \<Longrightarrow> agency_step s (s\<lparr>moment := moment s + d\<rparr>)"

definition guess_count :: "int \<Rightarrow> (int \<times> string) list \<Rightarrow> nat" where
  "guess_count i gs = length (filter (\<lambda>g. fst g = i) gs)"

text \<open>Some code issued to the agent was guessed.\<close>

definition matched :: "(int \<times> string) list \<Rightarrow> (int \<times> string) list \<Rightarrow> int \<Rightarrow> bool" where
  "matched codes gs i \<longleftrightarrow> (\<exists>c. (i, c) \<in> set codes \<and> (i, to_upper (filter (\<lambda>x. x \<noteq> CHR ''-'') c)) \<in> set gs)"

definition confirmed :: "agency \<Rightarrow> int \<Rightarrow> bool" where
  "confirmed s i \<longleftrightarrow> i \<in> set (by_owner s) \<or> matched (issued s) (guesses s) i"

definition row_ok :: "agency \<Rightarrow> agent \<Rightarrow> bool" where
  "row_ok s a \<longleftrightarrow> agent_wf (moment s) a \<and> int (guess_count (ag_id a) (guesses s)) = ag_attempts a \<and>
     (\<forall>c. ag_code a = Some c \<longrightarrow> (ag_id a, c) \<in> set (issued s)) \<and>
     (ag_status a = AgentRegistered \<longrightarrow> confirmed s (ag_id a))"

definition agency_inv :: "agency \<Rightarrow> bool" where
  "agency_inv s \<longleftrightarrow> distinct (map ag_id (agents s)) \<and> (\<forall>a \<in> set (agents s). row_ok s a) \<and>
     fst ` set (guesses s) \<subseteq> ag_id ` set (agents s) \<and> (\<forall>a \<in> set (confirming s). matched (issued s) (guesses s) (ag_id a)) \<and>
     distinct (map sa_id (rules_of s))"

text \<open>Agents are never lost, never become pending again, and a deactivated one stays so; revoked approvals stay revoked.\<close>

definition agent_after :: "agent \<Rightarrow> agent \<Rightarrow> bool" where
  "agent_after a b \<longleftrightarrow> ag_id b = ag_id a \<and> ag_approver b = ag_approver a \<and> ag_key b = ag_key a \<and>
     (ag_status b = AgentPending \<longrightarrow> ag_status a = AgentPending) \<and> (ag_status a = AgentDeactivated \<longrightarrow> ag_status b = AgentDeactivated)"

definition agency_later :: "agency \<Rightarrow> agency \<Rightarrow> bool" where
  "agency_later s t \<longleftrightarrow> (\<forall>a \<in> set (agents s). \<exists>b \<in> set (agents t). agent_after a b) \<and>
     (\<forall>g \<in> set (rules_of s). sa_status g = Revoked \<longrightarrow> g \<in> set (rules_of t))"

section \<open>Every step keeps the invariant\<close>

text \<open>A statement that changes rows in place: it keeps the keys, and the changed rows are fine.\<close>

lemma agency_rows:
  assumes inv: "agency_inv s"
    and rows: "agents t = update_where p f (agents s)"
    and ids: "\<And>a. ag_id (f a) = ag_id a"
    and changed: "\<And>a. a \<in> set (agents s) \<Longrightarrow> row_ok s a \<Longrightarrow> p a \<Longrightarrow> row_ok t (f a)"
    and kept: "\<And>a. a \<in> set (agents s) \<Longrightarrow> row_ok s a \<Longrightarrow> \<not> p a \<Longrightarrow> row_ok t a"
    and guesses: "fst ` set (guesses t) \<subseteq> ag_id ` set (agents s)"
    and confirming: "\<And>a. a \<in> set (confirming t) \<Longrightarrow> matched (issued t) (guesses t) (ag_id a)"
    and grants: "distinct (map sa_id (rules_of t))"
  shows "agency_inv t"
proof -
  have ids': "map ag_id (agents t) = map ag_id (agents s)" unfolding rows by (rule map_update_where) (simp add: ids)
  have "row_ok t b" if "b \<in> set (agents t)" for b
  proof -
    from that obtain a where a: "a \<in> set (agents s)" "b = (if p a then f a else a)" unfolding rows set_update_where by blast
    moreover have "row_ok s a" using inv a(1) by (simp add: agency_inv_def)
    ultimately show ?thesis using changed kept by (cases "p a") simp_all
  qed
  moreover have "fst ` set (guesses t) \<subseteq> ag_id ` set (agents t)" using guesses ids' by (metis set_map)
  ultimately show ?thesis using inv ids' confirming grants by (simp add: agency_inv_def)
qed

lemma agency_later_rows:
  assumes "agents t = update_where p f (agents s)" "\<And>a. p a \<Longrightarrow> agent_after a (f a)"
    and "\<And>g. g \<in> set (rules_of s) \<Longrightarrow> sa_status g = Revoked \<Longrightarrow> g \<in> set (rules_of t)"
  shows "agency_later s t"
proof -
  have "\<exists>b \<in> set (agents t). agent_after a b" if "a \<in> set (agents s)" for a
    using that assms(2) by (intro bexI [of _ "if p a then f a else a"]) (auto simp: agent_after_def assms(1) set_update_where)
  then show ?thesis using assms(3) by (simp add: agency_later_def)
qed

lemma agent_after_refl: "agent_after a a"
  by (simp add: agent_after_def)

lemma agency_later_same:
  assumes "agents t = agents s" "grants_after (rules_of s) (rules_of t)"
  shows "agency_later s t"
  unfolding agency_later_def
proof (intro conjI ballI impI)
  show "\<exists>b \<in> set (agents t). agent_after a b" if "a \<in> set (agents s)" for a
    using that by (intro bexI [of _ a]) (simp_all add: assms(1) agent_after_refl)
  show "g \<in> set (rules_of t)" if "g \<in> set (rules_of s)" "sa_status g = Revoked" for g
    using that assms(2) by (simp add: grants_after_def)
qed

lemma agency_confirming: "agency_inv s \<Longrightarrow> a \<in> set (confirming s) \<Longrightarrow> matched (issued s) (guesses s) (ag_id a)"
  by (simp add: agency_inv_def)

lemma row_ok_keep:
  assumes "row_ok s a" "agent_wf (moment t) b" "ag_id b = ag_id a" "ag_attempts b = ag_attempts a"
    and "ag_code b = None \<or> ag_code b = ag_code a" "guesses t = guesses s" "issued t = issued s"
    and "ag_status b = AgentRegistered \<Longrightarrow> confirmed t (ag_id a)"
  shows "row_ok t b"
  using assms unfolding row_ok_def by (elim disjE) simp_all

text \<open>A statement that leaves the codes and the guesses.\<close>

lemma agency_rows_plain:
  assumes inv: "agency_inv s"
    and rows: "agents t = update_where p f (agents s)"
    and hist: "moment t = moment s" "guesses t = guesses s" "issued t = issued s"
    and conf: "\<And>i. confirmed s i \<Longrightarrow> confirmed t i" "\<And>a. a \<in> set (confirming t) \<Longrightarrow> a \<in> set (confirming s)"
    and grants: "grants_after (rules_of s) (rules_of t)"
    and f: "\<And>a. agent_wf (moment s) a \<Longrightarrow> p a \<Longrightarrow> agent_wf (moment s) (f a)" "\<And>a. ag_id (f a) = ag_id a" "\<And>a. ag_attempts (f a) = ag_attempts a"
      "\<And>a. ag_code (f a) = None \<or> ag_code (f a) = ag_code a" "\<And>a. p a \<Longrightarrow> agent_after a (f a)"
    and reg: "\<And>a. a \<in> set (agents s) \<Longrightarrow> p a \<Longrightarrow> ag_status (f a) = AgentRegistered \<Longrightarrow>
      ag_status a = AgentRegistered \<or> confirmed t (ag_id a)"
  shows "agency_inv t \<and> agency_later s t"
proof
  have owner: "confirmed t (ag_id a)" if "row_ok s a" "ag_status a = AgentRegistered" for a
    using that conf(1) by (simp add: row_ok_def)
  show "agency_inv t"
  proof (rule agency_rows [OF inv rows f(2)])
    fix a assume a: "a \<in> set (agents s)" "row_ok s a" "p a"
    show "row_ok t (f a)"
    proof (rule row_ok_keep [OF a(2) _ f(2,3,4) hist(2,3)])
      show "agent_wf (moment t) (f a)" using f(1) a hist(1) by (simp add: row_ok_def)
      show "ag_status (f a) = AgentRegistered \<Longrightarrow> confirmed t (ag_id a)" using reg [OF a(1,3)] owner [OF a(2)] by blast
    qed
  next
    fix a assume a: "a \<in> set (agents s)" "row_ok s a" "\<not> p a"
    show "row_ok t a"
      by (rule row_ok_keep [OF a(2) _ _ _ _ hist(2,3)]) (use a(2) hist(1) owner in \<open>simp_all add: row_ok_def\<close>)
  next
    show "fst ` set (guesses t) \<subseteq> ag_id ` set (agents s)" using inv hist(2) by (simp add: agency_inv_def)
    show "matched (issued t) (guesses t) (ag_id a)" if "a \<in> set (confirming t)" for a
      using agency_confirming [OF inv conf(2) [OF that]] hist by simp
    show "distinct (map sa_id (rules_of t))" using inv grants by (simp add: agency_inv_def grants_after_def)
  qed
  show "agency_later s t" by (rule agency_later_rows [OF rows f(5)]) (use grants in \<open>simp_all add: grants_after_def\<close>)
qed

text \<open>The steps.\<close>

lemma update_cases:
  assumes "update_returning p f rows = (rows', r)"
  shows "rows' = update_where p f rows \<and> (r = None \<longrightarrow> (\<forall>a \<in> set rows. \<not> p a)) \<and> (\<forall>b. r = Some b \<longrightarrow> (\<exists>a \<in> set rows. p a \<and> b = f a))"
  using assms by (cases "find p rows") (auto simp: update_returning_def find_None_iff dest: find_SomeD)

lemma step_register_verified:
  assumes inv: "agency_inv s" and a: "a \<in> set (confirming s)" and st: "register_verified (moment s) a (agents s) = (rows', r)"
  shows "agency_inv (s\<lparr>agents := rows', confirming := remove1 a (confirming s)\<rparr>) \<and>
    agency_later s (s\<lparr>agents := rows', confirming := remove1 a (confirming s)\<rparr>)"
proof -
  let ?p = "\<lambda>b. ag_id b = ag_id a \<and> ag_status b = AgentPending"
  have rows: "rows' = update_where ?p (registered (moment s)) (agents s)"
  proof (cases "update_returning ?p (registered (moment s)) (agents s)")
    case (Pair rs q)
    from update_cases [OF this] show ?thesis
      using st Pair by (cases q) (simp_all add: register_verified_def update_where_none)
  qed
  have conf: "confirmed s (ag_id a)" using agency_confirming [OF inv a] by (simp add: confirmed_def)
  show ?thesis
    by (rule agency_rows_plain [OF inv, where p = ?p and f = "registered (moment s)"])
      (use conf in \<open>simp_all add: rows confirmed_def grants_after_refl registered_def agent_after_def wf_registered [unfolded registered_def] notin_set_remove1, meson notin_set_remove1\<close>)
qed

lemma step_own:
  assumes inv: "agency_inv s" and st: "RegisterAgent (moment s) i u (agents s) = (rows', r)"
  shows "agency_inv (s\<lparr>agents := rows', by_owner := note_owner r (by_owner s)\<rparr>) \<and>
    agency_later s (s\<lparr>agents := rows', by_owner := note_owner r (by_owner s)\<rparr>)"
proof -
  let ?p = "\<lambda>a. ag_id a = i \<and> ag_approver a = u \<and> ag_status a = AgentPending"
  let ?t = "s\<lparr>agents := rows', by_owner := note_owner r (by_owner s)\<rparr>"
  note cs = update_cases [OF st [unfolded RegisterAgent_def]]
  have owner: "confirmed ?t (ag_id a)" if "a \<in> set (agents s)" "?p a" for a
    using that cs by (cases r) (auto simp: confirmed_def note_owner_def registered_def)
  have mono: "confirmed s j \<Longrightarrow> confirmed ?t j" for j by (cases r) (auto simp: confirmed_def note_owner_def)
  show ?thesis
    by (rule agency_rows_plain [OF inv, where p = ?p and f = "registered (moment s)"])
      (use cs mono owner in \<open>simp_all add: grants_after_refl registered_def agent_after_def wf_registered [unfolded registered_def]\<close>)
qed

lemma step_touch:
  assumes inv: "agency_inv s"
  shows "agency_inv (s\<lparr>agents := TouchAgentLastActive (moment s) i (agents s)\<rparr>) \<and>
    agency_later s (s\<lparr>agents := TouchAgentLastActive (moment s) i (agents s)\<rparr>)"
  by (rule agency_rows_plain [OF inv, where p = "\<lambda>a. ag_id a = i" and f = "\<lambda>a. a\<lparr>ag_last_active := Some (sql_now (moment s))\<rparr>"])
    (simp_all add: TouchAgentLastActive_def confirmed_def grants_after_refl agent_after_def wf_touch)

lemma step_metadata:
  assumes inv: "agency_inv s" and st: "UpdateAgentMetadata ord i u patch io_ok old (agents s) = (rows', r)"
  shows "agency_inv (s\<lparr>agents := rows'\<rparr>) \<and> agency_later s (s\<lparr>agents := rows'\<rparr>)"
proof -
  let ?p = "\<lambda>a. ag_id a = i \<and> ag_approver a = u"
  consider "rows' = agents s" | m where "rows' = update_where ?p (\<lambda>a. a\<lparr>ag_metadata := m\<rparr>) (agents s)"
    using st by (auto simp: UpdateAgentMetadata_def write_metadata_def update_returning_def split: option.splits sum.splits if_splits)
  then show ?thesis
  proof cases
    case 1
    then show ?thesis using inv by (simp add: agency_later_same grants_after_refl)
  next
    case (2 m)
    show ?thesis
      by (rule agency_rows_plain [OF inv, where p = ?p and f = "\<lambda>a. a\<lparr>ag_metadata := m\<rparr>"])
        (simp_all add: 2 confirmed_def grants_after_refl agent_after_def wf_metadata)
  qed
qed

lemma deactivate_cases:
  assumes "DeactivateAgent now i u io_ok (rows, gs) = ((rows', gs'), r)"
  obtains "rows' = rows" "gs' = gs" "\<forall>a. r \<noteq> Inr (Some a)" |
    a where "rows' = update_where (\<lambda>a. ag_id a = i \<and> ag_approver a = u \<and> ag_status a \<noteq> AgentDeactivated)
        (\<lambda>a. a\<lparr>ag_status := AgentDeactivated, ag_deactivated_at := Some (sql_now now)\<rparr>) rows"
      "gs' = revoke_all now i gs" "a \<in> set rows" "ag_id a = i" "ag_approver a = u" "ag_status a \<noteq> AgentDeactivated"
      "r = Inr (Some (a\<lparr>ag_status := AgentDeactivated, ag_deactivated_at := Some (sql_now now)\<rparr>))"
  using assms
  by (cases "find (\<lambda>a. ag_id a = i \<and> ag_approver a = u \<and> ag_status a \<noteq> AgentDeactivated) rows")
    (auto simp: DeactivateAgent_def update_returning_def dest!: find_SomeD split: if_splits)

lemma revoke_all_after: "grants_after gs (revoke_all now i gs)"
  unfolding revoke_all_def by (rule grants_after_update) simp_all

lemma step_deactivate:
  assumes inv: "agency_inv s" and st: "DeactivateAgent (moment s) i u io_ok (agents s, rules_of s) = ((rows', gs'), r)"
  shows "agency_inv (s\<lparr>agents := rows', rules_of := gs'\<rparr>) \<and> agency_later s (s\<lparr>agents := rows', rules_of := gs'\<rparr>)"
  using st
proof (rule deactivate_cases)
  assume "rows' = agents s" "gs' = rules_of s"
  then show ?thesis using inv by (simp add: agency_later_same grants_after_refl)
next
  let ?p = "\<lambda>a. ag_id a = i \<and> ag_approver a = u \<and> ag_status a \<noteq> AgentDeactivated"
  let ?f = "\<lambda>a. a\<lparr>ag_status := AgentDeactivated, ag_deactivated_at := Some (sql_now (moment s))\<rparr>"
  assume "rows' = update_where ?p ?f (agents s)" "gs' = revoke_all (moment s) i (rules_of s)"
  then show ?thesis
    by (intro agency_rows_plain [OF inv, where p = ?p and f = ?f])
      (simp_all add: confirmed_def revoke_all_after agent_after_def wf_deactivated)
qed

lemma next_id_fresh: "i \<in> ag_id ` set rows \<Longrightarrow> i < next_agent_id rows"
  unfolding next_agent_id_def by (induction rows) auto

lemma count_absent: "i \<notin> fst ` set gs \<Longrightarrow> guess_count i gs = 0"
  by (auto simp: guess_count_def filter_empty_conv)

lemma matched_mono: "matched c g i \<Longrightarrow> set c \<subseteq> set c' \<Longrightarrow> set g \<subseteq> set g' \<Longrightarrow> matched c' g' i"
  unfolding matched_def by blast

lemma step_invite:
  assumes inv: "agency_inv s" and st: "InsertPendingAgent (moment s) u key code ttl m io_ok (agents s) = (rows', r)"
  shows "agency_inv (s\<lparr>agents := rows', issued := note_code r code (issued s)\<rparr>) \<and>
    agency_later s (s\<lparr>agents := rows', issued := note_code r code (issued s)\<rparr>)"
proof -
  let ?a = "new_agent (moment s) (next_agent_id (agents s)) u key code ttl m"
  let ?t = "s\<lparr>agents := ?a # agents s, issued := (ag_id ?a, code) # issued s\<rparr>"
  consider "rows' = agents s" "r = None" | "rows' = ?a # agents s" "r = Some ?a" "agent_checks ?a"
    using st by (auto simp: InsertPendingAgent_def Let_def split: if_splits)
  then show ?thesis
  proof cases
    case 1
    then show ?thesis using inv by (simp add: note_code_def agency_later_same grants_after_refl)
  next
    case 2
    have new: "ag_id ?a \<notin> ag_id ` set (agents s)"
      using next_id_fresh [of "next_agent_id (agents s)" "agents s"] by (auto simp: new_agent_def)
    then have "guess_count (ag_id ?a) (guesses s) = 0" using inv by (intro count_absent) (auto simp: agency_inv_def)
    then have "row_ok ?t ?a"
      using wf_new [OF 2(3)] unfolding row_ok_def by (simp add: new_agent_def)
    moreover have "row_ok ?t a" if "row_ok s a" for a
      using that unfolding row_ok_def by (auto simp: confirmed_def intro: matched_mono)
    moreover have "matched (issued ?t) (guesses ?t) j" if "matched (issued s) (guesses s) j" for j
      using that by (rule matched_mono) auto
    ultimately have "agency_inv ?t" using inv new by (auto simp: agency_inv_def)
    moreover have "agency_later s ?t" by (auto simp: agency_later_def agent_after_def)
    ultimately show ?thesis by (simp add: 2 note_code_def)
  qed
qed

lemma step_guess:
  assumes inv: "agency_inv s" and st: "count_attempt (moment s) i (agents s) = (rows', Some b)"
  shows "agency_inv (s\<lparr>agents := rows', guesses := (i, c) # guesses s, confirming := (if stored_code b = c then b # confirming s else confirming s)\<rparr>) \<and>
    agency_later s (s\<lparr>agents := rows', guesses := (i, c) # guesses s, confirming := (if stored_code b = c then b # confirming s else confirming s)\<rparr>)"
    (is "agency_inv ?t \<and> agency_later s ?t")
proof
  let ?p = "\<lambda>a. ag_id a = i \<and> ag_status a = AgentPending \<and> agent_unexpired (moment s) a \<and> ag_attempts a < maxVerificationAttempts"
  let ?f = "\<lambda>a :: agent. a\<lparr>ag_attempts := ag_attempts a + 1\<rparr>"
  note cs = update_cases [OF st [unfolded count_attempt_def]]
  then obtain a0 where a0: "a0 \<in> set (agents s)" "?p a0" "b = ?f a0" by blast
  have rows: "agents ?t = update_where ?p ?f (agents s)" using cs by simp
  have dist: "distinct (map ag_id (agents s))" using inv by (simp add: agency_inv_def)
  have row0: "row_ok s a0" using inv a0(1) by (simp add: agency_inv_def)
  have mono: "confirmed s j \<Longrightarrow> confirmed ?t j" for j
    using matched_mono [of "issued s" "guesses s" j "issued s" "(i, c) # guesses s"] by (auto simp: confirmed_def)
  show "agency_inv ?t"
  proof (rule agency_rows [OF inv rows])
    fix a assume a: "a \<in> set (agents s)" "row_ok s a" "?p a"
    then show "row_ok ?t (?f a)"
      using wf_attempt mono [of "ag_id a"] by (simp add: row_ok_def guess_count_def)
  next
    fix a assume a: "a \<in> set (agents s)" "row_ok s a" "\<not> ?p a"
    then have "ag_id a \<noteq> i" using key_unique [OF dist a(1) a0(1)] a0(2) by auto
    then show "row_ok ?t a" using a(2) mono by (simp add: row_ok_def guess_count_def)
  next
    show "fst ` set (guesses ?t) \<subseteq> ag_id ` set (agents s)" using inv a0 by (auto simp: agency_inv_def)
    have "matched (issued s) ((i, stored_code b) # guesses s) i"
    proof -
      have "ag_code a0 \<noteq> None" using row0 a0(2) by (simp add: row_ok_def agent_wf_def status_wf_def)
      then obtain k where "ag_code a0 = Some k" by blast
      moreover from this have "(i, k) \<in> set (issued s)" using row0 a0(2) by (auto simp: row_ok_def)
      ultimately show ?thesis using a0(3) by (auto simp: matched_def stored_code_def)
    qed
    then show "matched (issued ?t) (guesses ?t) (ag_id a)" if "a \<in> set (confirming ?t)" for a
      using that agency_confirming [OF inv, of a] a0 matched_mono [of "issued s" "guesses s" "ag_id a" "issued s" "(i, c) # guesses s"]
      by (auto split: if_splits)
    show "distinct (map sa_id (rules_of ?t))" using inv by (simp add: agency_inv_def)
  qed simp_all
  show "agency_later s ?t" by (rule agency_later_rows [OF rows]) (simp_all add: agent_after_def)
qed

lemma step_rules:
  assumes inv: "agency_inv s" and gs: "grants_after (rules_of s) gs'"
  shows "agency_inv (s\<lparr>rules_of := gs'\<rparr>) \<and> agency_later s (s\<lparr>rules_of := gs'\<rparr>)"
  using inv gs by (simp add: agency_inv_def row_ok_def confirmed_def agency_later_same) (simp add: grants_after_def)

lemma step_clock:
  assumes inv: "agency_inv s" and d: "0 \<le> d"
  shows "agency_inv (s\<lparr>moment := moment s + d\<rparr>) \<and> agency_later s (s\<lparr>moment := moment s + d\<rparr>)"
  using inv d wf_later [of "moment s"] by (simp add: agency_inv_def row_ok_def confirmed_def agency_later_same grants_after_refl)

lemma agency_step_ok: "agency_step s t \<Longrightarrow> agency_inv s \<Longrightarrow> agency_inv t \<and> agency_later s t"
proof (induction rule: agency_step.induct)
  case (invite s u key code ttl m io_ok rows' r)
  then show ?case using step_invite by simp
next
  case (guess s i rows' a submitted)
  show ?case by (rule step_guess [OF guess(2,1)])
next
  case (confirm a s rows' r)
  show ?case by (rule step_register_verified [OF confirm(3,1,2)])
next
  case (own s i u rows' r)
  show ?case by (rule step_own [OF own(2,1)])
next
  case (deactivate s i u io_ok rows' gs' r)
  show ?case by (rule step_deactivate [OF deactivate(2,1)])
next
  case (metadata ord i u patch io_ok old s rows' r)
  show ?case by (rule step_metadata [OF metadata(2,1)])
next
  case (touch s i)
  then show ?case by (rule step_touch)
next
  case (grant s p io_ok gs' r)
  show ?case by (rule step_rules [OF grant(2) create_after [OF grant(1)]])
next
  case (revoke s i u gs' r)
  show ?case by (rule step_rules [OF revoke(2) revoke_after [OF revoke(1)]])
next
  case (update p io_ok s gs' r)
  show ?case by (rule step_rules [OF update(2) update_after [OF update(1)]])
next
  case (tick d s)
  then show ?case using step_clock by simp
qed

lemma agent_after_trans: "agent_after a b \<Longrightarrow> agent_after b c \<Longrightarrow> agent_after a c"
  unfolding agent_after_def by (intro conjI impI; elim conjE) (iprover intro: trans)+

lemma agency_later_trans:
  assumes "agency_later s t" "agency_later t u"
  shows "agency_later s u"
  unfolding agency_later_def
proof (intro conjI ballI impI)
  fix a assume "a \<in> set (agents s)"
  then have "\<exists>b \<in> set (agents t). agent_after a b" using assms(1) by (simp only: agency_later_def)
  then obtain b where b: "b \<in> set (agents t)" "agent_after a b" ..
  then have "\<exists>c \<in> set (agents u). agent_after b c" using assms(2) by (simp only: agency_later_def)
  then obtain c where c: "c \<in> set (agents u)" "agent_after b c" ..
  show "\<exists>c \<in> set (agents u). agent_after a c" by (rule bexI [of _ c]) (rule agent_after_trans [OF b(2) c(2)], rule c(1))
next
  fix g assume g: "g \<in> set (rules_of s)" "sa_status g = Revoked"
  then have "g \<in> set (rules_of t)" using assms(1) by (simp only: agency_later_def)
  then show "g \<in> set (rules_of u)" using g(2) assms(2) by (simp only: agency_later_def)
qed

interpretation agency: system agency_start agency_step agency_inv agency_later
proof unfold_locales
  show "agency_start s \<Longrightarrow> agency_inv s" for s by (simp add: agency_start_def agency_inv_def)
  show "agency_inv s \<Longrightarrow> agency_step s t \<Longrightarrow> agency_inv t" for s t by (simp only: agency_step_ok)
  show "agency_inv s \<Longrightarrow> agency_step s t \<Longrightarrow> agency_later s t" for s t by (simp only: agency_step_ok)
  show "agency_later s s" for s by (simp add: agency_later_same grants_after_refl)
  show "agency_later s t \<Longrightarrow> agency_later t u \<Longrightarrow> agency_later s u" for s t u by (rule agency_later_trans)
qed

section \<open>What holds in every run\<close>

text \<open>C6: Agents stay well-formed. In every reachable state agent ids are unique, and of every row the columns fit its status: a pending
  agent has a confirmation code and no dates of registration or deactivation, a registered one has lost its code, the
  attempts lie between 0 and 5, the registration lapses its TTL after it was created, and no date is before the
  creation or after the present.\<close>

theorem agents_well_formed:
  assumes "reach agency_start agency_step s"
  shows "distinct (map ag_id (agents s)) \<and> (\<forall>a \<in> set (agents s). agent_wf (moment s) a)"
  using agency.invariant [OF assms] by (simp add: agency_inv_def row_ok_def)

text \<open>C17: Five guesses. However requests interleave, at most five submitted codes are ever compared with the code of one agent.\<close>

theorem code_guesses_bounded:
  assumes "reach agency_start agency_step s"
  shows "guess_count i (guesses s) \<le> 5"
proof (cases "i \<in> fst ` set (guesses s)")
  case True
  note inv = agency.invariant [OF assms]
  then obtain a where a: "a \<in> set (agents s)" "ag_id a = i" using True by (auto simp: agency_inv_def)
  then have "row_ok s a" using inv by (simp add: agency_inv_def)
  then show ?thesis using a(2) by (simp add: row_ok_def agent_wf_def maxVerificationAttempts_def)
qed (simp add: count_absent)

text \<open>C18: Nobody registers unconfirmed. A registered agent was registered by its approver from the dashboard, or a code was
  submitted that is, up to hyphens and case, the one issued to this agent.\<close>

theorem registration_confirmed:
  assumes "reach agency_start agency_step s" "a \<in> set (agents s)" "ag_status a = AgentRegistered"
  shows "ag_id a \<in> set (by_owner s) \<or>
    (\<exists>c. (ag_id a, c) \<in> set (issued s) \<and> (ag_id a, to_upper (filter (\<lambda>x. x \<noteq> CHR ''-'') c)) \<in> set (guesses s))"
proof -
  have "row_ok s a" using agency.invariant [OF assms(1)] assms(2) by (simp add: agency_inv_def)
  then show ?thesis using assms(3) by (simp add: row_ok_def confirmed_def matched_def)
qed

lemma revoked_by_all: "g \<in> set gs \<Longrightarrow> sa_agent g = i \<Longrightarrow> sa_status g = Active \<Longrightarrow>
   g\<lparr>sa_status := Revoked, sa_revoked_at := Some (sql_now now)\<rparr> \<in> set (revoke_all now i gs)"
  by (auto simp: revoke_all_def set_update_where intro: bexI [of _ g])

lemma deactivation:
  assumes inv: "agency_inv s" and st: "DeactivateAgent (moment s) i u io_ok (agents s, rules_of s) = ((rows', gs'), Inr (Some a))"
  shows "a \<in> set rows' \<and> ag_id a = i \<and> ag_status a = AgentDeactivated \<and> gs' = revoke_all (moment s) i (rules_of s)"
  using st
proof (rule deactivate_cases)
  let ?f = "\<lambda>a. a\<lparr>ag_status := AgentDeactivated, ag_deactivated_at := Some (sql_now (moment s))\<rparr>"
  fix b
  assume rows: "rows' = update_where (\<lambda>a. ag_id a = i \<and> ag_approver a = u \<and> ag_status a \<noteq> AgentDeactivated) ?f (agents s)"
    and gs: "gs' = revoke_all (moment s) i (rules_of s)"
    and b: "b \<in> set (agents s)" "ag_id b = i" "ag_approver b = u" "ag_status b \<noteq> AgentDeactivated"
    and r: "(Inr (Some a) :: agent option result) = Inr (Some (?f b))"
  have "?f b \<in> set rows'" unfolding rows set_update_where using b by (intro bexI [of _ b]) simp_all
  then show ?thesis using r gs b(2) by simp
qed simp

text \<open>C19: Deactivation is final. Once an agent is deactivated it stays so in every run that follows, and the standing approvals it had
  at that time stay revoked.\<close>

theorem deactivation_is_final:
  assumes "reach agency_start agency_step s"
    and "DeactivateAgent (moment s) i u io_ok (agents s, rules_of s) = ((rows', gs'), Inr (Some a))"
    and "agency_step\<^sup>*\<^sup>* (s\<lparr>agents := rows', rules_of := gs'\<rparr>) t"
  shows "(\<exists>b \<in> set (agents t). ag_id b = i \<and> ag_status b = AgentDeactivated) \<and>
    (\<forall>g \<in> set (rules_of s). sa_agent g = i \<and> sa_status g = Active \<longrightarrow>
       (\<exists>g' \<in> set (rules_of t). sa_id g' = sa_id g \<and> sa_status g' = Revoked))"
proof (intro conjI ballI impI)
  let ?s = "s\<lparr>agents := rows', rules_of := gs'\<rparr>"
  note inv = agency.invariant [OF assms(1)]
  note d = deactivation [OF inv assms(2)]
  have "reach agency_start agency_step ?s" by (rule reach_step [OF assms(1) agency_step.deactivate [OF assms(2)]])
  then have later: "agency_later ?s t" by (rule agency.later_reach) (rule assms(3))
  then have "\<exists>b \<in> set (agents t). agent_after a b" using d by (simp add: agency_later_def)
  then obtain b where "b \<in> set (agents t)" "agent_after a b" ..
  then show "\<exists>b \<in> set (agents t). ag_id b = i \<and> ag_status b = AgentDeactivated"
    using d by (intro bexI [of _ b]) (simp_all add: agent_after_def)
  fix g assume g: "g \<in> set (rules_of s)" "sa_agent g = i \<and> sa_status g = Active"
  let ?g = "g\<lparr>sa_status := Revoked, sa_revoked_at := Some (sql_now (moment s))\<rparr>"
  have "?g \<in> set gs'" using revoked_by_all g d by simp
  then have "?g \<in> set (rules_of t)" using later by (simp add: agency_later_def)
  then show "\<exists>g' \<in> set (rules_of t). sa_id g' = sa_id g \<and> sa_status g' = Revoked" by (intro bexI [of _ ?g]) simp_all
qed

section \<open>One verification\<close>

lemma update_same: "(\<And>a. a \<in> set rows \<Longrightarrow> (if p a then f a else a) = (if q a then g a else a)) \<Longrightarrow> update_where p f rows = update_where q g rows"
  by (simp add: update_where_def)

lemma update_agent:
  assumes "distinct (map ag_id rows)" "a \<in> set rows" "p a" "\<And>b. p b \<Longrightarrow> ag_id b = ag_id a"
  shows "update_returning p f rows = (update_where (\<lambda>b. ag_id b = ag_id a) f rows, Some (f a))"
proof -
  have "update_where p f rows = update_where (\<lambda>b. ag_id b = ag_id a) f rows"
  proof (rule update_same)
    fix b assume b: "b \<in> set rows"
    show "(if p b then f b else b) = (if ag_id b = ag_id a then f b else b)"
    proof (cases "ag_id b = ag_id a")
      case True
      then have "b = a" by (rule key_unique [OF assms(1) b assms(2)])
      then show ?thesis using assms(3) by simp
    qed (use assms(4) [of b] in auto)
  qed
  moreover have "find p rows = Some a" by (rule find_key [of ag_id rows a p]) (rule assms, assumption?)+
  ultimately show ?thesis by (simp add: update_returning_def)
qed

lemma update_none: "(\<And>b. b \<in> set rows \<Longrightarrow> \<not> p b) \<Longrightarrow> update_returning p f rows = (rows, None)"
  by (simp add: update_returning_def update_where_none find_None_iff)

definition can_verify :: "instant \<Rightarrow> agent \<Rightarrow> bool" where
  "can_verify now a \<longleftrightarrow> ag_status a = AgentPending \<and> agent_unexpired now a \<and> ag_attempts a < maxVerificationAttempts"

definition put_agent :: "agent \<Rightarrow> agent list \<Rightarrow> agent list" where
  "put_agent b rows = map (\<lambda>a. if ag_id a = ag_id b then b else a) rows"

lemma put_agent_where:
  assumes "distinct (map ag_id rows)" "a \<in> set rows" "ag_id (f a) = ag_id a"
  shows "update_where (\<lambda>b. ag_id b = ag_id a) f rows = put_agent (f a) rows"
  unfolding put_agent_def update_where_def
proof (rule map_cong [OF refl])
  fix b assume b: "b \<in> set rows"
  show "(if ag_id b = ag_id a then f b else b) = (if ag_id b = ag_id (f a) then f a else b)"
  proof (cases "ag_id b = ag_id a")
    case True
    then have "b = a" by (rule key_unique [OF assms(1) b assms(2)])
    then show ?thesis using assms(3) by simp
  qed (simp add: assms(3))
qed

lemma put_agent_ids: "map ag_id (put_agent b rows) = map ag_id rows"
  by (simp add: put_agent_def)

lemma verify_code:
  assumes "distinct (map ag_id rows)" "a \<in> set rows"
  shows "VerifyAgentConfirmationCode now (ag_id a) c rows =
    (let tried = a\<lparr>ag_attempts := ag_attempts a + 1\<rparr> in
     if can_verify now a then
       if stored_code a = c then (put_agent (registered now tried) rows, Some (registered now tried), None)
       else (put_agent tried rows, Some tried, Some InvalidConfirmation)
     else (rows, Some a, Some
       (if ag_status a \<noteq> AgentPending then AgentNotPending
        else if (case ag_expires a of None \<Rightarrow> False | Some e \<Rightarrow> e < now) then RegistrationExpired
        else VerificationLocked)))"
proof -
  let ?p = "\<lambda>b. ag_id b = ag_id a \<and> ag_status b = AgentPending \<and> agent_unexpired now b \<and> ag_attempts b < maxVerificationAttempts"
  let ?f = "\<lambda>a :: agent. a\<lparr>ag_attempts := ag_attempts a + 1\<rparr>"
  have found: "GetAgentByIDUnscoped (ag_id a) rows = Some a"
    unfolding GetAgentByIDUnscoped_def by (rule find_key [OF assms]) simp_all
  show ?thesis
  proof (cases "can_verify now a")
    case False
    have "\<not> ?p b" if b: "b \<in> set rows" for b
    proof
      assume p: "?p b"
      then have "b = a" by (intro key_unique [OF assms(1) b assms(2)]) simp
      then show "False" using p False by (simp add: can_verify_def)
    qed
    then have "count_attempt now (ag_id a) rows = (rows, None)" unfolding count_attempt_def by (rule update_none)
    then show ?thesis using False found by (simp add: VerifyAgentConfirmationCode_def diagnosePendingAgent_def)
  next
    case True
    have one: "count_attempt now (ag_id a) rows = (put_agent (?f a) rows, Some (?f a))"
      unfolding count_attempt_def
      using update_agent [OF assms, of ?p ?f] put_agent_where [OF assms, of ?f] True by (simp add: can_verify_def)
    have code: "stored_code (?f a) = stored_code a" by (simp add: stored_code_def)
    show ?thesis
    proof (cases "stored_code a = c")
      case False
      then show ?thesis using True one code by (simp add: VerifyAgentConfirmationCode_def Let_def)
    next
      case eq: True
      have in2: "?f a \<in> set (put_agent (?f a) rows)" using assms(2) by (force simp: put_agent_def)
      have d2: "distinct (map ag_id (put_agent (?f a) rows))"
        by (simp only: put_agent_ids assms(1))
      have put2: "put_agent (registered now (?f a)) (put_agent (?f a) rows) = put_agent (registered now (?f a)) rows"
        by (simp add: put_agent_def registered_def)
      let ?q = "\<lambda>b. ag_id b = ag_id (?f a) \<and> ag_status b = AgentPending"
      have "update_returning ?q (registered now) (put_agent (?f a) rows) = (put_agent (registered now (?f a)) rows, Some (registered now (?f a)))"
        using update_agent [OF d2 in2, of ?q "registered now"] put_agent_where [OF d2 in2, of "registered now"] True put2
        by (simp add: can_verify_def registered_def)
      then show ?thesis using True one code eq by (simp add: VerifyAgentConfirmationCode_def register_verified_def Let_def)
    qed
  qed
qed

text \<open>What one verification does, on every branch: an agent that is pending, unexpired and under the limit has the attempt counted and is
  registered exactly when the code matches; any other row stays, and the error says why.\<close>

theorem verify_code_outcome:
  assumes "distinct (map ag_id rows)" "a \<in> set rows"
  shows "VerifyAgentConfirmationCode now (ag_id a) c rows =
    (let tried = a\<lparr>ag_attempts := ag_attempts a + 1\<rparr> in
     if can_verify now a then
       if stored_code a = c then (put_agent (registered now tried) rows, Some (registered now tried), None)
       else (put_agent tried rows, Some tried, Some InvalidConfirmation)
     else (rows, Some a, Some
       (if ag_status a \<noteq> AgentPending then AgentNotPending
        else if (case ag_expires a of None \<Rightarrow> False | Some e \<Rightarrow> e < now) then RegistrationExpired
        else VerificationLocked)))"
  using assms by (rule verify_code)

section \<open>A run\<close>

text \<open>An agent is invited, submits its code with a wrong one before it, is registered, and deactivated; its standing approval is revoked with
  it, and its approver creates another one.\<close>

definition agency_at :: "agent list \<Rightarrow> standing list \<Rightarrow> agent list \<Rightarrow> (int \<times> string) list \<Rightarrow> agency" where
  "agency_at rows gs conf gu =
     \<lparr>moment = 0, agents = rows, rules_of = gs, confirming = conf, issued = [(1, ''AAAAA-22222'')], guesses = gu, by_owner = []\<rparr>"

definition fresh_agent :: agent where
  "fresh_agent = new_agent 0 1 ''u'' ''k'' ''AAAAA-22222'' 300 Empty"

definition tried_agent :: agent where
  "tried_agent = fresh_agent\<lparr>ag_attempts := 1\<rparr>"

definition registered_agent :: agent where
  "registered_agent = registered 0 tried_agent"

definition deactivated_agent :: agent where
  "deactivated_agent = registered_agent\<lparr>ag_status := AgentDeactivated, ag_deactivated_at := Some 0\<rparr>"

definition rule_params :: "string \<Rightarrow> standing_params" where
  "rule_params i = example_standing_params\<lparr>cp_id := i, cp_agent := 1\<rparr>"

definition rule_row :: "string \<Rightarrow> standing" where
  "rule_row i = new_standing 0 (rule_params i)"

definition rule_revoked :: standing where
  "rule_revoked = (rule_row ''sa_1'')\<lparr>sa_status := Revoked, sa_revoked_at := Some 0\<rparr>"

lemmas agency_defs = agency_at_def fresh_agent_def tried_agent_def registered_agent_def deactivated_agent_def new_agent_def registered_def
  rule_params_def rule_row_def rule_revoked_def example_standing_params_def new_standing_def sql_now_def

abbreviation code_guess :: "(int \<times> string) list" where
  "code_guess \<equiv> [(1, ''AAAAA22222'')]"

lemma run_invited: "reach agency_start agency_step (agency_at [fresh_agent] [] [] [])"
proof -
  let ?s = "\<lparr>moment = 0, agents = [], rules_of = [], confirming = [], issued = [], guesses = [], by_owner = []\<rparr> :: agency"
  have "reach agency_start agency_step ?s" by (rule reach_start) (simp add: agency_start_def)
  moreover have "InsertPendingAgent 0 ''u'' ''k'' ''AAAAA-22222'' 300 Empty True [] = ([fresh_agent], Some fresh_agent)"
    by (simp add: InsertPendingAgent_def Let_def next_agent_id_def fresh_agent_def agent_checks_def new_agent_def)
  then have "agency_step ?s (agency_at [fresh_agent] [] [] [])"
    using agency_step.invite [of ?s "''u''" "''k''" "''AAAAA-22222''" 300 Empty True "[fresh_agent]" "Some fresh_agent"]
    by (simp add: agency_at_def note_code_def) (simp add: agency_defs)
  ultimately show ?thesis by (rule reach_step)
qed

lemma run_guessed: "reach agency_start agency_step (agency_at [tried_agent] [] [tried_agent] code_guess)"
proof -
  have "count_attempt 0 1 [fresh_agent] = ([tried_agent], Some tried_agent)"
    by (simp add: count_attempt_def update_returning_def update_where_def agency_defs agent_unexpired_def datetime_def ns_per_sec_def
        maxVerificationAttempts_def)
  moreover have "stored_code tried_agent = ''AAAAA22222''" by (simp add: stored_code_def agency_defs) code_simp
  ultimately have "agency_step (agency_at [fresh_agent] [] [] []) (agency_at [tried_agent] [] [tried_agent] code_guess)"
    using agency_step.guess [of "agency_at [fresh_agent] [] [] []" 1 "[tried_agent]" tried_agent "''AAAAA22222''"]
    by (simp add: agency_at_def)
  then show ?thesis by (rule reach_step [OF run_invited])
qed

lemma run_registered: "reach agency_start agency_step (agency_at [registered_agent] [] [] code_guess)"
proof -
  have "register_verified 0 tried_agent [tried_agent] = ([registered_agent], Some registered_agent, None)"
    by (simp add: register_verified_def update_returning_def update_where_def agency_defs)
  then have "agency_step (agency_at [tried_agent] [] [tried_agent] code_guess) (agency_at [registered_agent] [] [] code_guess)"
    using agency_step.confirm [of tried_agent "agency_at [tried_agent] [] [tried_agent] code_guess"] by (simp add: agency_at_def)
  then show ?thesis by (rule reach_step [OF run_guessed])
qed

lemma run_granted: "reach agency_start agency_step (agency_at [registered_agent] [rule_row ''sa_1''] [] code_guess)"
proof -
  have "CreateStandingApproval 0 (AgentBelongsToUser [registered_agent]) (rule_params ''sa_1'') True [] = ([rule_row ''sa_1''], Inr (rule_row ''sa_1''))"
    by (simp add: CreateStandingApproval_def Let_def AgentBelongsToUser_def agency_defs standing_checks_def)
  then have "agency_step (agency_at [registered_agent] [] [] code_guess) (agency_at [registered_agent] [rule_row ''sa_1''] [] code_guess)"
    using agency_step.grant [of "agency_at [registered_agent] [] [] code_guess"] by (simp add: agency_at_def)
  then show ?thesis by (rule reach_step [OF run_registered])
qed

lemma run_deactivation:
  "DeactivateAgent 0 1 ''u'' True ([registered_agent], [rule_row ''sa_1'']) = (([deactivated_agent], [rule_revoked]), Inr (Some deactivated_agent))"
  by (simp add: DeactivateAgent_def update_returning_def update_where_def revoke_all_def agency_defs)

lemma run_deactivated: "reach agency_start agency_step (agency_at [deactivated_agent] [rule_revoked] [] code_guess)"
  using agency_step.deactivate [of "agency_at [registered_agent] [rule_row ''sa_1''] [] code_guess"] run_deactivation
  by (intro reach_step [OF run_granted]) (simp add: agency_at_def)

text \<open>Deactivation does not close the door for new grants: creating a standing approval asks who owns the agent, not whether it is
  still registered, so an active one is created for a deactivated agent.\<close>

theorem deactivated_agent_is_granted:
  "\<exists>s a g. reach agency_start agency_step s \<and> a \<in> set (agents s) \<and> ag_status a = AgentDeactivated \<and>
     g \<in> set (rules_of s) \<and> sa_agent g = ag_id a \<and> sa_status g = Active"
proof (intro exI conjI)
  let ?s = "agency_at [deactivated_agent] [rule_revoked] [] code_guess"
  let ?t = "agency_at [deactivated_agent] [rule_row ''sa_2'', rule_revoked] [] code_guess"
  have "CreateStandingApproval 0 (AgentBelongsToUser [deactivated_agent]) (rule_params ''sa_2'') True [rule_revoked] =
      ([rule_row ''sa_2'', rule_revoked], Inr (rule_row ''sa_2''))"
    by (simp add: CreateStandingApproval_def Let_def AgentBelongsToUser_def agency_defs standing_checks_def)
  then have "agency_step ?s ?t" using agency_step.grant [of ?s] by (simp add: agency_at_def)
  then show "reach agency_start agency_step ?t" by (rule reach_step [OF run_deactivated])
  show "deactivated_agent \<in> set (agents ?t)" "rule_row ''sa_2'' \<in> set (rules_of ?t)" by (simp_all add: agency_at_def)
  show "ag_status deactivated_agent = AgentDeactivated" "sa_agent (rule_row ''sa_2'') = ag_id deactivated_agent" "sa_status (rule_row ''sa_2'') = Active"
    by (simp_all add: agency_defs)
qed

theorem agents_well_formed_witness:
  "distinct (map ag_id [deactivated_agent]) \<and> agent_wf 0 deactivated_agent"
  using agents_well_formed [OF run_deactivated] by (simp add: agency_at_def)

theorem code_guesses_bounded_witness: "guess_count 1 code_guess \<le> 5"
  using code_guesses_bounded [OF run_deactivated, of 1] by (simp add: agency_at_def)

theorem registration_confirmed_witness:
  "\<exists>c. (1, c) \<in> set [(1 :: int, ''AAAAA-22222'')] \<and> (1, to_upper (filter (\<lambda>x. x \<noteq> CHR ''-'') c)) \<in> set code_guess"
  using registration_confirmed [OF run_registered, of registered_agent] by (simp add: agency_at_def agency_defs)

lemma example_rule_active: "sa_agent (rule_row ''sa_1'') = 1" "sa_status (rule_row ''sa_1'') = Active"
  by (simp_all add: agency_defs)

theorem deactivation_is_final_witness:
  "(\<exists>b \<in> set [deactivated_agent]. ag_id b = 1 \<and> ag_status b = AgentDeactivated) \<and>
   sa_agent (rule_row ''sa_1'') = 1 \<and> sa_status (rule_row ''sa_1'') = Active \<and>
   (\<exists>g' \<in> set [rule_revoked]. sa_id g' = sa_id (rule_row ''sa_1'') \<and> sa_status g' = Revoked)"
  using deactivation_is_final [OF run_granted, of 1 "''u''" True "[deactivated_agent]" "[rule_revoked]" deactivated_agent
      "agency_at [deactivated_agent] [rule_revoked] [] code_guess"] run_deactivation
    example_rule_active
  by (simp add: agency_at_def)

theorem verify_code_outcome_witness:
  "VerifyAgentConfirmationCode 0 1 ''AAAAA22222'' [fresh_agent] = ([registered_agent], Some registered_agent, None)"
proof -
  have "stored_code fresh_agent = ''AAAAA22222''" by (simp add: stored_code_def agency_defs) code_simp
  then show ?thesis
    using verify_code_outcome [of "[fresh_agent]" fresh_agent 0 "''AAAAA22222''"]
    by (simp add: can_verify_def agent_unexpired_def datetime_def ns_per_sec_def maxVerificationAttempts_def put_agent_def agency_defs)
qed

end
