(* ===== verification/Invites.thy ===== *)
theory Invites
  imports AgentLifecycle ReplayGuard
begin

text \<open>
  Registration invites: \<^verbatim>\<open>db/registration_invites.go\<close>, the handler that creates them
  (\<^verbatim>\<open>api/registration_invites.go\<close>) and the one that registers an agent with one (\<^verbatim>\<open>handleRegisterAgent\<close> in
  \<^verbatim>\<open>api/registration.go\<close>). The bytes of \<^verbatim>\<open>crypto/rand\<close> (\<open>None\<close> when it fails), the hash of a code, the decoded body
  of a request and Ed25519 are arguments. Both sides of the comparisons on \<^verbatim>\<open>created_at\<close> and \<^verbatim>\<open>expires_at\<close> are
  written by SQLite with three digits of a second, so they compare as instants.
\<close>

section \<open>Rows and statements\<close>

datatype invite_status = InviteActive | InviteConsumed | InviteExpired

record invite =
  ri_id :: string
  ri_user :: string
  ri_hash :: string
  ri_status :: invite_status
  ri_attempts :: int
  ri_expires :: instant
  ri_consumed_at :: "instant option"
  ri_created :: instant

definition CountRecentInvitesByUser :: "instant \<Rightarrow> string \<Rightarrow> int \<Rightarrow> invite list \<Rightarrow> nat" where
  "CountRecentInvitesByUser now u window_seconds rows =
     length (filter (\<lambda>r. ri_user r = u \<and> sql_now now - window_seconds * ns_per_sec < ri_created r) rows)"

definition new_invite :: "instant \<Rightarrow> string \<Rightarrow> string \<Rightarrow> string \<Rightarrow> int \<Rightarrow> invite" where
  "new_invite now i u h ttl =
     \<lparr>ri_id = i, ri_user = u, ri_hash = h, ri_status = InviteActive, ri_attempts = 0,
      ri_expires = sql_now now + ttl * ns_per_sec, ri_consumed_at = None, ri_created = sql_now now\<rparr>"

text \<open>The error of an insert: a duplicate id or hash, or anything else.\<close>

datatype invite_error = UniqueViolation | InviteDbFailure

definition CreateRegistrationInvite ::
  "instant \<Rightarrow> string \<Rightarrow> string \<Rightarrow> string \<Rightarrow> int \<Rightarrow> bool \<Rightarrow> invite list \<Rightarrow> invite list \<times> (invite_error + invite)" where
  "CreateRegistrationInvite now i u h ttl io_ok rows =
     (if \<not> io_ok \<or> 255 < length i \<or> 128 < length h then (rows, Inl InviteDbFailure)
      else if i \<in> ri_id ` set rows \<or> h \<in> ri_hash ` set rows then (rows, Inl UniqueViolation)
      else (let r = new_invite now i u h ttl in (r # rows, Inr r)))"

text \<open>The count and the insert are one transaction; \<open>Inr None\<close> is the result nil.\<close>

definition CreateRegistrationInviteIfUnderLimit ::
  "instant \<Rightarrow> string \<Rightarrow> string \<Rightarrow> string \<Rightarrow> int \<Rightarrow> int \<Rightarrow> nat \<Rightarrow> bool \<Rightarrow> invite list \<Rightarrow> invite list \<times> (invite_error + invite option)" where
  "CreateRegistrationInviteIfUnderLimit now i u h ttl window limit io_ok rows =
     (if limit \<le> CountRecentInvitesByUser now u window rows then (rows, Inr None)
      else (case CreateRegistrationInvite now i u h ttl io_ok rows of
          (rows', Inl e) \<Rightarrow> (rows', Inl e)
        | (rows', Inr r) \<Rightarrow> (rows', Inr (Some r))))"

definition consumable :: "instant \<Rightarrow> invite \<Rightarrow> bool" where
  "consumable now r \<longleftrightarrow> ri_status r = InviteActive \<and> sql_now now < ri_expires r \<and> ri_attempts r < 5"

definition ConsumeInvite :: "instant \<Rightarrow> string \<Rightarrow> invite list \<Rightarrow> invite list \<times> invite option" where
  "ConsumeInvite now h rows = update_returning (\<lambda>r. ri_hash r = h \<and> consumable now r)
     (\<lambda>r. r\<lparr>ri_status := InviteConsumed, ri_consumed_at := Some (sql_now now)\<rparr>) rows"

definition LookupInviteByCodeHash :: "string \<Rightarrow> invite list \<Rightarrow> invite option" where
  "LookupInviteByCodeHash h rows = find (\<lambda>r. ri_hash r = h) rows"

section \<open>Codes and ids\<close>

definition hashCodeHex :: "(string \<Rightarrow> string \<Rightarrow> string) \<Rightarrow> (string \<Rightarrow> string) \<Rightarrow> string \<Rightarrow> string \<Rightarrow> string" where
  "hashCodeHex hmac sha256 hmac_key code = hex_encode (if hmac_key \<noteq> [] then hmac hmac_key code else sha256 code)"

definition generatePrefixedID :: "string \<Rightarrow> char list \<Rightarrow> string" where
  "generatePrefixedID pre random = pre @ hex_encode random"

section \<open>Creating an invite\<close>

definition defaultInviteTTL :: int where "defaultInviteTTL = 15 * 60"
definition inviteRateLimit :: nat where "inviteRateLimit = 10"
definition inviteRateWindow :: int where "inviteRateWindow = 3600"

datatype create_outcome =
    CreateInternal | CreateBadRequest | CreateRateLimited | CreateExhausted | CreatedInvite string invite

text \<open>One attempt of the retry loop draws a code and an id; \<open>None\<close> is a failing generator. The outcome \<open>None\<close> tries again.\<close>

type_synonym draw = "(char list \<times> char list) option"

definition create_attempt ::
  "instant \<Rightarrow> bool \<Rightarrow> (string \<Rightarrow> string) \<Rightarrow> string \<Rightarrow> int \<Rightarrow> bool \<Rightarrow> draw \<Rightarrow> invite list \<Rightarrow> invite list \<times> create_outcome option" where
  "create_attempt now dev code_hash u ttl io_ok draw rows =
     (case draw of
        None \<Rightarrow> (rows, Some CreateInternal)
      | Some (code_bytes, id_bytes) \<Rightarrow>
          (let code = generateInviteCode code_bytes; i = generatePrefixedID ''ri_'' id_bytes; h = code_hash code;
               (rows', res) = (if dev then (case CreateRegistrationInvite now i u h ttl io_ok rows of
                     (rs, Inl e) \<Rightarrow> (rs, Inl e) | (rs, Inr r) \<Rightarrow> (rs, Inr (Some r)))
                   else CreateRegistrationInviteIfUnderLimit now i u h ttl inviteRateWindow inviteRateLimit io_ok rows)
           in (case res of
                 Inl UniqueViolation \<Rightarrow> (rows', None)
               | Inl InviteDbFailure \<Rightarrow> (rows', Some CreateInternal)
               | Inr None \<Rightarrow> (rows', Some CreateRateLimited)
               | Inr (Some r) \<Rightarrow> (rows', Some (CreatedInvite code r)))))"

fun create_attempts ::
  "nat \<Rightarrow> instant \<Rightarrow> bool \<Rightarrow> (string \<Rightarrow> string) \<Rightarrow> string \<Rightarrow> int \<Rightarrow> bool \<Rightarrow> (nat \<Rightarrow> draw) \<Rightarrow> invite list \<Rightarrow> invite list \<times> create_outcome" where
  "create_attempts 0 now dev code_hash u ttl io_ok draws rows = (rows, CreateExhausted)"
| "create_attempts (Suc n) now dev code_hash u ttl io_ok draws rows =
     (case create_attempt now dev code_hash u ttl io_ok (draws n) rows of
        (rows', Some out) \<Rightarrow> (rows', out)
      | (rows', None) \<Rightarrow> create_attempts n now dev code_hash u ttl io_ok draws rows')"

text \<open>\<open>expires_in\<close> is the decoded body (\<open>None\<close> when it does not decode): an optional TTL, which the validator bounds. The early check reads
  the table at \<open>earlier\<close>, the loop runs on the table at \<open>rows\<close>.\<close>

definition handleCreateRegistrationInvite ::
  "instant \<Rightarrow> instant \<Rightarrow> bool \<Rightarrow> (string \<Rightarrow> string) \<Rightarrow> string \<Rightarrow> int option option \<Rightarrow> bool \<Rightarrow> (nat \<Rightarrow> draw) \<Rightarrow> invite list \<Rightarrow> invite list
    \<Rightarrow> invite list \<times> create_outcome" where
  "handleCreateRegistrationInvite t0 now dev code_hash u expires_in io_ok draws earlier rows =
     (if \<not> dev \<and> inviteRateLimit \<le> CountRecentInvitesByUser t0 u inviteRateWindow earlier then (rows, CreateRateLimited)
      else (case expires_in of
          None \<Rightarrow> (rows, CreateBadRequest)
        | Some e \<Rightarrow>
            if (case e of None \<Rightarrow> False | Some s \<Rightarrow> s < 60 \<or> 86400 < s) then (rows, CreateBadRequest)
            else create_attempts 3 now dev code_hash u (case e of None \<Rightarrow> defaultInviteTTL | Some s \<Rightarrow> s) io_ok draws rows))"

section \<open>Registering with an invite\<close>

definition defaultRegistrationTTL :: int where "defaultRegistrationTTL = 5 * 60"

record register_body =
  rb_request_id :: string
  rb_public_key :: string
  rb_metadata :: raw

datatype register_outcome =
    RegUnavailable | RegBadRequest string | RegUnauthorized | RegInternal | RegNotFound | RegConsumed | RegLocked int | RegExpired
  | RegPending agent

text \<open>The transaction: consume the invite, insert the agent, write the audit event (\<open>audit_ok\<close>); a failure rolls all of it back.\<close>

definition register_transaction ::
  "instant \<Rightarrow> string \<Rightarrow> string \<Rightarrow> string \<Rightarrow> raw \<Rightarrow> bool \<Rightarrow> bool \<Rightarrow> invite list \<times> agent list
    \<Rightarrow> (invite list \<times> agent list) \<times> register_outcome" where
  "register_transaction now h key code metadata io_ok audit_ok st =
     (case st of (invites, rows) \<Rightarrow>
        (case ConsumeInvite now h invites of
           (_, None) \<Rightarrow> (st, (case LookupInviteByCodeHash h invites of
               None \<Rightarrow> RegNotFound
             | Some r \<Rightarrow> if ri_status r = InviteConsumed then RegConsumed
                 else if 5 \<le> ri_attempts r then RegLocked (ri_attempts r) else RegExpired))
         | (invites', Some r) \<Rightarrow>
             (case InsertPendingAgent now (ri_user r) key code defaultRegistrationTTL metadata io_ok rows of
                (_, None) \<Rightarrow> (st, RegInternal)
              | (rows', Some a) \<Rightarrow> if audit_ok then ((invites', rows'), RegPending a) else (st, RegInternal))))"

record register_env =
  re_sha :: "string \<Rightarrow> string"
  re_verify :: "string \<Rightarrow> string \<Rightarrow> string \<Rightarrow> bool"
  re_hash :: "string \<Rightarrow> string"
  re_random :: "char list option"
  re_io_ok :: bool
  re_audit_ok :: bool
  re_sig_error :: bool

text \<open>\<open>now\<close> is the clock; the signature check reads it in seconds. \<open>invite_code\<close> is the path value, \<open>tbl\<close> the table of used signatures.\<close>

definition handleRegisterAgent ::
  "register_env \<Rightarrow> instant \<Rightarrow> request \<Rightarrow> string \<Rightarrow> register_body option \<Rightarrow> string \<Rightarrow> consumed \<times> invite list \<times> agent list
    \<Rightarrow> (consumed \<times> invite list \<times> agent list) \<times> register_outcome" where
  "handleRegisterAgent env now r body decoded invite_code st =
     (case st of (tbl, tables) \<Rightarrow>
        (case decoded of
           None \<Rightarrow> (st, RegBadRequest ''Malformed or invalid JSON'')
         | Some req \<Rightarrow>
             if rb_request_id req = [] \<or> rb_public_key req = [] then (st, RegBadRequest ''required'')
             else (case parse_ed25519_public_key (rb_public_key req) of
                 Inl e \<Rightarrow> (st, RegBadRequest ''Invalid Ed25519 public key'')
               | Inr pub \<Rightarrow>
                   (case verify_registration_signature (re_sha env) (re_verify env) (datetime now) (rb_public_key req) r body of
                      Inl f \<Rightarrow> (st, RegUnauthorized)
                    | Inr sig \<Rightarrow>
                        (case consume_signature_or_reject (re_sha env) (Some tbl) (re_sig_error env) sig of
                           (_, InternalFailure) \<Rightarrow> (st, RegInternal)
                         | (_, AlreadyUsed) \<Rightarrow> (st, RegUnauthorized)
                         | (tbl', Proceed) \<Rightarrow>
                             (let used = the tbl'; st' = (used, tables)
                              in if invite_code = [] then (st', RegBadRequest ''invite_code is required'')
                                 else (case re_random env of
                                     None \<Rightarrow> (st', RegInternal)
                                   | Some bytes \<Rightarrow>
                                       if rb_metadata req \<noteq> Empty \<and> unmarshal json_map (rb_metadata req) = None
                                       then (st', RegBadRequest ''metadata must be a JSON object'')
                                       else (case register_transaction now (re_hash env invite_code) (rb_public_key req)
                                               (generateConfirmationCodePlaintext bytes) (rb_metadata req) (re_io_ok env) (re_audit_ok env) tables of
                                           (tables', out) \<Rightarrow> ((used, tables'), out)))))))))"

section \<open>Statements on invites\<close>

text \<open>Newest first: among the invites from any one on back, at most \<open>n\<close> of its user fall into the window that ends with it.\<close>

fun paced :: "int \<Rightarrow> nat \<Rightarrow> invite list \<Rightarrow> bool" where
  "paced w n [] = True"
| "paced w n (x # xs) = (length (filter (\<lambda>r. ri_user r = ri_user x \<and> ri_created x - w < ri_created r) (x # xs)) \<le> n \<and> paced w n xs)"

lemma filter_count_mono: "(\<And>x. x \<in> set xs \<Longrightarrow> P x \<Longrightarrow> Q x) \<Longrightarrow> length (filter P xs) \<le> length (filter Q xs)"
  by (induction xs) auto

lemma paced_window:
  "paced w n rows \<Longrightarrow> length (filter (\<lambda>r. ri_user r = u \<and> t < ri_created r \<and> ri_created r \<le> t + w) rows) \<le> n"
proof (induction rows)
  case (Cons x xs)
  show ?case
  proof (cases "ri_user x = u \<and> t < ri_created x \<and> ri_created x \<le> t + w")
    case True
    have "length (filter (\<lambda>r. ri_user r = u \<and> t < ri_created r \<and> ri_created r \<le> t + w) (x # xs)) \<le>
        length (filter (\<lambda>r. ri_user r = ri_user x \<and> ri_created x - w < ri_created r) (x # xs))"
      using True by (intro filter_count_mono) auto
    also have "\<dots> \<le> n" using Cons.prems by simp
    finally show ?thesis .
  qed (use Cons in auto)
qed simp

lemma paced_map:
  "map (\<lambda>r. (ri_user r, ri_created r)) rows' = map (\<lambda>r. (ri_user r, ri_created r)) rows \<Longrightarrow> paced w n rows' = paced w n rows"
proof (induction rows arbitrary: rows')
  case (Cons x xs)
  then obtain y ys where rows': "rows' = y # ys" "ri_user y = ri_user x" "ri_created y = ri_created x"
      "map (\<lambda>r. (ri_user r, ri_created r)) ys = map (\<lambda>r. (ri_user r, ri_created r)) xs"
    by (cases rows') auto
  have "length (filter (\<lambda>r. ri_user r = u \<and> c < ri_created r) ys) = length (filter (\<lambda>r. ri_user r = u \<and> c < ri_created r) xs)" for u c
  proof -
    have count: "length (filter (\<lambda>r. ri_user r = u \<and> c < ri_created r) zs) =
        length (filter (\<lambda>p. fst p = u \<and> c < snd p) (map (\<lambda>r. (ri_user r, ri_created r)) zs))" for zs :: "invite list"
      by (induction zs) simp_all
    show ?thesis by (simp only: count rows'(4))
  qed
  then show ?case using Cons.IH [OF rows'(4)] rows' by simp
qed simp

text \<open>A table of invites in order.\<close>

definition invites_ok :: "invite list \<Rightarrow> bool" where
  "invites_ok rows \<longleftrightarrow> distinct (map ri_hash rows) \<and> paced (inviteRateWindow * ns_per_sec) inviteRateLimit rows"

lemma create_invite_cases:
  assumes "CreateRegistrationInvite now i u h ttl io_ok rows = (rows', res)"
  obtains "rows' = rows" "\<forall>r. res \<noteq> Inr r" | "rows' = new_invite now i u h ttl # rows" "h \<notin> ri_hash ` set rows"
  using assms by (auto simp: CreateRegistrationInvite_def Let_def split: if_splits)

lemma under_limit_ok:
  assumes "CreateRegistrationInviteIfUnderLimit now i u h ttl inviteRateWindow inviteRateLimit io_ok rows = (rows', res)" "invites_ok rows"
  shows "invites_ok rows' \<and> (rows' = rows \<or> (\<exists>r. rows' = r # rows \<and> ri_status r = InviteActive))"
proof (cases "inviteRateLimit \<le> CountRecentInvitesByUser now u inviteRateWindow rows")
  case True
  then show ?thesis using assms by (simp add: CreateRegistrationInviteIfUnderLimit_def)
next
  case False
  let ?r = "new_invite now i u h ttl"
  obtain res' where c: "CreateRegistrationInvite now i u h ttl io_ok rows = (rows', res')"
    using assms(1) False by (auto simp: CreateRegistrationInviteIfUnderLimit_def split: prod.splits sum.splits)
  then show ?thesis
  proof (rule create_invite_cases)
    assume new: "rows' = ?r # rows" "h \<notin> ri_hash ` set rows"
    have "length (filter (\<lambda>r. ri_user r = ri_user ?r \<and> ri_created ?r - inviteRateWindow * ns_per_sec < ri_created r) (?r # rows)) \<le> inviteRateLimit"
      using False by (simp add: CountRecentInvitesByUser_def new_invite_def inviteRateWindow_def ns_per_sec_def)
    then have "invites_ok rows'" using assms(2) new by (simp add: invites_ok_def new_invite_def)
    then show ?thesis using new by (simp add: new_invite_def)
  qed (use assms(2) in simp)
qed

lemma attempt_ok:
  assumes "create_attempt now False code_hash u ttl io_ok draw rows = (rows', out)" "invites_ok rows"
  shows "invites_ok rows' \<and> (rows' = rows \<or> (\<exists>r. rows' = r # rows \<and> ri_status r = InviteActive))"
proof (cases draw)
  case (Some d)
  obtain cb ib where d: "d = (cb, ib)" by (cases d)
  obtain rs res where "CreateRegistrationInviteIfUnderLimit now (generatePrefixedID ''ri_'' ib) u (code_hash (generateInviteCode cb)) ttl
      inviteRateWindow inviteRateLimit io_ok rows = (rs, res)" by (metis surj_pair)
  moreover from this have "rows' = rs"
    using assms(1) by (simp add: create_attempt_def Some d Let_def split: sum.splits invite_error.splits option.splits)
  ultimately show ?thesis using under_limit_ok assms(2) by blast
qed (use assms in \<open>simp add: create_attempt_def\<close>)

text \<open>What creating does to the table: at most a row in front.\<close>

definition grown :: "invite list \<Rightarrow> invite list \<Rightarrow> bool" where
  "grown rows rows' \<longleftrightarrow> (\<exists>new. rows' = new @ rows)"

lemma attempts_ok:
  "create_attempts n now False code_hash u ttl io_ok draws rows = (rows', out) \<Longrightarrow> invites_ok rows \<Longrightarrow> invites_ok rows' \<and> grown rows rows'"
proof (induction n arbitrary: rows)
  case (Suc n)
  obtain rs o1 where a: "create_attempt now False code_hash u ttl io_ok (draws n) rows = (rs, o1)" by (metis surj_pair)
  from attempt_ok [OF a Suc.prems(2)] have ok: "invites_ok rs" "grown rows rs" by (auto simp: grown_def)
  show ?case
  proof (cases o1)
    case None
    then have "create_attempts n now False code_hash u ttl io_ok draws rs = (rows', out)" using Suc.prems(1) a by simp
    from Suc.IH [OF this ok(1)] ok(2) show ?thesis by (auto simp: grown_def)
  next
    case (Some x)
    then show ?thesis using Suc.prems(1) a ok by simp
  qed
qed (simp add: grown_def)

lemma create_handler_ok:
  assumes "handleCreateRegistrationInvite t0 now False code_hash u e io_ok draws earlier rows = (rows', out)" "invites_ok rows"
  shows "invites_ok rows' \<and> grown rows rows'"
  using assms attempts_ok
  by (auto simp: handleCreateRegistrationInvite_def grown_def split: if_splits option.splits)

lemma consume_ok:
  assumes "ConsumeInvite now h rows = (rows', res)" "invites_ok rows"
  shows "invites_ok rows' \<and> rows' = update_where (\<lambda>r. ri_hash r = h \<and> consumable now r)
     (\<lambda>r. r\<lparr>ri_status := InviteConsumed, ri_consumed_at := Some (sql_now now)\<rparr>) rows"
proof -
  let ?p = "\<lambda>r. ri_hash r = h \<and> consumable now r" and ?f = "\<lambda>r. r\<lparr>ri_status := InviteConsumed, ri_consumed_at := Some (sql_now now)\<rparr>"
  have rows: "rows' = update_where ?p ?f rows" using assms(1) by (simp add: ConsumeInvite_def update_returning_def)
  have "map ri_hash rows' = map ri_hash rows" unfolding rows by (rule map_update_where) simp
  moreover have "paced w n rows' = paced w n rows" for w n
    unfolding rows by (rule paced_map, rule map_update_where) simp
  ultimately have "invites_ok rows'" using assms(2) by (simp only: invites_ok_def)
  with rows show ?thesis by (rule conjI [rotated])
qed

lemma transaction_cases:
  assumes "register_transaction now h key code m io_ok audit_ok (invites, rows) = ((invites', rows'), out)"
  obtains "invites' = invites" "rows' = rows" "\<forall>a. out \<noteq> RegPending a" |
    r a where "ConsumeInvite now h invites = (invites', Some r)" "InsertPendingAgent now (ri_user r) key code defaultRegistrationTTL m io_ok rows = (rows', Some a)"
      "out = RegPending a"
  using assms
  by (auto simp: register_transaction_def split: prod.splits option.splits if_splits)

section \<open>Runs\<close>

text \<open>\<open>made\<close> pairs the hash of the code used with the agent it made. The server does not run in development mode.\<close>

record desk =
  hour :: instant
  invites :: "invite list"
  recruits :: "agent list"
  made :: "(string \<times> agent) list"

definition desk_start :: "desk \<Rightarrow> bool" where
  "desk_start s \<longleftrightarrow> invites s = [] \<and> recruits s = [] \<and> made s = []"

definition note_made :: "register_outcome \<Rightarrow> string \<Rightarrow> (string \<times> agent) list \<Rightarrow> (string \<times> agent) list" where
  "note_made out h ms = (case out of RegPending a \<Rightarrow> (h, a) # ms | _ \<Rightarrow> ms)"

inductive desk_step :: "desk \<Rightarrow> desk \<Rightarrow> bool" where
  create: "handleCreateRegistrationInvite t0 (hour s) False code_hash u e io_ok draws earlier (invites s) = (rows', out) \<Longrightarrow>
     desk_step s (s\<lparr>invites := rows'\<rparr>)"
| register: "register_transaction (hour s) h key code m io_ok audit_ok (invites s, recruits s) = ((rows', agents'), out) \<Longrightarrow>
     desk_step s (s\<lparr>invites := rows', recruits := agents', made := note_made out h (made s)\<rparr>)"
| tick: "0 \<le> d \<Longrightarrow> desk_step s (s\<lparr>hour := hour s + d\<rparr>)"

definition used_by :: "invite list \<Rightarrow> string \<Rightarrow> agent \<Rightarrow> bool" where
  "used_by rows h a \<longleftrightarrow> (\<exists>r \<in> set rows. ri_hash r = h \<and> ri_status r = InviteConsumed \<and> ri_user r = ag_approver a)"

definition desk_inv :: "desk \<Rightarrow> bool" where
  "desk_inv s \<longleftrightarrow> invites_ok (invites s) \<and> distinct (map fst (made s)) \<and> list_all (\<lambda>m. used_by (invites s) (fst m) (snd m)) (made s)"

lemma used_by_grown: "used_by rows h a \<Longrightarrow> grown rows rows' \<Longrightarrow> used_by rows' h a"
  unfolding used_by_def grown_def by (metis Un_iff set_append)

lemma used_by_consumed:
  assumes "used_by rows h a"
  shows "used_by (update_where (\<lambda>r. ri_hash r = k \<and> consumable now r)
     (\<lambda>r. r\<lparr>ri_status := InviteConsumed, ri_consumed_at := Some (sql_now now)\<rparr>) rows) h a"
proof -
  obtain r where r: "r \<in> set rows" "ri_hash r = h" "ri_status r = InviteConsumed" "ri_user r = ag_approver a"
    using assms by (auto simp: used_by_def)
  have "r \<in> set (update_where (\<lambda>r. ri_hash r = k \<and> consumable now r)
      (\<lambda>r. r\<lparr>ri_status := InviteConsumed, ri_consumed_at := Some (sql_now now)\<rparr>) rows)"
    unfolding set_update_where by (rule bexI [of _ r]) (use r in \<open>simp_all add: consumable_def\<close>)
  with r show ?thesis unfolding used_by_def by blast
qed

lemma consumed_invite:
  assumes "ConsumeInvite now h rows = (rows', Some r)"
  shows "\<exists>r0 \<in> set rows. ri_hash r0 = h \<and> consumable now r0 \<and>
    r = r0\<lparr>ri_status := InviteConsumed, ri_consumed_at := Some (sql_now now)\<rparr> \<and> r \<in> set rows'"
proof -
  let ?p = "\<lambda>r. ri_hash r = h \<and> consumable now r" and ?f = "\<lambda>r. r\<lparr>ri_status := InviteConsumed, ri_consumed_at := Some (sql_now now)\<rparr>"
  obtain r0 where r0: "find ?p rows = Some r0" "r = ?f r0" and rows': "rows' = update_where ?p ?f rows"
    using assms by (auto simp: ConsumeInvite_def update_returning_def)
  from find_SomeD [OF r0(1)] have p: "r0 \<in> set rows" "?p r0" by simp_all
  have "?f r0 \<in> set rows'" unfolding rows' set_update_where by (rule bexI [of _ r0]) (use p in simp_all)
  then show ?thesis using p r0(2) by blast
qed

lemma inserted_agent: "InsertPendingAgent now u key code ttl m io_ok rows = (rows', Some a) \<Longrightarrow>
   rows' = a # rows \<and> a = new_agent now (next_agent_id rows) u key code ttl m"
  by (auto simp: InsertPendingAgent_def Let_def split: if_splits)

lemma step_make:
  assumes inv: "desk_inv s" and c: "ConsumeInvite (hour s) h (invites s) = (rows', Some r)" and a: "ag_approver a = ri_user r"
  shows "desk_inv (s\<lparr>invites := rows', recruits := agents', made := (h, a) # made s\<rparr>)"
proof -
  have ok: "invites_ok (invites s)" using inv by (simp add: desk_inv_def)
  note co = consume_ok [OF c ok]
  obtain r0 where r0: "r0 \<in> set (invites s)" "ri_hash r0 = h" "consumable (hour s) r0"
      "r = r0\<lparr>ri_status := InviteConsumed, ri_consumed_at := Some (sql_now (hour s))\<rparr>" "r \<in> set rows'"
    using consumed_invite [OF c] by blast
  have "h \<notin> fst ` set (made s)"
  proof
    assume "h \<in> fst ` set (made s)"
    then obtain b where "(h, b) \<in> set (made s)" by auto
    then have "used_by (invites s) h b" using inv by (auto simp: desk_inv_def list_all_iff)
    then obtain r1 where "r1 \<in> set (invites s)" "ri_hash r1 = h" "ri_status r1 = InviteConsumed" by (auto simp: used_by_def)
    moreover from this r0(1,2) have "r1 = r0" using ok key_unique [of ri_hash "invites s" r1 r0] by (simp add: invites_ok_def)
    ultimately show "False" using r0(3) by (simp add: consumable_def)
  qed
  moreover have "used_by rows' h a" using r0 a unfolding used_by_def by (intro bexI [of _ r]) simp_all
  moreover have "list_all (\<lambda>m. used_by rows' (fst m) (snd m)) (made s)"
    using inv co by (simp add: desk_inv_def list_all_iff used_by_consumed)
  moreover have "invites_ok rows'" using co by (rule conjunct1)
  moreover have "distinct (map fst (made s))" using inv by (simp add: desk_inv_def)
  ultimately show ?thesis by (simp add: desk_inv_def)
qed

lemma desk_step_ok: "desk_step s t \<Longrightarrow> desk_inv s \<Longrightarrow> desk_inv t \<and> set (made s) \<subseteq> set (made t)"
proof (induction rule: desk_step.induct)
  case (create t0 s code_hash u e io_ok draws earlier rows' out)
  from create_handler_ok [OF create(1)] create(2) show ?case
    by (auto simp: desk_inv_def list_all_iff intro: used_by_grown)
next
  case (register s h key code m io_ok audit_ok rows' agents' out)
  from register(1) show ?case
  proof (rule transaction_cases)
    assume "rows' = invites s" "agents' = recruits s" "\<forall>a. out \<noteq> RegPending a"
    then show ?case using register(2) by (cases out) (simp_all add: note_made_def desk_inv_def)
  next
    fix r a
    assume c: "ConsumeInvite (hour s) h (invites s) = (rows', Some r)"
      and i: "InsertPendingAgent (hour s) (ri_user r) key code defaultRegistrationTTL m io_ok (recruits s) = (agents', Some a)" and o: "out = RegPending a"
    have "ag_approver a = ri_user r" using inserted_agent [OF i] by (simp add: new_agent_def)
    then show ?case using step_make [OF register(2) c] o by (auto simp: note_made_def)
  qed
qed (simp_all add: desk_inv_def)

interpretation desk: system desk_start desk_step desk_inv "\<lambda>s t. set (made s) \<subseteq> set (made t)"
proof unfold_locales
  show "desk_start s \<Longrightarrow> desk_inv s" for s by (simp add: desk_start_def desk_inv_def invites_ok_def)
  show "desk_inv s \<Longrightarrow> desk_step s t \<Longrightarrow> desk_inv t" for s t by (simp only: desk_step_ok)
  show "desk_inv s \<Longrightarrow> desk_step s t \<Longrightarrow> set (made s) \<subseteq> set (made t)" for s t by (simp only: desk_step_ok)
qed auto

section \<open>What holds in every run\<close>

text \<open>C20: An invite makes one agent. In every reachable state no two agents were made with the same invite code, and each belongs to the
  user who created its invite, which is consumed.\<close>

theorem invite_used_once:
  assumes "reach desk_start desk_step s"
  shows "distinct (map fst (made s)) \<and> (\<forall>(h, a) \<in> set (made s).
    \<exists>r \<in> set (invites s). ri_hash r = h \<and> ri_status r = InviteConsumed \<and> ri_user r = ag_approver a)"
proof -
  have inv: "desk_inv s" by (rule desk.invariant [OF assms])
  moreover have "used_by (invites s) h a" if "(h, a) \<in> set (made s)" for h a
    using inv that by (auto simp: desk_inv_def list_all_iff)
  ultimately show ?thesis unfolding used_by_def by (auto simp: desk_inv_def)
qed

text \<open>C21: Ten invites an hour. Whatever requests interleave, no user has more than ten invites created within any hour.\<close>

theorem invite_rate_bound:
  assumes "reach desk_start desk_step s"
  shows "length (filter (\<lambda>r. ri_user r = u \<and> t < ri_created r \<and> ri_created r \<le> t + 3600 * ns_per_sec) (invites s)) \<le> 10"
  using paced_window [of "3600 * ns_per_sec" 10 "invites s" u t] desk.invariant [OF assms]
  by (simp add: desk_inv_def invites_ok_def inviteRateWindow_def inviteRateLimit_def)


section \<open>A run\<close>

definition example_code :: string where
  "example_code = generateInviteCode ''abcdefgh''"

definition example_invite :: invite where
  "example_invite = new_invite 0 (generatePrefixedID ''ri_'' ''x'') ''u'' example_code 900"

definition example_used :: invite where
  "example_used = example_invite\<lparr>ri_status := InviteConsumed, ri_consumed_at := Some 0\<rparr>"

definition example_confirmation :: string where
  "example_confirmation = generateConfirmationCodePlaintext ''abcdefghij''"

definition example_recruit :: "string \<Rightarrow> agent" where
  "example_recruit key = new_agent 0 1 ''u'' key example_confirmation 300 Empty"

definition desk_at :: "invite list \<Rightarrow> agent list \<Rightarrow> (string \<times> agent) list \<Rightarrow> desk" where
  "desk_at invs rows ms = \<lparr>hour = 0, invites = invs, recruits = rows, made = ms\<rparr>"

lemma example_lengths: "length (generatePrefixedID ''ri_'' ''x'') \<le> 255" "length example_code \<le> 128" "length example_confirmation \<le> 11"
  by code_simp+

lemma example_created:
  "handleCreateRegistrationInvite 0 0 False (\<lambda>c. c) ''u'' (Some None) True (\<lambda>_. Some (''abcdefgh'', ''x'')) [] [] =
   ([example_invite], CreatedInvite example_code example_invite)"
  using example_lengths
  by (simp add: handleCreateRegistrationInvite_def CountRecentInvitesByUser_def inviteRateLimit_def numeral_3_eq_3 create_attempt_def
      CreateRegistrationInviteIfUnderLimit_def CreateRegistrationInvite_def Let_def example_invite_def defaultInviteTTL_def example_code_def)

lemma example_consumed: "ConsumeInvite 0 example_code [example_invite] = ([example_used], Some example_used)"
  by (simp add: ConsumeInvite_def update_returning_def update_where_def example_used_def example_invite_def new_invite_def consumable_def
      sql_now_def ns_per_sec_def)

lemma example_transaction:
  assumes "length key \<le> 1024"
  shows "register_transaction 0 example_code key example_confirmation Empty True True ([example_invite], []) =
    (([example_used], [example_recruit key]), RegPending (example_recruit key))"
proof -
  have "InsertPendingAgent 0 ''u'' key example_confirmation 300 Empty True [] = ([example_recruit key], Some (example_recruit key))"
    using assms example_lengths(3)
    by (simp add: InsertPendingAgent_def Let_def next_agent_id_def example_recruit_def agent_checks_def new_agent_def)
  with example_consumed show ?thesis
    by (simp add: register_transaction_def defaultRegistrationTTL_def example_used_def example_invite_def new_invite_def)
qed

lemma desk_invited: "reach desk_start desk_step (desk_at [example_invite] [] [])"
proof -
  have "reach desk_start desk_step (desk_at [] [] [])" by (rule reach_start) (simp add: desk_start_def desk_at_def)
  moreover have "desk_step (desk_at [] [] []) (desk_at [example_invite] [] [])"
    using desk_step.create [of 0 "desk_at [] [] []" "\<lambda>c. c" "''u''" "Some None" True "\<lambda>_. Some (''abcdefgh'', ''x'')" "[]"] example_created
    by (simp add: desk_at_def)
  ultimately show ?thesis by (rule reach_step)
qed

lemma desk_recruited: "reach desk_start desk_step (desk_at [example_used] [example_recruit ''k''] [(example_code, example_recruit ''k'')])"
proof -
  let ?s = "desk_at [example_invite] [] []"
  have "desk_step ?s (desk_at [example_used] [example_recruit ''k''] [(example_code, example_recruit ''k'')])"
    using desk_step.register [of ?s example_code "''k''" example_confirmation Empty True True] example_transaction [of "''k''"]
    by (simp add: desk_at_def note_made_def)
  then show ?thesis by (rule reach_step [OF desk_invited])
qed

theorem invite_used_once_witness:
  "distinct (map fst [(example_code, example_recruit ''k'')]) \<and>
   (\<exists>r \<in> set [example_used]. ri_hash r = example_code \<and> ri_status r = InviteConsumed \<and> ri_user r = ag_approver (example_recruit ''k''))"
  using invite_used_once [OF desk_recruited] by (simp add: desk_at_def)

theorem invite_rate_bound_witness:
  "length (filter (\<lambda>r. ri_user r = ''u'' \<and> - 1 < ri_created r \<and> ri_created r \<le> - 1 + 3600 * ns_per_sec) [example_used]) \<le> 10"
  using invite_rate_bound [OF desk_recruited, of "''u''" "- 1"] by (simp add: desk_at_def)

text \<open>A signed registration, at the epoch.\<close>

definition example_key :: string where
  "example_key = format_ed25519_openssh (replicate 32 CHR ''k'')"

definition example_env :: register_env where
  "example_env = \<lparr>re_sha = \<lambda>b. b, re_verify = \<lambda>pub m s. s = pub @ m, re_hash = \<lambda>c. c, re_random = Some ''abcdefghij'',
     re_io_ok = True, re_audit_ok = True, re_sig_error = False\<rparr>"

definition example_signed :: request where
  "example_signed = sign_request_at (\<lambda>b. b) (\<lambda>priv m. priv @ m) (replicate 32 CHR ''k'') 7
     \<lparr>Method = ''POST'', Path = ''/invite/x'', RawQuery = [], SigHeader = []\<rparr> ''{}'' 0"

definition example_parsed :: parsed_signature where
  "example_parsed = \<lparr>AgentID = 7, Algorithm = ''Ed25519'', Timestamp = 0,
     SigBytes = replicate 32 CHR ''k'' @ build_canonical_request ''POST'' ''/invite/x'' [] 0 (hash_body (\<lambda>b. b) ''{}'')\<rparr>"

lemma registration_is_agent_check: "verify_registration_signature = verify_agent_signature"
  by (intro ext) (simp add: verify_registration_signature_def verify_agent_signature_def)

lemma example_registration_signed: "verify_registration_signature (\<lambda>b. b) (\<lambda>pub m s. s = pub @ m) 0 example_key example_signed ''{}'' = Inr example_parsed"
  unfolding registration_is_agent_check example_key_def example_signed_def example_parsed_def
  using signed_verifies [of "replicate 32 CHR ''k''" "\<lambda>pub m s. s = pub @ m" "\<lambda>priv m. priv @ m" "replicate 32 CHR ''k''" 7 0 0
      "\<lambda>b. b" "\<lparr>Method = ''POST'', Path = ''/invite/x'', RawQuery = [], SigHeader = []\<rparr>" "''{}''"]
  by (simp add: int64_range_def)

lemma sextets_short: "length (sextets bs) \<le> 2 * length bs"
  by (induction bs rule: sextets.induct) auto

lemma length_std_b64: "length (std_b64_encode bs) \<le> 2 * length bs + 3"
  using sextets_short [of "map of_char bs"] mod_less_divisor [of 4 "4 - length (sextets (map of_char bs :: nat list)) mod 4"]
  unfolding std_b64_encode_def Let_def length_append length_replicate length_map by linarith

lemma example_key_ok: "parse_ed25519_public_key example_key = Inr (replicate 32 CHR ''k'')" "example_key \<noteq> []" "length example_key \<le> 1024"
proof -
  show "parse_ed25519_public_key example_key = Inr (replicate 32 CHR ''k'')"
    unfolding example_key_def by (rule public_key_roundtrip) simp
  show "example_key \<noteq> []" by (simp add: example_key_def format_ed25519_openssh_def)
  show "length example_key \<le> 1024"
    using length_std_b64 [of "be32_bytes 11 @ ''ssh-ed25519'' @ be32_bytes 32 @ replicate 32 CHR ''k''"]
    by (simp add: example_key_def format_ed25519_openssh_def be32_bytes_def)
qed

lemma example_registered:
  "handleRegisterAgent example_env 0 example_signed ''{}'' (Some \<lparr>rb_request_id = ''r'', rb_public_key = example_key, rb_metadata = Empty\<rparr>) example_code
     ([], [example_invite], []) =
   (([(SigBytes example_parsed, replay_expiry example_parsed)], [example_used], [example_recruit example_key]), RegPending (example_recruit example_key))"
proof -
  have "datetime 0 = 0" "example_code \<noteq> []" by (simp add: datetime_def) code_simp
  then show ?thesis
    using example_registration_signed example_key_ok example_transaction [OF example_key_ok(3)]
    by (simp add: handleRegisterAgent_def example_env_def consume_signature_or_reject_def consume_signature_def example_confirmation_def)
qed


end
