(* ===== verification/AgentAuth.thy ===== *)
theory AgentAuth
  imports Invites RateLimiter
begin

text \<open>
  Who an agent is: the middleware \<^verbatim>\<open>RequireAgentSignature\<close> (\<^verbatim>\<open>api/agent_auth.go\<close>), the check
  \<^verbatim>\<open>requireAgentSignature\<close> and the agent handlers of the dashboard (\<^verbatim>\<open>api/agents.go\<close>), the rate limits around them
  (\<^verbatim>\<open>api/rate_limit_middleware.go\<close>, \<^verbatim>\<open>api/verify_rate_limit.go\<close>) and \<^verbatim>\<open>handleVerifyRegistration\<close>
  (\<^verbatim>\<open>api/registration.go\<close>). They join the signatures, the replay guard, the rate limiter and the agents. Ed25519,
  SHA-256, the decoded body and failing database calls are arguments.
\<close>

section \<open>Rate limits\<close>

definition checkAgentRateLimit :: "bool \<Rightarrow> instant \<Rightarrow> int \<Rightarrow> rate_limiter option \<Rightarrow> bool \<times> rate_limiter option" where
  "checkAgentRateLimit dev now ag limiter =
     (case limiter of
        None \<Rightarrow> (True, None)
      | Some rl \<Rightarrow> if dev then (True, limiter)
          else (case AllowKey rl now (''agent:'' @ int_str ag) of (ok, _, rl') \<Rightarrow> (ok, Some rl')))"

definition checkVerifyAttemptRateLimit :: "bool \<Rightarrow> instant \<Rightarrow> string \<Rightarrow> rate_limiter option \<Rightarrow> bool \<times> rate_limiter option" where
  "checkVerifyAttemptRateLimit dev now ip limiter =
     (case limiter of
        None \<Rightarrow> (True, None)
      | Some rl \<Rightarrow> if dev \<or> ip = [] then (True, limiter)
          else (case AllowKey rl now (''ip:'' @ ip) of (ok, _, rl') \<Rightarrow> (ok, Some rl')))"

section \<open>Signatures of agents\<close>

datatype auth_failure =
    AuthUnavailable | AuthInternal | AuthAgentNotFound | AuthMissingHeader | AuthInvalid | AuthTimestampExpired | AuthIdMismatch int
  | AuthNotRegistered agent_status | AuthRateLimited | AuthReplayed

record auth_env =
  ae_sha :: "string \<Rightarrow> string"
  ae_verify :: "string \<Rightarrow> string \<Rightarrow> string \<Rightarrow> bool"
  ae_dev :: bool
  ae_lookup_ok :: bool
  ae_consume_error :: bool

definition sig_failure_response :: "sig_failure \<Rightarrow> auth_failure" where
  "sig_failure_response f = (if f = BadSignature TimestampExpired then AuthTimestampExpired else AuthInvalid)"

text \<open>The state is the per-agent limiter and the table of used signatures.\<close>

definition requireAgentSignature ::
  "auth_env \<Rightarrow> instant \<Rightarrow> int \<Rightarrow> request \<Rightarrow> string \<Rightarrow> agent list \<Rightarrow> rate_limiter option \<times> consumed
    \<Rightarrow> (rate_limiter option \<times> consumed) \<times> (auth_failure + agent \<times> parsed_signature)" where
  "requireAgentSignature env now ag r body rows st =
     (if \<not> ae_lookup_ok env then (st, Inl AuthInternal)
      else (case GetAgentByIDUnscoped ag rows of
          None \<Rightarrow> (st, Inl AuthAgentNotFound)
        | Some a \<Rightarrow> (case verify_agent_signature (ae_sha env) (ae_verify env) (datetime now) (ag_key a) r body of
            Inl f \<Rightarrow> (st, Inl (sig_failure_response f))
          | Inr sig \<Rightarrow>
              if AgentID sig \<noteq> ag then (st, Inl (AuthIdMismatch (AgentID sig)))
              else (case checkAgentRateLimit (ae_dev env) now (ag_id a) (fst st) of
                  (False, limiter) \<Rightarrow> ((limiter, snd st), Inl AuthRateLimited)
                | (True, limiter) \<Rightarrow>
                    (case consume_signature_or_reject (ae_sha env) (Some (snd st)) (ae_consume_error env) sig of
                       (tbl, Proceed) \<Rightarrow> ((limiter, the tbl), Inr (a, sig))
                     | (tbl, InternalFailure) \<Rightarrow> ((limiter, the tbl), Inl AuthInternal)
                     | (tbl, AlreadyUsed) \<Rightarrow> ((limiter, the tbl), Inl AuthReplayed))))))"

text \<open>The middleware. It has no replay guard: the table of used signatures is not an argument.\<close>

definition RequireAgentSignature ::
  "auth_env \<Rightarrow> instant \<Rightarrow> request \<Rightarrow> string \<Rightarrow> agent list \<Rightarrow> rate_limiter option
    \<Rightarrow> rate_limiter option \<times> (auth_failure + agent \<times> parsed_signature)" where
  "RequireAgentSignature env now r body rows limiter =
     (if SigHeader r = [] then (limiter, Inl AuthMissingHeader)
      else (case parse_signature_header (SigHeader r) of
          Inl e \<Rightarrow> (limiter, Inl AuthInvalid)
        | Inr sig \<Rightarrow>
            if \<not> ae_lookup_ok env then (limiter, Inl AuthInternal)
            else (case GetAgentByIDUnscoped (AgentID sig) rows of
                None \<Rightarrow> (limiter, Inl AuthAgentNotFound)
              | Some a \<Rightarrow> (case parse_ed25519_public_key (ag_key a) of
                  Inl e \<Rightarrow> (limiter, Inl AuthInternal)
                | Inr pub \<Rightarrow>
                    (case verify_ed25519_signature (ae_sha env) (ae_verify env) (datetime now) pub sig r body of
                       Some TimestampExpired \<Rightarrow> (limiter, Inl AuthTimestampExpired)
                     | Some e \<Rightarrow> (limiter, Inl AuthInvalid)
                     | None \<Rightarrow>
                         if ag_status a \<noteq> AgentRegistered then (limiter, Inl (AuthNotRegistered (ag_status a)))
                         else (case checkAgentRateLimit (ae_dev env) now (ag_id a) limiter of
                             (False, limiter') \<Rightarrow> (limiter', Inl AuthRateLimited)
                           | (True, limiter') \<Rightarrow> (limiter', Inr (a, sig))))))))"

section \<open>Verifying a registration\<close>

definition parsePathAgentID :: "string \<Rightarrow> int option" where
  "parsePathAgentID t = (case parse_int t of None \<Rightarrow> None | Some i \<Rightarrow> if i \<le> 0 then None else Some i)"

definition ConfirmationCodeLength :: nat where
  "ConfirmationCodeLength = 10"

record verify_body =
  vb_request_id :: string
  vb_code :: string

datatype verify_outcome =
    VerifyUnavailable | VerifyBadRequest | VerifyRateLimited | VerifyRefused auth_failure
  | VerifyFailed verify_failure "agent option" | VerifyNotFound | VerifyRegistered agent

text \<open>The HTTP status of an outcome.\<close>

definition auth_status :: "auth_failure \<Rightarrow> nat" where
  "auth_status f = (case f of
     AuthUnavailable \<Rightarrow> 503 | AuthInternal \<Rightarrow> 500 | AuthAgentNotFound \<Rightarrow> 404 | AuthMissingHeader \<Rightarrow> 401 | AuthInvalid \<Rightarrow> 401
   | AuthTimestampExpired \<Rightarrow> 401 | AuthIdMismatch _ \<Rightarrow> 400 | AuthNotRegistered _ \<Rightarrow> 403 | AuthRateLimited \<Rightarrow> 429 | AuthReplayed \<Rightarrow> 401)"

definition verify_status :: "verify_outcome \<Rightarrow> nat" where
  "verify_status out = (case out of
     VerifyUnavailable \<Rightarrow> 503 | VerifyBadRequest \<Rightarrow> 400 | VerifyRateLimited \<Rightarrow> 429 | VerifyRefused f \<Rightarrow> auth_status f
   | VerifyFailed AgentNotPending a \<Rightarrow> (case a of Some b \<Rightarrow> if ag_status b = AgentRegistered then 409 else 404 | None \<Rightarrow> 404)
   | VerifyFailed RegistrationExpired _ \<Rightarrow> 410 | VerifyFailed VerificationLocked _ \<Rightarrow> 410 | VerifyFailed InvalidConfirmation _ \<Rightarrow> 401
   | VerifyNotFound \<Rightarrow> 404 | VerifyRegistered _ \<Rightarrow> 200)"

definition attempts_remaining :: "agent \<Rightarrow> int" where
  "attempts_remaining a = (if 5 - ag_attempts a < 0 then 0 else 5 - ag_attempts a)"

record verify_state =
  vs_ip :: "rate_limiter option"
  vs_agent :: "rate_limiter option"
  vs_used :: consumed
  vs_agents :: "agent list"

definition handleVerifyRegistration ::
  "auth_env \<Rightarrow> instant \<Rightarrow> string \<Rightarrow> string \<Rightarrow> request \<Rightarrow> string \<Rightarrow> verify_body option \<Rightarrow> verify_state \<Rightarrow> verify_state \<times> verify_outcome" where
  "handleVerifyRegistration env now ip path_id r body decoded st =
     (case parsePathAgentID path_id of
        None \<Rightarrow> (st, VerifyBadRequest)
      | Some ag \<Rightarrow> (case decoded of
          None \<Rightarrow> (st, VerifyBadRequest)
        | Some req \<Rightarrow>
            if vb_request_id req = [] \<or> vb_code req = [] then (st, VerifyBadRequest)
            else (let code = normalizeConfirmationCode (vb_code req)
              in if length code \<noteq> ConfirmationCodeLength then (st, VerifyBadRequest)
                 else (case checkVerifyAttemptRateLimit (ae_dev env) now ip (vs_ip st) of
                     (False, limiter) \<Rightarrow> (st\<lparr>vs_ip := limiter\<rparr>, VerifyRateLimited)
                   | (True, limiter) \<Rightarrow>
                       (case requireAgentSignature env now ag r body (vs_agents st) (vs_agent st, vs_used st) of
                          ((alim, used), Inl f) \<Rightarrow> (st\<lparr>vs_ip := limiter, vs_agent := alim, vs_used := used\<rparr>, VerifyRefused f)
                        | ((alim, used), Inr _) \<Rightarrow>
                            (case VerifyAgentConfirmationCode now ag code (vs_agents st) of
                               (rows, a, e) \<Rightarrow>
                                 (st\<lparr>vs_ip := limiter, vs_agent := alim, vs_used := used, vs_agents := rows\<rparr>,
                                  (case e of Some f \<Rightarrow> VerifyFailed f a
                                   | None \<Rightarrow> (case a of None \<Rightarrow> VerifyNotFound | Some b \<Rightarrow> VerifyRegistered b)))))))))"

section \<open>The dashboard\<close>

datatype dashboard_outcome = DashBadRequest | DashInternal | DashNotFound | DashConflict agent_status | DashAgent agent

definition handleRegisterAgentDashboard :: "instant \<Rightarrow> string \<Rightarrow> string \<Rightarrow> bool \<Rightarrow> agent list \<Rightarrow> agent list \<times> dashboard_outcome" where
  "handleRegisterAgentDashboard now u path_id io_ok rows =
     (case parsePathAgentID path_id of
        None \<Rightarrow> (rows, DashBadRequest)
      | Some i \<Rightarrow> if \<not> io_ok then (rows, DashInternal)
          else (case RegisterAgent now i u rows of
              (rows', Some a) \<Rightarrow> (rows', DashAgent a)
            | (_, None) \<Rightarrow> (rows, (case GetAgentByID i u rows of None \<Rightarrow> DashNotFound | Some a \<Rightarrow> DashConflict (ag_status a)))))"

definition handleDeactivateAgent ::
  "instant \<Rightarrow> string \<Rightarrow> string \<Rightarrow> bool \<Rightarrow> agent list \<times> standing list \<Rightarrow> (agent list \<times> standing list) \<times> dashboard_outcome" where
  "handleDeactivateAgent now u path_id io_ok st =
     (case parsePathAgentID path_id of
        None \<Rightarrow> (st, DashBadRequest)
      | Some i \<Rightarrow> (case DeactivateAgent now i u io_ok st of
          (st', Inl e) \<Rightarrow> (st', DashInternal)
        | (st', Inr None) \<Rightarrow> (st', DashNotFound)
        | (st', Inr (Some a)) \<Rightarrow> (st', DashAgent a)))"

definition ValidateJSONObject :: "raw \<Rightarrow> bool" where
  "ValidateJSONObject r = (case r of Empty \<Rightarrow> True | Doc JNull \<Rightarrow> True | Doc (JObj _) \<Rightarrow> True | _ \<Rightarrow> False)"

text \<open>\<open>patch\<close> is the \<^verbatim>\<open>metadata\<close> of the body (\<open>None\<close> when the body does not decode); the validator requires it to be present, a null included.\<close>

definition handleUpdateAgent ::
  "order \<Rightarrow> string \<Rightarrow> string \<Rightarrow> raw option \<Rightarrow> bool \<Rightarrow> agent list \<Rightarrow> agent list \<times> (string + dashboard_outcome)" where
  "handleUpdateAgent ord u path_id patch io_ok rows =
     (case parsePathAgentID path_id of
        None \<Rightarrow> (rows, Inr DashBadRequest)
      | Some i \<Rightarrow> (case patch of
          None \<Rightarrow> (rows, Inr DashBadRequest)
        | Some p \<Rightarrow> if p = Empty \<or> \<not> ValidateJSONObject p then (rows, Inr DashBadRequest)
            else (case UpdateAgentMetadata ord i u p io_ok rows rows of
                (rows', Inl (GoPanic t)) \<Rightarrow> (rows', Inl t)
              | (rows', Inl e) \<Rightarrow> (rows', Inr DashInternal)
              | (rows', Inr None) \<Rightarrow> (rows', Inr DashNotFound)
              | (rows', Inr (Some a)) \<Rightarrow> (rows', Inr (DashAgent a)))))"

section \<open>What a verified request is\<close>

lemma verify_agent_Inr:
  "verify_agent_signature sha ed now key r body = Inr sig \<longleftrightarrow>
     SigHeader r \<noteq> [] \<and> parse_signature_header (SigHeader r) = Inr sig \<and>
     (\<exists>pub. parse_ed25519_public_key key = Inr pub \<and> verify_ed25519_signature sha ed now pub sig r body = None)"
  by (auto simp: verify_agent_signature_def split: sum.splits option.splits)

lemma require_ok:
  assumes "requireAgentSignature env now ag r body rows st = (st', Inr (a, sig))"
  shows "GetAgentByIDUnscoped ag rows = Some a \<and> verify_agent_signature (ae_sha env) (ae_verify env) (datetime now) (ag_key a) r body = Inr sig \<and>
    AgentID sig = ag \<and> ae_sha env (SigBytes sig) \<notin> fst ` set (snd st) \<and> snd st' = (ae_sha env (SigBytes sig), replay_expiry sig) # snd st"
  using assms
  by (auto simp: requireAgentSignature_def consume_signature_or_reject_def consume_signature_def
      split: if_splits option.splits sum.splits prod.splits bool.splits)

text \<open>C5: Registration is earned. When the handler registers an agent, the request was signed with the key that agent submitted,
  under its own id, with a signature not seen before and recorded now; the agent was pending, unexpired and under its five
  attempts, and the code is the one it was given. Its row, and no other, becomes registered.\<close>

theorem verification_sound:
  assumes "distinct (map ag_id (vs_agents st))"
    and "handleVerifyRegistration env now ip path_id r body (Some req) st = (st', VerifyRegistered b)"
  shows "\<exists>a sig. a \<in> set (vs_agents st) \<and> parsePathAgentID path_id = Some (ag_id a) \<and> AgentID sig = ag_id a \<and>
    verify_agent_signature (ae_sha env) (ae_verify env) (datetime now) (ag_key a) r body = Inr sig \<and>
    ae_sha env (SigBytes sig) \<notin> fst ` set (vs_used st) \<and>
    vs_used st' = (ae_sha env (SigBytes sig), replay_expiry sig) # vs_used st \<and>
    can_verify now a \<and> stored_code a = normalizeConfirmationCode (vb_code req) \<and>
    b = registered now (a\<lparr>ag_attempts := ag_attempts a + 1\<rparr>) \<and> vs_agents st' = put_agent b (vs_agents st)"
proof -
  let ?code = "normalizeConfirmationCode (vb_code req)"
  obtain ag limiter alim used a sig where path: "parsePathAgentID path_id = Some ag"
    and auth: "requireAgentSignature env now ag r body (vs_agents st) (vs_agent st, vs_used st) = ((alim, used), Inr (a, sig))"
    and ver: "VerifyAgentConfirmationCode now ag ?code (vs_agents st) = (vs_agents st', Some b, None)"
    and st': "vs_used st' = used"
    using assms(2)
    by (auto simp: handleVerifyRegistration_def Let_def split: if_splits option.splits sum.splits prod.splits bool.splits)
  note ok = require_ok [OF auth]
  then have a: "a \<in> set (vs_agents st)" "ag_id a = ag"
    using find_SomeD [of "\<lambda>a. ag_id a = ag" "vs_agents st" a] by (simp_all add: GetAgentByIDUnscoped_def)
  have "can_verify now a \<and> stored_code a = ?code \<and> b = registered now (a\<lparr>ag_attempts := ag_attempts a + 1\<rparr>) \<and>
      vs_agents st' = put_agent b (vs_agents st)"
    using verify_code [OF assms(1) a(1), of now ?code] ver a(2) by (auto simp: Let_def split: if_splits)
  then show ?thesis using ok a path st' by (intro exI [of _ a] exI [of _ sig]) simp
qed

text \<open>C12: The middleware lets a request through exactly when its header parses, the agent it names exists and is registered, the
  signature over this method, path, query, time and body verifies under that agent's stored key within the time window, and
  the rate limit of the agent has a token left.\<close>

theorem middleware_admits_iff:
  "RequireAgentSignature env now r body rows limiter = (limiter', Inr (a, sig)) \<longleftrightarrow>
   ae_lookup_ok env \<and> GetAgentByIDUnscoped (AgentID sig) rows = Some a \<and> ag_status a = AgentRegistered \<and>
   verify_agent_signature (ae_sha env) (ae_verify env) (datetime now) (ag_key a) r body = Inr sig \<and>
   checkAgentRateLimit (ae_dev env) now (ag_id a) limiter = (True, limiter')"
  unfolding verify_agent_Inr
  by (auto simp: RequireAgentSignature_def split: sum.splits option.splits verify_error.splits prod.splits bool.splits if_splits)

section \<open>Replays\<close>

definition replay_env :: auth_env where
  "replay_env = \<lparr>ae_sha = \<lambda>b. b, ae_verify = \<lambda>pub m s. s = pub @ m, ae_dev = True, ae_lookup_ok = True, ae_consume_error = False\<rparr>"

definition signed_agent :: agent where
  "signed_agent = (registered 0 (new_agent 0 7 ''u'' example_key ''AAAAA-22222'' 300 Empty))"

lemma example_verified_at:
  assumes "0 \<le> t" "t \<le> 300"
  shows "verify_agent_signature (\<lambda>b. b) (\<lambda>pub m s. s = pub @ m) t example_key example_signed ''{}'' = Inr example_parsed"
  unfolding example_key_def example_signed_def example_parsed_def
  using assms signed_verifies [of "replicate 32 CHR ''k''" "\<lambda>pub m s. s = pub @ m" "\<lambda>priv m. priv @ m" "replicate 32 CHR ''k''" 7 0 t
      "\<lambda>b. b" "\<lparr>Method = ''POST'', Path = ''/invite/x'', RawQuery = [], SigHeader = []\<rparr>" "''{}''"]
  by (simp add: int64_range_def)

lemma middleware_now:
  assumes "0 \<le> t" "t \<le> 300"
  shows "RequireAgentSignature replay_env (t * ns_per_sec) example_signed ''{}'' [signed_agent] None = (None, Inr (signed_agent, example_parsed))"
proof -
  have "datetime (t * ns_per_sec) = t" by (simp add: datetime_def ns_per_sec_def)
  moreover have "ag_key signed_agent = example_key" "ag_id signed_agent = 7" "ag_status signed_agent = AgentRegistered" "AgentID example_parsed = 7"
    by (simp_all add: signed_agent_def registered_def new_agent_def example_parsed_def)
  moreover note example_verified_at [OF assms, unfolded verify_agent_Inr]
  ultimately show ?thesis
    by (auto simp: RequireAgentSignature_def replay_env_def GetAgentByIDUnscoped_def checkAgentRateLimit_def)
qed

lemma replay_guard_at:
  assumes "0 \<le> t" "t \<le> 300"
  shows "requireAgentSignature replay_env (t * ns_per_sec) 7 example_signed ''{}'' [signed_agent] (None, []) =
      ((None, [(SigBytes example_parsed, replay_expiry example_parsed)]), Inr (signed_agent, example_parsed))"
    "requireAgentSignature replay_env (t * ns_per_sec) 7 example_signed ''{}'' [signed_agent] (None, [(SigBytes example_parsed, replay_expiry example_parsed)]) =
      ((None, [(SigBytes example_parsed, replay_expiry example_parsed)]), Inl AuthReplayed)"
proof -
  have now: "datetime (t * ns_per_sec) = t" by (simp add: datetime_def ns_per_sec_def)
  have agent: "ag_key signed_agent = example_key" "ag_id signed_agent = 7" "AgentID example_parsed = 7"
    by (simp_all add: signed_agent_def registered_def new_agent_def example_parsed_def)
  note unfold = requireAgentSignature_def replay_env_def GetAgentByIDUnscoped_def checkAgentRateLimit_def consume_signature_or_reject_def consume_signature_def
  show "requireAgentSignature replay_env (t * ns_per_sec) 7 example_signed ''{}'' [signed_agent] (None, []) =
      ((None, [(SigBytes example_parsed, replay_expiry example_parsed)]), Inr (signed_agent, example_parsed))"
    using now agent example_verified_at [OF assms] by (simp add: unfold)
  show "requireAgentSignature replay_env (t * ns_per_sec) 7 example_signed ''{}'' [signed_agent] (None, [(SigBytes example_parsed, replay_expiry example_parsed)]) =
      ((None, [(SigBytes example_parsed, replay_expiry example_parsed)]), Inl AuthReplayed)"
    using now agent example_verified_at [OF assms] by (simp add: unfold)
qed

text \<open>C40: The middleware has no replay guard: it lets the same signed request through a second time, a minute later, which the check of
  the verification handler refuses.\<close>

theorem middleware_admits_replay:
  "\<exists>env r body rows a sig tbl.
     RequireAgentSignature env 0 r body rows None = (None, Inr (a, sig)) \<and>
     RequireAgentSignature env (60 * ns_per_sec) r body rows None = (None, Inr (a, sig)) \<and>
     requireAgentSignature env 0 (ag_id a) r body rows (None, []) = ((None, tbl), Inr (a, sig)) \<and>
     requireAgentSignature env (60 * ns_per_sec) (ag_id a) r body rows (None, tbl) = ((None, tbl), Inl AuthReplayed)"
proof (intro exI conjI)
  have seven: "ag_id signed_agent = 7" by (simp add: signed_agent_def registered_def new_agent_def)
  show "RequireAgentSignature replay_env 0 example_signed ''{}'' [signed_agent] None = (None, Inr (signed_agent, example_parsed))"
    using middleware_now [of 0] by simp
  show "RequireAgentSignature replay_env (60 * ns_per_sec) example_signed ''{}'' [signed_agent] None = (None, Inr (signed_agent, example_parsed))"
    by (rule middleware_now) simp_all
  show "requireAgentSignature replay_env 0 (ag_id signed_agent) example_signed ''{}'' [signed_agent] (None, []) =
      ((None, [(SigBytes example_parsed, replay_expiry example_parsed)]), Inr (signed_agent, example_parsed))"
    using replay_guard_at(1) [of 0] by (simp add: seven)
  show "requireAgentSignature replay_env (60 * ns_per_sec) (ag_id signed_agent) example_signed ''{}'' [signed_agent]
      (None, [(SigBytes example_parsed, replay_expiry example_parsed)]) =
      ((None, [(SigBytes example_parsed, replay_expiry example_parsed)]), Inl AuthReplayed)"
    using replay_guard_at(2) [of 60] by (simp add: seven)
qed

section \<open>Metadata\<close>

text \<open>Merging sets the keys of the patch, whatever the order of the map.\<close>

lemma override_update: "((f(k \<mapsto> v)) ++ (\<lambda>j. if j \<in> S then Some (g j) else None)) j = (if j \<in> S then Some (g j) else if j = k then Some v else f j)"
  by (simp add: map_add_def)
lemma override_insert: "(f ++ (\<lambda>j. if j \<in> insert k S then Some (g j) else None)) j = (if j \<in> S then Some (g j) else if j = k then Some (g k) else f j)"
  by (simp add: map_add_def)
lemma merge_keys_step:
  assumes "merge_keys (k # ks) right (Some m) = Inr (Some m')"
  shows "merge_keys ks right (Some (AList.update k (the (map_of right k)) m)) = Inr (Some m')"
  using assms by (simp add: assign_def)
lemma merge_keys_set:
  "merge_keys ks right (Some m) = Inr (Some m') \<Longrightarrow> map_of m' = map_of m ++ (\<lambda>k. if k \<in> set ks then Some (the (map_of right k)) else None)"
proof (induction ks arbitrary: m)
  case (Cons k ks)
  have eq: "map_of m' = map_of (AList.update k (the (map_of right k)) m) ++ (\<lambda>j. if j \<in> set ks then Some (the (map_of right j)) else None)"
    by (rule Cons.IH [OF merge_keys_step [OF Cons.prems]])
  show ?case unfolding eq update_conv' list.set
    by (rule ext) (simp only: override_update override_insert)
qed (simp add: map_add_def)
lemma merge_keys_total: "\<exists>m'. merge_keys ks right (Some m) = Inr (Some m')"
  by (induction ks arbitrary: m) (simp_all add: assign_def)

text \<open>A patch of the metadata replaces the keys it has and keeps the others, for any order Go ranges over it.\<close>

theorem metadata_patch:
  assumes "range_order ord" "json_map existing = Some m" "json_map patch = Some p" "existing \<noteq> JNull"
  shows "\<exists>m'. mergeAgentMetadataJSON ord (Doc existing) (Doc patch) = Inr (marshal_map (Some m')) \<and> map_of m' = map_of m ++ map_of p"
proof -
  obtain m' where m': "merge_keys (ord (keys p)) p (Some m) = Inr (Some m')" using merge_keys_total by blast
  have ks: "set (ord (keys p)) = fst ` set p"
    using assms(1) mset_eq_setD [of "ord (keys p)" "keys p"] by (simp add: range_order_def keys_def)
  have "(\<lambda>k. if k \<in> set (ord (keys p)) then Some (the (map_of p k)) else None) = map_of p"
  proof (rule ext)
    show "(if k \<in> set (ord (keys p)) then Some (the (map_of p k)) else None) = map_of p k" for k
      using map_of_eq_None_iff [of p k] by (cases "map_of p k") (simp_all only: ks option.sel if_True if_False, simp_all)
  qed
  then show ?thesis
    using merge_keys_set [OF m'] m' assms(2-4) by (intro exI [of _ m']) (simp add: mergeAgentMetadataJSON_def decode_left_def unmarshal_def)
qed

text \<open>An agent may register with the metadata null, which is stored; from then on an update of its metadata from the dashboard
  panics, as it assigns to a nil map.\<close>

theorem null_metadata_panics:
  "\<exists>env r body req code st invs rows a.
     handleRegisterAgent env 0 r body (Some req) code st = ((fst (fst (handleRegisterAgent env 0 r body (Some req) code st)), invs, rows), RegPending a) \<and>
     rb_metadata req = Doc JNull \<and>
     handleUpdateAgent (\<lambda>ks. ks) (ag_approver a) (int_str (ag_id a)) (Some (Doc (JObj [(''name'', JStr ''x'')]))) True rows =
       (rows, Inl ''assignment to entry in nil map'')"
proof (intro exI conjI)
  let ?req = "\<lparr>rb_request_id = ''r'', rb_public_key = example_key, rb_metadata = Doc JNull\<rparr>"
  let ?a = "(example_recruit example_key)\<lparr>ag_metadata := Doc JNull\<rparr>"
  have "ConsumeInvite 0 example_code [example_invite] = ([example_used], Some example_used)" by (rule example_consumed)
  moreover have "InsertPendingAgent 0 ''u'' example_key example_confirmation 300 (Doc JNull) True [] = ([?a], Some ?a)"
    using example_key_ok(3) example_lengths(3)
    by (simp add: InsertPendingAgent_def Let_def next_agent_id_def example_recruit_def agent_checks_def new_agent_def)
  ultimately have "register_transaction 0 example_code example_key example_confirmation (Doc JNull) True True ([example_invite], []) =
      (([example_used], [?a]), RegPending ?a)"
    by (simp add: register_transaction_def defaultRegistrationTTL_def example_used_def example_invite_def new_invite_def)
  moreover have "datetime 0 = 0" "example_code \<noteq> []" by (simp add: datetime_def) code_simp
  ultimately have "handleRegisterAgent example_env 0 example_signed ''{}'' (Some ?req) example_code ([], [example_invite], []) =
      (([(SigBytes example_parsed, replay_expiry example_parsed)], [example_used], [?a]), RegPending ?a)"
    using example_registration_signed example_key_ok
    by (simp add: handleRegisterAgent_def example_env_def consume_signature_or_reject_def consume_signature_def example_confirmation_def)
  then show "handleRegisterAgent example_env 0 example_signed ''{}'' (Some ?req) example_code ([], [example_invite], []) =
      ((fst (fst (handleRegisterAgent example_env 0 example_signed ''{}'' (Some ?req) example_code ([], [example_invite], []))), [example_used], [?a]), RegPending ?a)"
    by simp
  have "parsePathAgentID ''1'' = Some 1" "int_str 1 = ''1''" by code_simp+
  moreover have "keys [(''name'', JStr ''x'')] = [''name'']" by (simp add: keys_def)
  ultimately show "handleUpdateAgent (\<lambda>ks. ks) (ag_approver ?a) (int_str (ag_id ?a)) (Some (Doc (JObj [(''name'', JStr ''x'')]))) True [?a] =
      ([?a], Inl ''assignment to entry in nil map'')"
    by (simp add: handleUpdateAgent_def ValidateJSONObject_def UpdateAgentMetadata_def read_metadata_def GetAgentByID_def mergeAgentMetadataJSON_def
        decode_left_def assign_def example_recruit_def new_agent_def last_wins_def)
qed simp

section \<open>Instances\<close>

theorem metadata_patch_witness:
  "\<exists>m'. mergeAgentMetadataJSON rev (Doc (JObj [(''a'', JNull)])) (Doc (JObj [(''b'', JNull)])) = Inr (marshal_map (Some m')) \<and>
     map_of m' = map_of [(''a'', JNull)] ++ map_of [(''b'', JNull)]"
  by (rule metadata_patch [OF range_order_rev]) (simp_all add: last_wins_def)

definition verifying_agent :: agent where
  "verifying_agent = new_agent 0 7 ''u'' example_key ''AAAAA-22222'' 300 Empty"

definition verifying_state :: verify_state where
  "verifying_state = \<lparr>vs_ip = None, vs_agent = None, vs_used = [], vs_agents = [verifying_agent]\<rparr>"

lemma example_verification:
  "handleVerifyRegistration replay_env 0 ''ip'' ''7'' example_signed ''{}'' (Some \<lparr>vb_request_id = ''r'', vb_code = ''aaaaa-22222''\<rparr>) verifying_state =
   (verifying_state\<lparr>vs_used := [(SigBytes example_parsed, replay_expiry example_parsed)],
      vs_agents := [registered 0 (verifying_agent\<lparr>ag_attempts := 1\<rparr>)]\<rparr>,
    VerifyRegistered (registered 0 (verifying_agent\<lparr>ag_attempts := 1\<rparr>)))"
proof -
  have code: "normalizeConfirmationCode ''aaaaa-22222'' = ''AAAAA22222''" "parsePathAgentID ''7'' = Some 7"
    "to_upper (filter (\<lambda>x. x \<noteq> CHR ''-'') ''AAAAA-22222'') = ''AAAAA22222''" by code_simp+
  have "requireAgentSignature replay_env 0 7 example_signed ''{}'' [verifying_agent] (None, []) =
      ((None, [(SigBytes example_parsed, replay_expiry example_parsed)]), Inr (verifying_agent, example_parsed))"
    using example_verified_at [of 0]
    by (simp add: requireAgentSignature_def replay_env_def GetAgentByIDUnscoped_def checkAgentRateLimit_def consume_signature_or_reject_def
        consume_signature_def verifying_agent_def new_agent_def example_parsed_def datetime_def)
  moreover have "VerifyAgentConfirmationCode 0 7 ''AAAAA22222'' [verifying_agent] =
      ([registered 0 (verifying_agent\<lparr>ag_attempts := 1\<rparr>)], Some (registered 0 (verifying_agent\<lparr>ag_attempts := 1\<rparr>)), None)"
    using verify_code [of "[verifying_agent]" verifying_agent 0 "''AAAAA22222''"] code(3)
    by (simp add: verifying_agent_def new_agent_def can_verify_def agent_unexpired_def datetime_def sql_now_def ns_per_sec_def
        maxVerificationAttempts_def stored_code_def put_agent_def registered_def)
  ultimately show ?thesis
    using code(1,2) by (simp add: handleVerifyRegistration_def verifying_state_def ConfirmationCodeLength_def checkVerifyAttemptRateLimit_def)
qed

theorem verification_sound_witness:
  "\<exists>a sig. a \<in> set [verifying_agent] \<and> AgentID sig = ag_id a \<and>
     verify_agent_signature (\<lambda>b. b) (\<lambda>pub m s. s = pub @ m) 0 (ag_key a) example_signed ''{}'' = Inr sig"
proof -
  have "distinct (map ag_id (vs_agents verifying_state))" "datetime 0 = 0" by (simp_all add: verifying_state_def datetime_def)
  then show ?thesis
    using verification_sound [OF _ example_verification] by (simp add: replay_env_def verifying_state_def) blast
qed

end
