(* ===== verification/Retries.thy ===== *)
theory Retries
  imports GoJson GoTime
begin

text \<open>
  The two retry loops of the server: \<^verbatim>\<open>DeliverPOST\<close> (\<^verbatim>\<open>agentwake/deliver.go\<close>), which posts a wake to the webhook of an
  agent, and \<^verbatim>\<open>retryResourceDetails\<close> (\<^verbatim>\<open>api/resource_details_retry.go\<close>), which looks up what an action is about. The
  other side is an argument: by the number of the attempt, what the context says before it, what the call returns, and
  whether the context ends during the wait after it. Next to its result a loop returns what it did, the calls and
  the waits in nanoseconds, in order. Both loops are recursive functions on the loop variable, whose termination is proved.
\<close>

section \<open>What a loop does\<close>

datatype retry_event = Called | Waited int

definition calls :: "retry_event list \<Rightarrow> nat" where
  "calls tr = length (filter (\<lambda>e. e = Called) tr)"

fun waits :: "retry_event list \<Rightarrow> int list" where
  "waits [] = []"
| "waits (Called # tr) = waits tr"
| "waits (Waited d # tr) = d # waits tr"

lemma calls_simps [simp]: "calls [] = 0" "calls (Called # tr) = Suc (calls tr)" "calls (Waited d # tr) = calls tr"
  by (simp_all add: calls_def)

definition and_then_did :: "retry_event list \<Rightarrow> 'r \<times> retry_event list \<Rightarrow> 'r \<times> retry_event list" where
  "and_then_did tr r = (fst r, tr @ snd r)"

lemma and_then_did_simps [simp]: "fst (and_then_did tr r) = fst r" "snd (and_then_did tr r) = tr @ snd r"
  by (simp_all add: and_then_did_def)

section \<open>Waking an agent\<close>

definition maxAttempts :: int where "maxAttempts = 5"
definition initialBackoff :: int where "initialBackoff = 2 * ns_per_sec"
definition maxBackoff :: int where "maxBackoff = 32 * ns_per_sec"

datatype http_reply = TransportError string | Replied int

datatype wake_error = BadRequestUrl | Transport string | HttpStatus int | ContextEnded string

record wake_world =
  ww_request_ok :: bool
  ww_ctx :: "int \<Rightarrow> string option"
  ww_reply :: "int \<Rightarrow> http_reply"
  ww_cut :: "int \<Rightarrow> string option"

definition deliverOnce :: "wake_world \<Rightarrow> int \<Rightarrow> wake_error option" where
  "deliverOnce w attempt =
     (if \<not> ww_request_ok w then Some BadRequestUrl
      else (case ww_reply w attempt of
          TransportError e \<Rightarrow> Some (Transport e)
        | Replied code \<Rightarrow> if 200 \<le> code \<and> code < 300 then None else Some (HttpStatus code)))"

definition next_backoff :: "int \<Rightarrow> int" where
  "next_backoff b = (if b < maxBackoff then (if b * 2 > maxBackoff then maxBackoff else b * 2) else b)"

function deliver_from :: "wake_world \<Rightarrow> int \<Rightarrow> int \<Rightarrow> wake_error option \<Rightarrow> wake_error option \<times> retry_event list" where
  "deliver_from w attempt backoff lastErr =
     (if maxAttempts < attempt then (lastErr, [])
      else (case ww_ctx w attempt of
          Some e \<Rightarrow> (Some (ContextEnded e), [])
        | None \<Rightarrow>
            (case deliverOnce w attempt of
               None \<Rightarrow> (None, [Called])
             | Some err \<Rightarrow>
                 if attempt = maxAttempts then (Some err, [Called])
                 else (case ww_cut w attempt of
                     Some e \<Rightarrow> (Some (ContextEnded e), [Called])
                   | None \<Rightarrow> and_then_did [Called, Waited backoff] (deliver_from w (attempt + 1) (next_backoff backoff) (Some err))))))"
  by pat_completeness auto

termination by (relation "measure (\<lambda>(w, attempt, backoff, lastErr). nat (maxAttempts + 1 - attempt))") (auto simp: maxAttempts_def)

declare deliver_from.simps [simp del]

definition DeliverPOST :: "wake_world \<Rightarrow> wake_error option \<times> retry_event list" where
  "DeliverPOST w = deliver_from w 1 initialBackoff None"

section \<open>Looking up resource details\<close>

definition resourceDetailsMaxAttempts :: int where "resourceDetailsMaxAttempts = 3"
definition resourceDetailsBackoffBase :: int where "resourceDetailsBackoffBase = 500 * 1000000"

text \<open>An error by the answers \<^verbatim>\<open>errors.Is\<close> and \<^verbatim>\<open>errors.As\<close> give for it; several can be true of a wrapped error. The rate limit has its
  \<^verbatim>\<open>RetryAfter\<close>.\<close>

record call_error =
  ce_ctx_canceled :: bool
  ce_canceled :: bool
  ce_deadline :: bool
  ce_auth :: bool
  ce_validation :: bool
  ce_timeout :: bool
  ce_external :: bool
  ce_rate_limit :: "int option"

definition isRetryableResourceDetailsError :: "call_error \<Rightarrow> bool" where
  "isRetryableResourceDetailsError e \<longleftrightarrow>
     (if ce_ctx_canceled e \<or> ce_canceled e then False
      else if ce_deadline e then False
      else if ce_auth e \<or> ce_validation e then False
      else ce_timeout e \<or> ce_external e \<or> ce_rate_limit e \<noteq> None)"

text \<open>\<open>left\<close> is \<^verbatim>\<open>time.Until\<close> of the deadline, if the context has one; \<open>draw n\<close> is what \<^verbatim>\<open>rand.Int63n\<close> returns for the bound \<open>n\<close>.\<close>

fun doubled :: "nat \<Rightarrow> int \<Rightarrow> int" where
  "doubled 0 d = d"
| "doubled (Suc n) d = doubled n (d * 2)"

definition jittered :: "(int \<Rightarrow> int) \<Rightarrow> int \<Rightarrow> int" where
  "jittered draw delay = (let jitter = delay div 4 in delay - jitter + draw (2 * jitter + 1))"

definition resourceDetailsRetryDelay :: "int option \<Rightarrow> (int \<Rightarrow> int) \<Rightarrow> int \<Rightarrow> call_error \<Rightarrow> int" where
  "resourceDetailsRetryDelay left draw attempt e =
     (let remaining = (case left of None \<Rightarrow> 2 ^ 63 - 1 | Some r \<Rightarrow> r);
          delay = (case ce_rate_limit e of
              Some after \<Rightarrow> if 0 < after then after else jittered draw (doubled (nat (attempt - 1)) resourceDetailsBackoffBase)
            | None \<Rightarrow> jittered draw (doubled (nat (attempt - 1)) resourceDetailsBackoffBase))
      in if remaining \<le> 0 then 0 else if remaining < delay then remaining else delay)"

text \<open>The error of the context is an error like the others.\<close>

record lookup_world =
  lw_ctx :: "int \<Rightarrow> call_error option"
  lw_call :: "int \<Rightarrow> call_error + json gomap"
  lw_left :: "int \<Rightarrow> int option"
  lw_draw :: "int \<Rightarrow> int \<Rightarrow> int"
  lw_cut :: "int \<Rightarrow> bool"

function retry_from :: "lookup_world \<Rightarrow> int \<Rightarrow> call_error option \<Rightarrow> (call_error option + json gomap) \<times> retry_event list" where
  "retry_from w attempt lastErr =
     (if resourceDetailsMaxAttempts < attempt then (Inl lastErr, [])
      else (case lw_ctx w attempt of
          Some e \<Rightarrow> (Inl (case lastErr of None \<Rightarrow> Some e | Some l \<Rightarrow> Some l), [])
        | None \<Rightarrow>
            (case lw_call w attempt of
               Inr details \<Rightarrow> (Inr details, [Called])
             | Inl e \<Rightarrow>
                 if \<not> isRetryableResourceDetailsError e then (Inl (Some e), [Called])
                 else if attempt = resourceDetailsMaxAttempts then (Inl (Some e), [Called])
                 else (let delay = resourceDetailsRetryDelay (lw_left w attempt) (lw_draw w attempt) attempt e
                   in if delay \<le> 0 then (Inl (Some e), [Called])
                      else if lw_cut w attempt then (Inl (Some e), [Called])
                      else and_then_did [Called, Waited delay] (retry_from w (attempt + 1) (Some e))))))"
  by pat_completeness auto

termination by (relation "measure (\<lambda>(w, attempt, lastErr). nat (resourceDetailsMaxAttempts + 1 - attempt))") (auto simp: resourceDetailsMaxAttempts_def)

declare retry_from.simps [simp del]

definition retryResourceDetails :: "lookup_world \<Rightarrow> (call_error option + json gomap) \<times> retry_event list" where
  "retryResourceDetails w = retry_from w 1 None"

section \<open>The loops end\<close>

text \<open>The waits are those the doubling prescribes, from the current one on.\<close>

fun backoffs :: "nat \<Rightarrow> int \<Rightarrow> int list" where
  "backoffs 0 b = []"
| "backoffs (Suc n) b = b # backoffs n (next_backoff b)"

text \<open>A delivery from an attempt on that waited \<open>n\<close> times.\<close>

definition delivered :: "wake_world \<Rightarrow> int \<Rightarrow> int \<Rightarrow> wake_error option \<Rightarrow> retry_event list \<Rightarrow> nat \<Rightarrow> bool" where
  "delivered w attempt backoff res tr n \<longleftrightarrow>
     waits tr = backoffs n backoff \<and> int n \<le> maxAttempts - attempt \<and> calls tr \<in> {n, Suc n} \<and>
     (res = None \<longleftrightarrow> calls tr = Suc n \<and> deliverOnce w (attempt + int n) = None) \<and>
     (\<forall>m < n. deliverOnce w (attempt + int m) \<noteq> None)"

lemma delivered_again:
  assumes "delivered w (attempt + 1) (next_backoff backoff) res tr n" "deliverOnce w attempt = Some e"
  shows "delivered w attempt backoff res (Called # Waited backoff # tr) (Suc n)"
proof -
  have "attempt + 1 + int m = attempt + int (Suc m)" for m by simp
  with assms show ?thesis by (auto simp: delivered_def less_Suc_eq_0_disj)
qed

lemma deliver_from_within:
  assumes "deliver_from w attempt backoff lastErr = (res, tr)" "attempt \<le> maxAttempts"
  shows "\<exists>n. delivered w attempt backoff res tr n"
  using assms
proof (induction w attempt backoff lastErr arbitrary: res tr rule: deliver_from.induct)
  case (1 w attempt backoff lastErr)
  show ?case
  proof (cases "ww_ctx w attempt = None \<and> (\<exists>e. deliverOnce w attempt = Some e) \<and> attempt \<noteq> maxAttempts \<and> ww_cut w attempt = None")
    case False
    with 1(2,3) have "waits tr = []" "calls tr = 0 \<and> res \<noteq> None \<or> calls tr = 1 \<and> (res = None \<longleftrightarrow> deliverOnce w attempt = None)"
      by (cases "deliverOnce w attempt"; simp add: deliver_from.simps [of w attempt] split: option.splits if_splits; fastforce)+
    with 1(3) show ?thesis by (intro exI [of _ 0]) (auto simp: delivered_def)
  next
    case True
    then obtain e where e: "deliverOnce w attempt = Some e" by blast
    obtain res' tr' where rest: "deliver_from w (attempt + 1) (next_backoff backoff) (Some e) = (res', tr')" by fastforce
    from True 1(3) e rest 1(2) have eqs: "res = res'" "tr = Called # Waited backoff # tr'" "\<not> maxAttempts < attempt"
      by (simp_all add: deliver_from.simps [of w attempt] and_then_did_def)
    have "\<exists>n. delivered w (attempt + 1) (next_backoff backoff) res' tr' n"
      using True 1(3) by (intro 1(1) [OF eqs(3) _ e _ _ rest]) simp_all
    then show ?thesis unfolding eqs using delivered_again [OF _ e] by blast
  qed
qed

text \<open>C23: Waking an agent ends. However the webhook and the context behave, at most five posts are made, the waits between them are
  two, four, eight and sixteen seconds as far as it gets, and the delivery succeeds exactly when the last post it made was
  answered with a 2xx; every post before that one failed.\<close>

theorem wake_delivery_ends:
  "\<exists>n \<le> 4. waits (snd (DeliverPOST w)) = map (\<lambda>s. s * ns_per_sec) (take n [2, 4, 8, 16]) \<and>
     calls (snd (DeliverPOST w)) \<in> {n, Suc n} \<and>
     (fst (DeliverPOST w) = None \<longleftrightarrow> calls (snd (DeliverPOST w)) = Suc n \<and> deliverOnce w (1 + int n) = None) \<and>
     (\<forall>m < n. deliverOnce w (1 + int m) \<noteq> None)"
proof -
  obtain res tr where d: "DeliverPOST w = (res, tr)" by fastforce
  then obtain n where n: "delivered w 1 initialBackoff res tr n"
    using deliver_from_within [of w 1 initialBackoff None res tr] by (auto simp: DeliverPOST_def maxAttempts_def)
  then have le: "n \<le> 4" by (simp add: delivered_def maxAttempts_def)
  then consider "n = 0" | "n = 1" | "n = 2" | "n = 3" | "n = 4" by linarith
  then have "backoffs n initialBackoff = map (\<lambda>s. s * ns_per_sec) (take n [2, 4, 8, 16])"
    by cases (simp_all add: eval_nat_numeral next_backoff_def initialBackoff_def maxBackoff_def ns_per_sec_def)
  with le n d show ?thesis by (intro exI [of _ n]) (simp add: delivered_def)
qed

text \<open>A lookup from an attempt on that waited \<open>n\<close> times.\<close>

definition looked_up :: "lookup_world \<Rightarrow> int \<Rightarrow> call_error option + json gomap \<Rightarrow> retry_event list \<Rightarrow> nat \<Rightarrow> bool" where
  "looked_up w attempt res tr n \<longleftrightarrow>
     length (waits tr) = n \<and> int n \<le> resourceDetailsMaxAttempts - attempt \<and> calls tr \<in> {n, Suc n} \<and>
     (\<forall>m < n. \<exists>e. lw_call w (attempt + int m) = Inl e \<and> isRetryableResourceDetailsError e \<and> 0 < waits tr ! m \<and>
        waits tr ! m = resourceDetailsRetryDelay (lw_left w (attempt + int m)) (lw_draw w (attempt + int m)) (attempt + int m) e) \<and>
     (\<forall>x. res = Inr x \<longleftrightarrow> calls tr = Suc n \<and> lw_call w (attempt + int n) = Inr x) \<and> res \<noteq> Inl None"

lemma looked_up_again:
  assumes "looked_up w (attempt + 1) res tr n" "lw_call w attempt = Inl e" "isRetryableResourceDetailsError e"
    and "d = resourceDetailsRetryDelay (lw_left w attempt) (lw_draw w attempt) attempt e" "0 < d"
  shows "looked_up w attempt res (Called # Waited d # tr) (Suc n)"
proof -
  have "attempt + 1 + int m = attempt + int (Suc m)" for m by simp
  with assms show ?thesis by (auto simp: looked_up_def less_Suc_eq_0_disj)
qed

lemma retry_from_within:
  assumes "retry_from w attempt lastErr = (res, tr)" "attempt \<le> resourceDetailsMaxAttempts"
  shows "\<exists>n. looked_up w attempt res tr n"
  using assms
proof (induction w attempt lastErr arbitrary: res tr rule: retry_from.induct)
  case (1 w attempt lastErr)
  let ?delay = "\<lambda>e. resourceDetailsRetryDelay (lw_left w attempt) (lw_draw w attempt) attempt e"
  show ?case
  proof (cases "lw_ctx w attempt = None \<and> (\<exists>e. lw_call w attempt = Inl e \<and> isRetryableResourceDetailsError e \<and> 0 < ?delay e) \<and>
      attempt \<noteq> resourceDetailsMaxAttempts \<and> \<not> lw_cut w attempt")
    case False
    with 1(2,3) have "waits tr = []" "res \<noteq> Inl None"
        "calls tr = 0 \<and> (\<forall>x. res \<noteq> Inr x) \<or> calls tr = 1 \<and> (\<forall>x. res = Inr x \<longleftrightarrow> lw_call w attempt = Inr x)"
      by (cases "lw_call w attempt"; simp add: retry_from.simps [of w attempt] Let_def split: option.splits if_splits; fastforce)+
    with 1(3) show ?thesis by (intro exI [of _ 0]) (auto simp: looked_up_def)
  next
    case True
    then obtain e where e: "lw_call w attempt = Inl e" "isRetryableResourceDetailsError e" "0 < ?delay e" by blast
    obtain res' tr' where rest: "retry_from w (attempt + 1) (Some e) = (res', tr')" by fastforce
    from True 1(3) e rest 1(2) have eqs: "res = res'" "tr = Called # Waited (?delay e) # tr'" "\<not> resourceDetailsMaxAttempts < attempt"
      by (simp_all add: retry_from.simps [of w attempt] and_then_did_def Let_def)
    have "\<exists>n. looked_up w (attempt + 1) res' tr' n"
      using True 1(3) e by (intro 1(1) [OF eqs(3) _ e(1) _ _ refl _ _ rest]) simp_all
    then show ?thesis unfolding eqs using looked_up_again [OF _ e(1,2) refl e(3)] by blast
  qed
qed

text \<open>Looking up what an action is about ends. At most three calls are made; the lookup waits after a call only when it failed with an error
  that may pass, for the time the error or the doubled and jittered base says and never beyond the deadline; the details are
  those of the last call, and a lookup without details always has an error.\<close>

theorem resource_lookup_ends:
  "\<exists>n \<le> 2. length (waits (snd (retryResourceDetails w))) = n \<and> calls (snd (retryResourceDetails w)) \<in> {n, Suc n} \<and>
     (\<forall>m < n. \<exists>e. lw_call w (1 + int m) = Inl e \<and> isRetryableResourceDetailsError e \<and> 0 < waits (snd (retryResourceDetails w)) ! m \<and>
        waits (snd (retryResourceDetails w)) ! m =
          resourceDetailsRetryDelay (lw_left w (1 + int m)) (lw_draw w (1 + int m)) (1 + int m) e) \<and>
     (\<forall>x. fst (retryResourceDetails w) = Inr x \<longleftrightarrow> calls (snd (retryResourceDetails w)) = Suc n \<and> lw_call w (1 + int n) = Inr x) \<and>
     fst (retryResourceDetails w) \<noteq> Inl None"
proof -
  obtain res tr where d: "retryResourceDetails w = (res, tr)" by fastforce
  then have "retry_from w 1 None = (res, tr)" by (simp add: retryResourceDetails_def)
  from retry_from_within [OF this] obtain n where n: "looked_up w 1 res tr n" by (auto simp: resourceDetailsMaxAttempts_def)
  then have "n \<le> 2" by (simp add: looked_up_def resourceDetailsMaxAttempts_def)
  with n d show ?thesis by (intro exI [of _ n]) (simp add: looked_up_def)
qed

text \<open>A webhook that fails twice and then answers, and a lookup that times out once.\<close>

definition flaky_webhook :: wake_world where
  "flaky_webhook = \<lparr>ww_request_ok = True, ww_ctx = (\<lambda>_. None), ww_reply = (\<lambda>n. if n < 3 then Replied 503 else Replied 200), ww_cut = (\<lambda>_. None)\<rparr>"

definition timed_out :: call_error where
  "timed_out = \<lparr>ce_ctx_canceled = False, ce_canceled = False, ce_deadline = False, ce_auth = False, ce_validation = False, ce_timeout = True,
     ce_external = False, ce_rate_limit = None\<rparr>"

definition slow_lookup :: "lookup_world" where
  "slow_lookup = \<lparr>lw_ctx = (\<lambda>_. None), lw_call = (\<lambda>n. if n = 1 then Inl timed_out else Inr [(''name'', JStr ''mail'')]), lw_left = (\<lambda>_. Some (30 * ns_per_sec)),
     lw_draw = (\<lambda>_ n. n - 1), lw_cut = (\<lambda>_. False)\<rparr>"

lemma flaky_delivery: "DeliverPOST flaky_webhook = (None, [Called, Waited (2 * ns_per_sec), Called, Waited (4 * ns_per_sec), Called])"
  by code_simp

lemma slow_lookup_result: "retryResourceDetails slow_lookup = (Inr [(''name'', JStr ''mail'')], [Called, Waited 625000000, Called])"
  by code_simp

theorem wake_delivery_ends_witness:
  "\<exists>n \<le> 4. [2 * ns_per_sec, 4 * ns_per_sec] = map (\<lambda>s. s * ns_per_sec) (take n [2, 4, 8, 16]) \<and> 3 \<in> {n, Suc n} \<and>
     (\<forall>m < n. deliverOnce flaky_webhook (1 + int m) \<noteq> None)"
proof -
  obtain n where "n \<le> 4" "waits (snd (DeliverPOST flaky_webhook)) = map (\<lambda>s. s * ns_per_sec) (take n [2, 4, 8, 16])"
      "calls (snd (DeliverPOST flaky_webhook)) \<in> {n, Suc n}" "\<forall>m < n. deliverOnce flaky_webhook (1 + int m) \<noteq> None"
    using wake_delivery_ends [of flaky_webhook] by blast
  then show ?thesis by (intro exI [of _ n]) (simp add: flaky_delivery numeral_3_eq_3)
qed

theorem resource_lookup_ends_witness:
  "\<exists>n \<le> 2. length [625000000 :: int] = n \<and> 2 \<in> {n, Suc n} \<and>
     (\<forall>m < n. \<exists>e. lw_call slow_lookup (1 + int m) = Inl e \<and> isRetryableResourceDetailsError e)"
proof -
  obtain n where "n \<le> 2" "length (waits (snd (retryResourceDetails slow_lookup))) = n" "calls (snd (retryResourceDetails slow_lookup)) \<in> {n, Suc n}"
      "\<forall>m < n. \<exists>e. lw_call slow_lookup (1 + int m) = Inl e \<and> isRetryableResourceDetailsError e"
    using resource_lookup_ends [of slow_lookup] by blast
  then show ?thesis by (intro exI [of _ n]) (simp add: slow_lookup_result)
qed

end
