(* ===== verification/ConnectorInstances.thy ===== *)
theory ConnectorInstances
  imports StandingLifecycle
begin

text \<open>
  The connectors an agent may use (\<^verbatim>\<open>db/agent_connectors.go\<close>, \<^verbatim>\<open>db/agent_connector_instances.go\<close>,
  \<^verbatim>\<open>db/agent_connector_credentials.go\<close>): an agent has one row per instance (account) of a connector, one of them the
  default, and at most one credential bound to each. Then the choice of the instance an action runs with
  (\<^verbatim>\<open>api/agent_approvals_instance.go\<close>, \<^verbatim>\<open>api/connector_instance_scope.go\<close>,
  \<^verbatim>\<open>api/standing_approval_request_instance.go\<close>).
  \<open>owns\<close> is the table of agents and their approvers, \<open>known\<close> the table of connectors, \<open>is_uuid\<close> is \<^verbatim>\<open>uuid.Parse\<close> of
  \<^verbatim>\<open>google/uuid\<close>; reads of the database are taken to succeed, \<open>io_ok = False\<close> is a write that fails for a reason of its own.
\<close>

section \<open>Rows\<close>

record instance_row =
  ci_agent :: int
  ci_approver :: string
  ci_connector :: string
  ci_id :: string
  ci_enabled :: instant
  ci_default :: bool

record binding =
  bd_id :: string
  bd_agent :: int
  bd_connector :: string
  bd_instance :: string
  bd_approver :: string
  bd_credential :: "string option"
  bd_oauth :: "string option"
  bd_created :: instant

text \<open>The three tables the operations change.\<close>

record links =
  ln_rows :: "instance_row list"
  ln_binds :: "binding list"
  ln_grants :: "standing list"

definition of_pair :: "int \<Rightarrow> string \<Rightarrow> string \<Rightarrow> instance_row \<Rightarrow> bool" where
  "of_pair ag u c r \<longleftrightarrow> ci_agent r = ag \<and> ci_approver r = u \<and> ci_connector r = c"

definition of_instance :: "int \<Rightarrow> string \<Rightarrow> string \<Rightarrow> string \<Rightarrow> instance_row \<Rightarrow> bool" where
  "of_instance ag u c i r \<longleftrightarrow> of_pair ag u c r \<and> ci_id r = i"

definition bound_to :: "int \<Rightarrow> string \<Rightarrow> string \<Rightarrow> string \<Rightarrow> binding \<Rightarrow> bool" where
  "bound_to ag u c i b \<longleftrightarrow> bd_agent b = ag \<and> bd_approver b = u \<and> bd_connector b = c \<and> bd_instance b = i"

text \<open>The rows of the unique index on the default of an agent and a connector.\<close>

definition is_default_of :: "int \<Rightarrow> string \<Rightarrow> instance_row \<Rightarrow> bool" where
  "is_default_of ag c r \<longleftrightarrow> ci_agent r = ag \<and> ci_connector r = c \<and> ci_default r"

section \<open>Display names\<close>

text \<open>The columns of the joined tables: the label of a static credential (\<open>None\<close> is NULL or no row), the \<^verbatim>\<open>extra_data\<close> of
  an OAuth connection, and the text SQLite makes of a JSON value that is neither a string nor \<^verbatim>\<open>null\<close>.\<close>

record wallet =
  label_of :: "string \<Rightarrow> string option"
  extra_of :: "string \<Rightarrow> json option"
  text_of :: "json \<Rightarrow> string"

text \<open>\<^verbatim>\<open>json_extract(extra_data, '$.key')\<close>, \<open>None\<close> for NULL, and \<^verbatim>\<open>NULLIF(x, '') IS NOT NULL\<close>.\<close>

definition json_extract :: "(json \<Rightarrow> string) \<Rightarrow> json option \<Rightarrow> string \<Rightarrow> string option" where
  "json_extract text extra k =
     (case extra of
        Some (JObj kvs) \<Rightarrow> (case map_of kvs k of None \<Rightarrow> None | Some JNull \<Rightarrow> None | Some (JStr s) \<Rightarrow> Some s | Some v \<Rightarrow> Some (text v))
      | _ \<Rightarrow> None)"

definition filled :: "string option \<Rightarrow> bool" where
  "filled x \<longleftrightarrow> x \<noteq> None \<and> x \<noteq> Some []"

definition connectorInstanceDisplayNameSQL :: "(json \<Rightarrow> string) \<Rightarrow> string option \<Rightarrow> json option \<Rightarrow> string" where
  "connectorInstanceDisplayNameSQL text label extra =
     (let name = json_extract text extra ''display_name''; email = json_extract text extra ''email''; team = json_extract text extra ''team_name''
      in case label of
           Some l \<Rightarrow> l
         | None \<Rightarrow>
             if filled name \<and> filled team then the name @ '' @ '' @ the team
             else if filled email \<and> filled team then the email @ '' @ '' @ the team
             else if filled name then the name
             else if filled email then the email
             else if filled team then the team
             else [])"

text \<open>The helper of package api the SQL expression must stay in sync with; the missing key of a Go map reads as the empty string.\<close>

definition string_map :: "json \<Rightarrow> string gomap option" where
  "string_map j =
     (case json_map j of
        None \<Rightarrow> None
      | Some m \<Rightarrow> map_option (zip (keys m)) (decode_all json_string (map snd m)))"

definition or_empty :: "string option \<Rightarrow> string" where
  "or_empty x = (case x of None \<Rightarrow> [] | Some s \<Rightarrow> s)"

definition displayNameFromExtraData :: "raw \<Rightarrow> string" where
  "displayNameFromExtraData extraData =
     (case unmarshal string_map extraData of
        None \<Rightarrow> []
      | Some extra \<Rightarrow>
          (let identifier = (if or_empty (map_of extra ''display_name'') = [] then or_empty (map_of extra ''email'')
                             else or_empty (map_of extra ''display_name''));
               teamName = or_empty (map_of extra ''team_name'')
           in if identifier = [] then teamName
              else if teamName \<noteq> [] then identifier @ '' @ '' @ teamName
              else identifier))"

text \<open>The joins of \<open>agentConnectorInstanceSelect\<close>: the binding of the row, then its credential or connection.\<close>

definition display_of :: "wallet \<Rightarrow> binding list \<Rightarrow> instance_row \<Rightarrow> string" where
  "display_of w binds r =
     (let b = find (bound_to (ci_agent r) (ci_approver r) (ci_connector r) (ci_id r)) binds
      in connectorInstanceDisplayNameSQL (text_of w)
           (case b of Some b \<Rightarrow> Option.bind (bd_credential b) (label_of w) | None \<Rightarrow> None)
           (case b of Some b \<Rightarrow> Option.bind (bd_oauth b) (extra_of w) | None \<Rightarrow> None))"

section \<open>Reading instances\<close>

definition instance_key :: "instance_row \<Rightarrow> string \<times> string" where
  "instance_key r = (strftime_text (ci_enabled r), ci_id r)"

definition ListAgentConnectorInstances :: "int \<Rightarrow> string \<Rightarrow> string \<Rightarrow> instance_row list \<Rightarrow> instance_row list" where
  "ListAgentConnectorInstances ag u c rows = sort_key instance_key (filter (of_pair ag u c) rows)"

definition GetAgentConnectorInstance :: "int \<Rightarrow> string \<Rightarrow> string \<Rightarrow> string \<Rightarrow> instance_row list \<Rightarrow> instance_row option" where
  "GetAgentConnectorInstance ag u c i rows = find (of_instance ag u c i) rows"

definition GetDefaultAgentConnectorInstance :: "int \<Rightarrow> string \<Rightarrow> string \<Rightarrow> instance_row list \<Rightarrow> instance_row option" where
  "GetDefaultAgentConnectorInstance ag u c rows = find (\<lambda>r. of_pair ag u c r \<and> ci_default r) rows"

definition GetDefaultAgentConnectorInstanceByAgent :: "int \<Rightarrow> string \<Rightarrow> instance_row list \<Rightarrow> instance_row option" where
  "GetDefaultAgentConnectorInstanceByAgent ag c rows = find (is_default_of ag c) rows"

definition AgentConnectorEnabled :: "int \<Rightarrow> string \<Rightarrow> string \<Rightarrow> instance_row list \<Rightarrow> bool" where
  "AgentConnectorEnabled ag u c rows \<longleftrightarrow> list_ex (of_pair ag u c) rows"

definition readEnabledAgentConnectorRow :: "int \<Rightarrow> string \<Rightarrow> string \<Rightarrow> instance_row list \<Rightarrow> instance_row option" where
  "readEnabledAgentConnectorRow ag u c rows =
     (case sort_key (\<lambda>r. (if ci_default r then 0 else 1 :: nat, strftime_text (ci_enabled r))) (filter (of_pair ag u c) rows) of
        [] \<Rightarrow> None | r # _ \<Rightarrow> Some r)"

text \<open>\<open>AmbiguousDisplay\<close> is the one error of the lookup, with the ids that match.\<close>

datatype ambiguous = AmbiguousDisplay "string list"

definition ResolveAgentConnectorInstance ::
  "(string \<Rightarrow> bool) \<Rightarrow> wallet \<Rightarrow> binding list \<Rightarrow> int \<Rightarrow> string \<Rightarrow> string \<Rightarrow> string \<Rightarrow> instance_row list \<Rightarrow> ambiguous + instance_row option" where
  "ResolveAgentConnectorInstance is_uuid w binds ag u c selector rows =
     (let sel = trim_space selector
      in if sel = [] then Inr None
         else if is_uuid sel then Inr (GetAgentConnectorInstance ag u c sel rows)
         else (case sort_key ci_id (filter (\<lambda>r. of_pair ag u c r \<and> display_of w binds r = sel) rows) of
             [] \<Rightarrow> Inr None
           | [r] \<Rightarrow> Inr (Some r)
           | rs \<Rightarrow> Inl (AmbiguousDisplay (map ci_id rs))))"

section \<open>Enabling and disabling\<close>

text \<open>The statement \<^verbatim>\<open>INSERT INTO agent_connectors\<close> under the primary key, the unique index on the default, the foreign
  keys and the length check, with the trigger that makes the first row of an agent and a connector the default.\<close>

datatype violation = UniqueViolation | ForeignKeyViolation | OtherViolation

definition with_trigger :: "instance_row \<Rightarrow> instance_row list \<Rightarrow> instance_row" where
  "with_trigger r rows = (if list_ex (is_default_of (ci_agent r) (ci_connector r)) rows then r else r\<lparr>ci_default := True\<rparr>)"

definition insert_instance ::
  "(int \<Rightarrow> string \<Rightarrow> bool) \<Rightarrow> (string \<Rightarrow> bool) \<Rightarrow> bool \<Rightarrow> instance_row \<Rightarrow> instance_row list \<Rightarrow> instance_row list \<times> (violation + instance_row)" where
  "insert_instance owns known io_ok r rows =
     (if \<not> io_ok \<or> 255 < length (ci_connector r) then (rows, Inl OtherViolation)
      else if list_ex (of_instance (ci_agent r) (ci_approver r) (ci_connector r) (ci_id r)) rows
         \<or> ci_default r \<and> list_ex (is_default_of (ci_agent r) (ci_connector r)) rows then (rows, Inl UniqueViolation)
      else if \<not> owns (ci_agent r) (ci_approver r) \<or> \<not> known (ci_connector r) then (rows, Inl ForeignKeyViolation)
      else (with_trigger r rows # rows, Inr (with_trigger r rows)))"

datatype connector_error = AcAgentNotFound | AcConnectorNotFound | AcNotEnabled | AcDbFailure

definition EnableAgentConnector ::
  "instant \<Rightarrow> (int \<Rightarrow> string \<Rightarrow> bool) \<Rightarrow> (string \<Rightarrow> bool) \<Rightarrow> bool \<Rightarrow> string \<Rightarrow> int \<Rightarrow> string \<Rightarrow> string \<Rightarrow> instance_row list
    \<Rightarrow> instance_row list \<times> (connector_error + instance_row)" where
  "EnableAgentConnector now owns known io_ok instID ag u c rows =
     (let read = (case readEnabledAgentConnectorRow ag u c rows of None \<Rightarrow> Inl AcDbFailure | Some r \<Rightarrow> Inr r)
      in if owns ag u \<and> \<not> AgentConnectorEnabled ag u c rows
         then (case insert_instance owns known io_ok \<lparr>ci_agent = ag, ci_approver = u, ci_connector = c, ci_id = instID,
                 ci_enabled = sql_now now, ci_default = True\<rparr> rows of
             (rows', Inr r) \<Rightarrow> (rows', Inr r)
           | (_, Inl ForeignKeyViolation) \<Rightarrow> (rows, Inl AcConnectorNotFound)
           | (_, Inl UniqueViolation) \<Rightarrow> (rows, read)
           | (_, Inl OtherViolation) \<Rightarrow> (rows, Inl AcDbFailure))
         else if AgentConnectorEnabled ag u c rows then (rows, read)
         else (rows, Inl AcAgentNotFound))"

text \<open>The three checks of \<^verbatim>\<open>CreateAgentConnectorInstance\<close> and its insert are four statements.\<close>

definition create_instance_checks ::
  "(int \<Rightarrow> string \<Rightarrow> bool) \<Rightarrow> (string \<Rightarrow> bool) \<Rightarrow> int \<Rightarrow> string \<Rightarrow> string \<Rightarrow> instance_row list \<Rightarrow> connector_error option" where
  "create_instance_checks owns known ag u c rows =
     (if \<not> owns ag u then Some AcAgentNotFound
      else if \<not> known c then Some AcConnectorNotFound
      else if \<not> AgentConnectorEnabled ag u c rows then Some AcNotEnabled
      else None)"

definition create_instance_insert ::
  "instant \<Rightarrow> (int \<Rightarrow> string \<Rightarrow> bool) \<Rightarrow> (string \<Rightarrow> bool) \<Rightarrow> bool \<Rightarrow> string \<Rightarrow> int \<Rightarrow> string \<Rightarrow> string \<Rightarrow> instance_row list
    \<Rightarrow> instance_row list \<times> (violation + instance_row)" where
  "create_instance_insert now owns known io_ok newID ag u c rows =
     insert_instance owns known io_ok \<lparr>ci_agent = ag, ci_approver = u, ci_connector = c, ci_id = newID,
       ci_enabled = sql_now now, ci_default = False\<rparr> rows"

definition CreateAgentConnectorInstance ::
  "instant \<Rightarrow> (int \<Rightarrow> string \<Rightarrow> bool) \<Rightarrow> (string \<Rightarrow> bool) \<Rightarrow> bool \<Rightarrow> string \<Rightarrow> int \<Rightarrow> string \<Rightarrow> string \<Rightarrow> instance_row list
    \<Rightarrow> instance_row list \<times> (connector_error + instance_row option)" where
  "CreateAgentConnectorInstance now owns known io_ok newID ag u c rows =
     (case create_instance_checks owns known ag u c rows of
        Some e \<Rightarrow> (rows, Inl e)
      | None \<Rightarrow> (case create_instance_insert now owns known io_ok newID ag u c rows of
          (rows', Inl e) \<Rightarrow> (rows', Inl AcDbFailure)
        | (rows', Inr r) \<Rightarrow> (rows', Inr (GetAgentConnectorInstance ag u c newID rows'))))"

definition revoke_where :: "instant \<Rightarrow> (standing \<Rightarrow> bool) \<Rightarrow> standing list \<Rightarrow> standing list" where
  "revoke_where now p grants = update_where (\<lambda>g. p g \<and> sa_status g = Active)
     (\<lambda>g. g\<lparr>sa_status := Revoked, sa_revoked_at := Some (sql_now now)\<rparr>) grants"

text \<open>Deleting rows takes the bindings of the rows with it (\<^verbatim>\<open>ON DELETE CASCADE\<close>).\<close>

definition delete_rows :: "(instance_row \<Rightarrow> bool) \<Rightarrow> links \<Rightarrow> links" where
  "delete_rows p s = s\<lparr>ln_rows := filter (\<lambda>r. \<not> p r) (ln_rows s),
     ln_binds := filter (\<lambda>b. \<not> list_ex (\<lambda>r. p r \<and> bound_to (ci_agent r) (ci_approver r) (ci_connector r) (ci_id r) b) (ln_rows s)) (ln_binds s)\<rparr>"

text \<open>\<open>actions c\<close> are the action types of the connector (\<^verbatim>\<open>connector_actions\<close>). The result is the number of revoked
  approvals, or \<open>None\<close> where nothing was enabled; the handler runs both statements in one transaction.\<close>

definition DisableAgentConnector ::
  "instant \<Rightarrow> (string \<Rightarrow> string list) \<Rightarrow> bool \<Rightarrow> int \<Rightarrow> string \<Rightarrow> string \<Rightarrow> links \<Rightarrow> links \<times> nat option result" where
  "DisableAgentConnector now actions io_ok ag u c s =
     (let hit = (\<lambda>g. sa_agent g = ag \<and> sa_user g = u \<and> sa_action g \<in> set (actions c))
      in if \<not> list_ex (of_pair ag u c) (ln_rows s) then (s, Inr None)
         else if \<not> io_ok then (s, Inl (OtherErr ''database''))
         else ((delete_rows (of_pair ag u c) s)\<lparr>ln_grants := revoke_where now hit (ln_grants s)\<rparr>,
               Inr (Some (length (filter (\<lambda>g. hit g \<and> sa_status g = Active) (ln_grants s))))))"

section \<open>The default instance and deleting instances\<close>

text \<open>Two updates; when the second finds no row, a transaction of the function's own is rolled back, one it was
  handed (\<open>owned = False\<close>) is not.\<close>

definition clear_defaults :: "int \<Rightarrow> string \<Rightarrow> string \<Rightarrow> string \<Rightarrow> instance_row list \<Rightarrow> instance_row list" where
  "clear_defaults ag u c i rows =
     update_where (\<lambda>r. of_pair ag u c r \<and> ci_default r \<and> ci_id r \<noteq> i) (\<lambda>r. r\<lparr>ci_default := False\<rparr>) rows"

definition mark_default :: "int \<Rightarrow> string \<Rightarrow> string \<Rightarrow> string \<Rightarrow> instance_row list \<Rightarrow> instance_row list" where
  "mark_default ag u c i rows = update_where (of_instance ag u c i) (\<lambda>r. r\<lparr>ci_default := True\<rparr>) rows"

definition SetDefaultAgentConnectorInstance ::
  "bool \<Rightarrow> int \<Rightarrow> string \<Rightarrow> string \<Rightarrow> string \<Rightarrow> instance_row list \<Rightarrow> instance_row list \<times> (violation + instance_row option)" where
  "SetDefaultAgentConnectorInstance owned ag u c i rows =
     (let cleared = clear_defaults ag u c i rows
      in if \<not> list_ex (of_instance ag u c i) rows then (if owned then rows else cleared, Inr None)
         else if list_ex (\<lambda>r. is_default_of ag c r \<and> \<not> of_instance ag u c i r) cleared then (if owned then rows else cleared, Inl UniqueViolation)
         else (mark_default ag u c i cleared, Inr (GetAgentConnectorInstance ag u c i (mark_default ag u c i cleared))))"

datatype instance_error = InstanceNotFound | CannotDeleteDefault | InstanceDbFailure

definition DeleteAgentConnectorInstance ::
  "instant \<Rightarrow> bool \<Rightarrow> int \<Rightarrow> string \<Rightarrow> string \<Rightarrow> string \<Rightarrow> links \<Rightarrow> links \<times> instance_error option" where
  "DeleteAgentConnectorInstance now io_ok ag u c i s =
     (case find (of_instance ag u c i) (ln_rows s) of
        None \<Rightarrow> (s, Some InstanceNotFound)
      | Some r \<Rightarrow>
          if ci_default r then (s, Some CannotDeleteDefault)
          else if \<not> io_ok then (s, Some InstanceDbFailure)
          else ((delete_rows (of_instance ag u c i) s)\<lparr>ln_grants :=
                  revoke_where now (\<lambda>g. sa_agent g = ag \<and> sa_user g = u \<and> sa_instance g = Some i) (ln_grants s)\<rparr>, None))"

section \<open>Credential bindings\<close>

definition GetAgentConnectorCredentialByInstance :: "int \<Rightarrow> string \<Rightarrow> string \<Rightarrow> binding list \<Rightarrow> binding option" where
  "GetAgentConnectorCredentialByInstance ag c i binds = find (\<lambda>b. bd_agent b = ag \<and> bd_connector b = c \<and> bd_instance b = i) binds"

definition GetAgentConnectorCredential :: "int \<Rightarrow> string \<Rightarrow> links \<Rightarrow> binding option" where
  "GetAgentConnectorCredential ag c s =
     (case GetDefaultAgentConnectorInstanceByAgent ag c (ln_rows s) of
        None \<Rightarrow> None
      | Some r \<Rightarrow> GetAgentConnectorCredentialByInstance ag c (ci_id r) (ln_binds s))"

record binding_params =
  bp_id :: string
  bp_agent :: int
  bp_connector :: string
  bp_instance :: string
  bp_approver :: string
  bp_credential :: "string option"
  bp_oauth :: "string option"

definition same_slot :: "binding_params \<Rightarrow> binding \<Rightarrow> bool" where
  "same_slot p b \<longleftrightarrow> bd_agent b = bp_agent p \<and> bd_connector b = bp_connector p \<and> bd_instance b = bp_instance p"

definition new_binding :: "instant \<Rightarrow> binding_params \<Rightarrow> binding" where
  "new_binding now p = \<lparr>bd_id = bp_id p, bd_agent = bp_agent p, bd_connector = bp_connector p, bd_instance = bp_instance p,
     bd_approver = bp_approver p, bd_credential = bp_credential p, bd_oauth = bp_oauth p, bd_created = sql_now now\<rparr>"

definition rebound :: "binding_params \<Rightarrow> binding \<Rightarrow> binding" where
  "rebound p b = b\<lparr>bd_credential := bp_credential p, bd_oauth := bp_oauth p, bd_approver := bp_approver p\<rparr>"

text \<open>\<^verbatim>\<open>INSERT ... ON CONFLICT (agent_id, connector_id, connector_instance_id) DO UPDATE\<close>, under the CHECK that exactly one of
  the two references is set, the primary key and the foreign key to the instance.\<close>

definition UpsertAgentConnectorCredentialByInstance ::
  "instant \<Rightarrow> bool \<Rightarrow> binding_params \<Rightarrow> links \<Rightarrow> links \<times> (violation + binding)" where
  "UpsertAgentConnectorCredentialByInstance now io_ok p s =
     (if \<not> io_ok \<or> 255 < length (bp_id p) \<or> 255 < length (bp_connector p) \<or> (bp_credential p = None) = (bp_oauth p = None)
        then (s, Inl OtherViolation)
      else if \<not> list_ex (of_instance (bp_agent p) (bp_approver p) (bp_connector p) (bp_instance p)) (ln_rows s) then (s, Inl ForeignKeyViolation)
      else (case find (same_slot p) (ln_binds s) of
          Some b \<Rightarrow> (s\<lparr>ln_binds := update_where (same_slot p) (rebound p) (ln_binds s)\<rparr>, Inr (rebound p b))
        | None \<Rightarrow> if bp_id p \<in> bd_id ` set (ln_binds s) then (s, Inl UniqueViolation)
            else (s\<lparr>ln_binds := new_binding now p # ln_binds s\<rparr>, Inr (new_binding now p))))"

definition UpsertAgentConnectorCredential ::
  "instant \<Rightarrow> bool \<Rightarrow> string \<Rightarrow> int \<Rightarrow> string \<Rightarrow> string \<Rightarrow> string option \<Rightarrow> string option \<Rightarrow> links \<Rightarrow> links \<times> (violation + binding) option" where
  "UpsertAgentConnectorCredential now io_ok bid ag c u cred oauth s =
     (case GetDefaultAgentConnectorInstance ag u c (ln_rows s) of
        None \<Rightarrow> (s, None)
      | Some r \<Rightarrow> (case UpsertAgentConnectorCredentialByInstance now io_ok
            \<lparr>bp_id = bid, bp_agent = ag, bp_connector = c, bp_instance = ci_id r, bp_approver = u, bp_credential = cred, bp_oauth = oauth\<rparr> s of
          (s', res) \<Rightarrow> (s', Some res)))"

definition DeleteAgentConnectorCredentialByInstance :: "int \<Rightarrow> string \<Rightarrow> string \<Rightarrow> string \<Rightarrow> links \<Rightarrow> links \<times> bool" where
  "DeleteAgentConnectorCredentialByInstance ag u c i s =
     (s\<lparr>ln_binds := filter (\<lambda>b. \<not> bound_to ag u c i b) (ln_binds s)\<rparr>, list_ex (bound_to ag u c i) (ln_binds s))"

definition DeleteAgentConnectorCredential :: "int \<Rightarrow> string \<Rightarrow> string \<Rightarrow> links \<Rightarrow> links \<times> bool" where
  "DeleteAgentConnectorCredential ag u c s =
     (case GetDefaultAgentConnectorInstance ag u c (ln_rows s) of
        None \<Rightarrow> (s, False)
      | Some r \<Rightarrow> DeleteAgentConnectorCredentialByInstance ag u c (ci_id r) s)"

definition ListAgentConnectorCredentialsForAgentConnector :: "int \<Rightarrow> string \<Rightarrow> string \<Rightarrow> binding list \<Rightarrow> binding list" where
  "ListAgentConnectorCredentialsForAgentConnector ag u c binds = filter (\<lambda>b. bd_agent b = ag \<and> bd_approver b = u \<and> bd_connector b = c) binds"

text \<open>The check of the assign handlers: exactly one reference, to a credential or connection of the user (\<open>creds\<close>,
  \<open>conns\<close>: id to owner and service) for this connector. The errors are those of the responses.\<close>

datatype assign_error = ExactlyOne | CredentialNotFound | ServiceMismatch | ConnectionNotFound | ProviderMismatch

definition check_reference ::
  "(string \<Rightarrow> (string \<times> string) option) \<Rightarrow> string \<Rightarrow> string \<Rightarrow> assign_error \<Rightarrow> assign_error \<Rightarrow> string option \<Rightarrow> assign_error option" where
  "check_reference rows u c missing mismatch ref =
     (case ref of
        None \<Rightarrow> None
      | Some i \<Rightarrow> (case rows i of
          None \<Rightarrow> Some missing
        | Some (owner, service) \<Rightarrow> if owner \<noteq> u then Some missing else if service \<noteq> c then Some mismatch else None))"

definition validateAssignCredentialRequest ::
  "(string \<Rightarrow> (string \<times> string) option) \<Rightarrow> (string \<Rightarrow> (string \<times> string) option) \<Rightarrow> string \<Rightarrow> string \<Rightarrow> string option \<Rightarrow> string option
    \<Rightarrow> assign_error option" where
  "validateAssignCredentialRequest creds conns u c cred oauth =
     (if (cred = None) = (oauth = None) then Some ExactlyOne
      else (case check_reference creds u c CredentialNotFound ServiceMismatch cred of
          Some e \<Rightarrow> Some e
        | None \<Rightarrow> check_reference conns u c ConnectionNotFound ProviderMismatch oauth))"

end
