(* ===== verification/InstanceRouting.thy ===== *)
theory InstanceRouting
  imports ConnectorInstances
begin

text \<open>
  The instance an action runs with: \<^verbatim>\<open>applyConnectorInstanceToAction\<close> (\<^verbatim>\<open>api/agent_approvals_instance.go\<close>) reads and removes
  the agent's selector and freezes the instance on the action; \<^verbatim>\<open>api/connector_instance_scope.go\<close> and
  \<^verbatim>\<open>api/standing_approval_request_instance.go\<close> resolve the scope of a standing approval. A Go map of raw messages is a
  \<open>json gomap\<close>; its encoder sorts the keys.
\<close>

section \<open>The instance of an action\<close>

text \<open>\<^verbatim>\<open>strings.SplitN(actionType, ".", 2)\<close> with two parts.\<close>

definition split_action :: "string \<Rightarrow> (string \<times> string) option" where
  "split_action t = (if CHR ''.'' \<in> set t then Some (takeWhile (\<lambda>c. c \<noteq> CHR ''.'') t, tl (dropWhile (\<lambda>c. c \<noteq> CHR ''.'') t)) else None)"

definition connectorIDFromActionType :: "string \<Rightarrow> string option" where
  "connectorIDFromActionType t = (case split_action t of Some (c, _) \<Rightarrow> if c \<noteq> [] then Some c else None | None \<Rightarrow> None)"

text \<open>\<open>BadParams\<close> is the decoding error, which the handler answers with 500; the others are its 400 responses, the second
  and the third with the instances they list.\<close>

datatype routing_error =
    BadParams
  | InstanceAmbiguous "string list"
  | InstanceRequired "(string \<times> string) list"
  | NoSuchInstance
  | NotAConnectorAction

definition selected_instance ::
  "(string \<Rightarrow> bool) \<Rightarrow> wallet \<Rightarrow> links \<Rightarrow> int \<Rightarrow> string \<Rightarrow> string \<Rightarrow> string \<Rightarrow> routing_error + instance_row option" where
  "selected_instance is_uuid w s ag u c selector =
     (case ResolveAgentConnectorInstance is_uuid w (ln_binds s) ag u c selector (ln_rows s) of
        Inl (AmbiguousDisplay ids) \<Rightarrow> Inl (InstanceAmbiguous ids)
      | Inr r \<Rightarrow> Inr r)"

definition choose_instance ::
  "(string \<Rightarrow> bool) \<Rightarrow> wallet \<Rightarrow> links \<Rightarrow> int \<Rightarrow> string \<Rightarrow> string \<Rightarrow> string \<Rightarrow> routing_error + instance_row option" where
  "choose_instance is_uuid w s ag u c selector =
     (case ListAgentConnectorInstances ag u c (ln_rows s) of
        [] \<Rightarrow> Inr None
      | [only] \<Rightarrow>
          if selector = [] then Inr (Some only)
          else (case selected_instance is_uuid w s ag u c selector of
              Inl e \<Rightarrow> Inl e
            | Inr None \<Rightarrow> Inl NoSuchInstance
            | Inr (Some r) \<Rightarrow> if ci_id r \<noteq> ci_id only then Inl NoSuchInstance else Inr (Some r))
      | rs \<Rightarrow>
          if selector = []
          then (case GetDefaultAgentConnectorInstance ag u c (ln_rows s) of
              Some r \<Rightarrow> Inr (Some r)
            | None \<Rightarrow> Inl (InstanceRequired (map (\<lambda>r. (ci_id r, display_of w (ln_binds s) r)) rs)))
          else (case selected_instance is_uuid w s ag u c selector of
              Inl e \<Rightarrow> Inl e
            | Inr None \<Rightarrow> Inl NoSuchInstance
            | Inr (Some r) \<Rightarrow> Inr (Some r)))"

text \<open>The parameters: \<open>Inr None\<close> is a nil map (no parameters, or \<^verbatim>\<open>null\<close>).\<close>

definition action_params :: "json gomap \<Rightarrow> unit + json gomap option" where
  "action_params obj =
     (case map_of obj ''parameters'' of
        None \<Rightarrow> Inr None
      | Some j \<Rightarrow> if j = JNull then Inr None else (case json_map j of None \<Rightarrow> Inl () | Some m \<Rightarrow> Inr (Some m)))"

text \<open>Taking the selector out of the parameters: the selector (empty for one that is not a string) and the action, whose
  parameters are written back without it.\<close>

definition take_selector :: "json gomap option \<Rightarrow> json gomap \<Rightarrow> string \<times> json gomap" where
  "take_selector params obj =
     (case params of
        None \<Rightarrow> ([], obj)
      | Some m \<Rightarrow> (case map_of m ''connector_instance'' of
          None \<Rightarrow> ([], obj)
        | Some j \<Rightarrow> (trim_space (or_empty (json_string j)),
            AList.update ''parameters'' (JObj (sort_key fst (AList.delete ''connector_instance'' m))) obj)))"

definition applyConnectorInstanceToAction ::
  "(string \<Rightarrow> bool) \<Rightarrow> wallet \<Rightarrow> links \<Rightarrow> int \<Rightarrow> string \<Rightarrow> string \<Rightarrow> json gomap \<Rightarrow> json gomap \<times> (routing_error + string)" where
  "applyConnectorInstanceToAction is_uuid w s ag u actionType obj =
     (case split_action actionType of
        None \<Rightarrow> (obj, Inr [])
      | Some (c, _) \<Rightarrow>
          (case action_params obj of
             Inl _ \<Rightarrow> (obj, Inl BadParams)
           | Inr params \<Rightarrow>
               (case take_selector params obj of (selector, obj') \<Rightarrow>
                  (case choose_instance is_uuid w s ag u c selector of
                     Inl e \<Rightarrow> (obj', Inl e)
                   | Inr None \<Rightarrow> (obj', Inr [])
                   | Inr (Some r) \<Rightarrow>
                       (AList.update ''_connector_instance_display'' (JStr (display_of w (ln_binds s) r))
                          (AList.update ''_connector_instance_id'' (JStr (ci_id r)) obj'), Inr (ci_id r))))))"

section \<open>The instance an approved action runs with\<close>

text \<open>\<^verbatim>\<open>executeApprovalAction\<close> reads the id back from the stored action.\<close>

definition routed_instance :: "json gomap \<Rightarrow> string" where
  "routed_instance obj = (case map_of obj ''_connector_instance_id'' of None \<Rightarrow> [] | Some j \<Rightarrow> or_empty (json_string j))"

section \<open>The scope of a standing approval\<close>

definition resolveConnectorInstanceForStandingApprovalRequest ::
  "(string \<Rightarrow> bool) \<Rightarrow> wallet \<Rightarrow> links \<Rightarrow> int \<Rightarrow> string \<Rightarrow> string \<Rightarrow> string \<Rightarrow> routing_error + (string \<times> string option) option" where
  "resolveConnectorInstanceForStandingApprovalRequest is_uuid w s ag u actionType selector0 =
     (let selector = trim_space selector0
      in if selector = [] then Inr None
         else (case connectorIDFromActionType actionType of
             None \<Rightarrow> Inl NotAConnectorAction
           | Some c \<Rightarrow> (case selected_instance is_uuid w s ag u c selector of
               Inl e \<Rightarrow> Inl e
             | Inr None \<Rightarrow> Inl NoSuchInstance
             | Inr (Some r) \<Rightarrow> (let display = trim_space (display_of w (ln_binds s) r)
                 in Inr (Some (ci_id r, if display \<noteq> [] then Some display else None))))))"

definition fixedConnectorInstanceSelector :: "raw \<Rightarrow> string" where
  "fixedConnectorInstanceSelector parameters =
     (case unmarshal json_map parameters of
        None \<Rightarrow> []
      | Some params \<Rightarrow> (case map_of params ''connector_instance'' of
          None \<Rightarrow> []
        | Some j \<Rightarrow> if IsWildcard (Doc j) \<or> IsPattern (Doc j) then []
            else (case json_string j of None \<Rightarrow> [] | Some selector \<Rightarrow> trim_space selector)))"

definition resolveConnectorInstanceIDFromConfigParameters ::
  "(string \<Rightarrow> bool) \<Rightarrow> wallet \<Rightarrow> links \<Rightarrow> int \<Rightarrow> string \<Rightarrow> string \<Rightarrow> raw \<Rightarrow> routing_error + string option" where
  "resolveConnectorInstanceIDFromConfigParameters is_uuid w s ag u c parameters =
     (let selector = fixedConnectorInstanceSelector parameters
      in if selector = [] then Inr None
         else (case selected_instance is_uuid w s ag u c selector of
             Inl e \<Rightarrow> Inl e
           | Inr None \<Rightarrow> Inl NoSuchInstance
           | Inr (Some r) \<Rightarrow> Inr (Some (ci_id r))))"

definition connectorInstanceIDPtrDifferent :: "string option \<Rightarrow> string option \<Rightarrow> bool" where
  "connectorInstanceIDPtrDifferent a b =
     (case (a, b) of (None, None) \<Rightarrow> False | (Some x, Some y) \<Rightarrow> x \<noteq> y | _ \<Rightarrow> True)"

definition connectorInstanceScopeChanged ::
  "(string \<Rightarrow> bool) \<Rightarrow> wallet \<Rightarrow> links \<Rightarrow> int \<Rightarrow> string \<Rightarrow> string \<Rightarrow> raw \<Rightarrow> raw \<Rightarrow> routing_error + bool" where
  "connectorInstanceScopeChanged is_uuid w s ag u c oldParams newParams =
     (case resolveConnectorInstanceIDFromConfigParameters is_uuid w s ag u c oldParams of
        Inl e \<Rightarrow> Inl e
      | Inr oldID \<Rightarrow> (case resolveConnectorInstanceIDFromConfigParameters is_uuid w s ag u c newParams of
          Inl e \<Rightarrow> Inl e
        | Inr newID \<Rightarrow> Inr (connectorInstanceIDPtrDifferent oldID newID)))"

definition validateStandingApprovalConnectorInstanceID :: "standing \<Rightarrow> string \<Rightarrow> string option \<Rightarrow> instance_row list \<Rightarrow> routing_error option" where
  "validateStandingApprovalConnectorInstanceID g u instance_id rows =
     (case instance_id of
        None \<Rightarrow> None
      | Some i \<Rightarrow> (case connectorIDFromActionType (sa_action g) of
          None \<Rightarrow> Some NotAConnectorAction
        | Some c \<Rightarrow> (case GetAgentConnectorInstance (sa_agent g) u c i rows of None \<Rightarrow> Some NoSuchInstance | Some r \<Rightarrow> None)))"

end
