(* ===== verification/ConnectorLifecycle.thy ===== *)
theory ConnectorLifecycle
  imports InstanceRouting
begin

text \<open>
  Runs of the connector tables: whatever order the handlers' statements run in, an agent has exactly one default
  instance per enabled connector, and every credential binding refers to an instance and to a credential of the
  approver for that connector. Then what follows for the instance an action runs with, what deleting and disabling leave
  behind, and the two ways of naming an account.
\<close>

section \<open>Steps\<close>

text \<open>An agent has one approver, for good: \<open>owner\<close>; the table of agents at any moment is part of it. A credential's owner
  and service do not change either. The checks of a handler hold when they are made, its write comes later.\<close>

definition agents_of :: "(int \<Rightarrow> string option) \<Rightarrow> (int \<Rightarrow> string \<Rightarrow> bool) \<Rightarrow> bool" where
  "agents_of owner owns \<longleftrightarrow> (\<forall>a u. owns a u \<longrightarrow> owner a = Some u)"

definition links_start :: "links \<Rightarrow> bool" where
  "links_start s \<longleftrightarrow> ln_rows s = [] \<and> ln_binds s = []"

inductive links_step ::
  "(int \<Rightarrow> string option) \<Rightarrow> (string \<Rightarrow> (string \<times> string) option) \<Rightarrow> (string \<Rightarrow> (string \<times> string) option) \<Rightarrow> links \<Rightarrow> links \<Rightarrow> bool"
  for owner creds conns where
  enable: "agents_of owner owns \<Longrightarrow> EnableAgentConnector now owns known io_ok i ag u c (ln_rows s) = (rows', r) \<Longrightarrow>
     links_step owner creds conns s (s\<lparr>ln_rows := rows'\<rparr>)"
| add: "agents_of owner owns \<Longrightarrow> create_instance_insert now owns known io_ok i ag u c (ln_rows s) = (rows', r) \<Longrightarrow>
     links_step owner creds conns s (s\<lparr>ln_rows := rows'\<rparr>)"
| disable: "DisableAgentConnector now actions io_ok ag u c s = (s', r) \<Longrightarrow> links_step owner creds conns s s'"
| set_default: "SetDefaultAgentConnectorInstance True ag u c i (ln_rows s) = (rows', r) \<Longrightarrow>
     links_step owner creds conns s (s\<lparr>ln_rows := rows'\<rparr>)"
| delete_one: "DeleteAgentConnectorInstance now io_ok ag u c i s = (s', r) \<Longrightarrow> links_step owner creds conns s s'"
| assign: "validateAssignCredentialRequest creds conns (bp_approver p) (bp_connector p) (bp_credential p) (bp_oauth p) = None \<Longrightarrow>
     UpsertAgentConnectorCredentialByInstance now io_ok p s = (s', r) \<Longrightarrow> links_step owner creds conns s s'"
| assign_default: "validateAssignCredentialRequest creds conns u c cred oauth = None \<Longrightarrow>
     UpsertAgentConnectorCredential now io_ok bid ag c u cred oauth s = (s', r) \<Longrightarrow> links_step owner creds conns s s'"
| unassign: "DeleteAgentConnectorCredentialByInstance ag u c i s = (s', r) \<Longrightarrow> links_step owner creds conns s s'"
| unassign_default: "DeleteAgentConnectorCredential ag u c s = (s', r) \<Longrightarrow> links_step owner creds conns s s'"
| grants_change: "links_step owner creds conns s (s\<lparr>ln_grants := g\<rparr>)"

section \<open>The invariant\<close>

definition instance_id :: "instance_row \<Rightarrow> int \<times> string \<times> string \<times> string" where
  "instance_id r = (ci_agent r, ci_approver r, ci_connector r, ci_id r)"

definition one_default :: "instance_row list \<Rightarrow> bool" where
  "one_default rows \<longleftrightarrow> (\<forall>r \<in> set rows. length (filter (is_default_of (ci_agent r) (ci_connector r)) rows) = 1)"

definition rows_inv :: "(int \<Rightarrow> string option) \<Rightarrow> instance_row list \<Rightarrow> bool" where
  "rows_inv owner rows \<longleftrightarrow> distinct (map instance_id rows) \<and> (\<forall>r \<in> set rows. owner (ci_agent r) = Some (ci_approver r)) \<and> one_default rows"

definition has_row :: "instance_row list \<Rightarrow> binding \<Rightarrow> bool" where
  "has_row rows b \<longleftrightarrow> (\<exists>r \<in> set rows. bound_to (ci_agent r) (ci_approver r) (ci_connector r) (ci_id r) b)"

definition refers_ok :: "(string \<Rightarrow> (string \<times> string) option) \<Rightarrow> (string \<Rightarrow> (string \<times> string) option) \<Rightarrow> binding \<Rightarrow> bool" where
  "refers_ok creds conns b \<longleftrightarrow>
     validateAssignCredentialRequest creds conns (bd_approver b) (bd_connector b) (bd_credential b) (bd_oauth b) = None"

definition links_inv ::
  "(int \<Rightarrow> string option) \<Rightarrow> (string \<Rightarrow> (string \<times> string) option) \<Rightarrow> (string \<Rightarrow> (string \<times> string) option) \<Rightarrow> links \<Rightarrow> bool" where
  "links_inv owner creds conns s \<longleftrightarrow> rows_inv owner (ln_rows s) \<and> (\<forall>b \<in> set (ln_binds s). has_row (ln_rows s) b \<and> refers_ok creds conns b)"

lemma of_instance_id: "of_instance ag u c i r \<longleftrightarrow> instance_id r = (ag, u, c, i)"
  by (auto simp: of_instance_def of_pair_def instance_id_def)

lemma of_pair_owner: "rows_inv owner rows \<Longrightarrow> r \<in> set rows \<Longrightarrow> of_pair ag u c r \<longleftrightarrow> ci_agent r = ag \<and> ci_connector r = c \<and> owner ag = Some u"
  by (auto simp: rows_inv_def of_pair_def)

lemma default_exists: "one_default rows \<Longrightarrow> r \<in> set rows \<Longrightarrow> list_ex (is_default_of (ci_agent r) (ci_connector r)) rows"
proof (rule ccontr)
  assume one: "one_default rows" "r \<in> set rows" "\<not> list_ex (is_default_of (ci_agent r) (ci_connector r)) rows"
  then have "filter (is_default_of (ci_agent r) (ci_connector r)) rows = []" by (simp add: list_ex_iff filter_empty_conv)
  with one(1,2) show False by (auto simp: one_default_def)
qed

lemma one_instance:
  assumes "distinct (map instance_id rows)" "list_ex (of_instance ag u c i) rows"
  shows "length (filter (of_instance ag u c i) rows) = 1"
proof -
  obtain r where r: "r \<in> set rows" "instance_id r = (ag, u, c, i)" using assms(2) by (auto simp: list_ex_iff of_instance_id)
  have "filter (of_instance ag u c i) rows = filter (\<lambda>x. instance_id x = instance_id r) rows"
    by (rule filter_cong) (simp_all add: of_instance_id r(2))
  moreover have "length (filter (\<lambda>x. instance_id x = instance_id r) rows) = 1" using assms(1) r(1)
    by (induction rows) (auto simp: filter_empty_conv image_iff)
  ultimately show ?thesis by simp
qed

subsection \<open>Inserting\<close>

lemma insert_instance_inv:
  assumes "rows_inv owner rows" "agents_of owner owns" "insert_instance owns known io_ok r rows = (rows', res)"
  shows "rows_inv owner rows' \<and> set rows \<subseteq> set rows'"
proof (cases res)
  case (Inl e)
  then have "rows' = rows" using assms(3) by (auto simp: insert_instance_def split: if_splits)
  then show ?thesis using assms(1) by simp
next
  case (Inr x)
  let ?r = "with_trigger r rows"
  have new: "rows' = ?r # rows" and fresh: "\<not> list_ex (of_instance (ci_agent r) (ci_approver r) (ci_connector r) (ci_id r)) rows"
    and unique: "ci_default r \<Longrightarrow> \<not> list_ex (is_default_of (ci_agent r) (ci_connector r)) rows" and owns: "owns (ci_agent r) (ci_approver r)"
    using assms(3) Inr by (auto simp: insert_instance_def split: if_splits)
  have key: "ci_agent ?r = ci_agent r" "ci_approver ?r = ci_approver r" "ci_connector ?r = ci_connector r" "instance_id ?r = instance_id r"
    by (simp_all add: with_trigger_def instance_id_def)
  have "instance_id r \<notin> instance_id ` set rows" using fresh by (auto simp: list_ex_iff of_instance_id instance_id_def)
  then have distinct: "distinct (map instance_id rows')" using assms(1) by (simp add: new key rows_inv_def)
  have owner: "\<forall>x \<in> set rows'. owner (ci_agent x) = Some (ci_approver x)"
    using assms(1,2) owns by (auto simp: new key rows_inv_def agents_of_def)
  have old: "one_default rows" using assms(1) by (simp add: rows_inv_def)
  have "one_default rows'" unfolding one_default_def
  proof
    fix x assume x: "x \<in> set rows'"
    show "length (filter (is_default_of (ci_agent x) (ci_connector x)) rows') = 1"
    proof (cases "list_ex (is_default_of (ci_agent r) (ci_connector r)) rows")
      case True
      then have nd: "?r = r" "\<not> ci_default r" using unique by (auto simp: with_trigger_def)
      obtain d where d: "d \<in> set rows" "is_default_of (ci_agent r) (ci_connector r) d" using True by (auto simp: list_ex_iff)
      have "length (filter (is_default_of (ci_agent x) (ci_connector x)) rows) = 1"
      proof (cases "x \<in> set rows")
        case False
        with x new nd have "x = r" by simp
        with d old show ?thesis by (auto simp: one_default_def is_default_of_def)
      qed (use old in \<open>simp add: one_default_def\<close>)
      then show ?thesis by (simp add: new nd is_default_of_def)
    next
      case False
      have none: "\<not> (ci_agent y = ci_agent r \<and> ci_connector y = ci_connector r)" if "y \<in> set rows" for y
        using default_exists [OF old that] False by auto
      have d: "ci_default ?r" using False by (simp add: with_trigger_def)
      show ?thesis
      proof (cases "x \<in> set rows")
        case True
        with old have "length (filter (is_default_of (ci_agent x) (ci_connector x)) rows) = 1" by (simp add: one_default_def)
        moreover have "\<not> is_default_of (ci_agent x) (ci_connector x) ?r" using none [OF True] by (auto simp: is_default_of_def key)
        ultimately show ?thesis by (simp add: new)
      next
        case False
        with x new have "x = ?r" by simp
        moreover have "filter (is_default_of (ci_agent r) (ci_connector r)) rows = []"
          using none by (auto simp: filter_empty_conv is_default_of_def)
        ultimately show ?thesis using d by (simp add: new key) (simp add: is_default_of_def key)
      qed
    qed
  qed
  with distinct owner show ?thesis by (auto simp: rows_inv_def new)
qed

lemma enable_inv:
  assumes "rows_inv owner rows" "agents_of owner owns" "EnableAgentConnector now owns known io_ok i ag u c rows = (rows', res)"
  shows "rows_inv owner rows' \<and> set rows \<subseteq> set rows'"
proof (cases "rows' = rows")
  case False
  then obtain r where "insert_instance owns known io_ok \<lparr>ci_agent = ag, ci_approver = u, ci_connector = c, ci_id = i,
      ci_enabled = sql_now now, ci_default = True\<rparr> rows = (rows', Inr r)"
    using assms(3) by (auto simp: EnableAgentConnector_def Let_def split: if_splits prod.splits sum.splits violation.splits)
  with insert_instance_inv assms show ?thesis by blast
qed (use assms(1) in simp)

subsection \<open>Deleting\<close>

lemma filter_distinct_key: "distinct (map f xs) \<Longrightarrow> distinct (map f (filter p xs))"
  by (simp add: distinct_map inj_on_def)

text \<open>Deleting rows keeps the count of defaults of a pair when it deletes all of the pair's rows or none of its defaults.\<close>

lemma delete_inv:
  assumes "rows_inv owner rows"
    and "\<And>r x. r \<in> set rows \<Longrightarrow> \<not> p r \<Longrightarrow> x \<in> set rows \<Longrightarrow> p x \<Longrightarrow> \<not> is_default_of (ci_agent r) (ci_connector r) x"
  shows "rows_inv owner (filter (\<lambda>r. \<not> p r) rows)"
proof -
  have "length (filter (is_default_of (ci_agent r) (ci_connector r)) (filter (\<lambda>r. \<not> p r) rows)) = 1" if r: "r \<in> set rows" "\<not> p r" for r
  proof -
    have "filter (is_default_of (ci_agent r) (ci_connector r)) (filter (\<lambda>r. \<not> p r) rows) = filter (is_default_of (ci_agent r) (ci_connector r)) rows"
      unfolding filter_filter by (rule filter_cong [OF refl]) (use assms(2) [OF r] in blast)
    then show ?thesis using assms(1) r(1) by (simp add: rows_inv_def one_default_def)
  qed
  with assms(1) show ?thesis by (simp add: rows_inv_def one_default_def filter_distinct_key)
qed

lemma delete_pair_inv:
  assumes "rows_inv owner rows"
  shows "rows_inv owner (filter (\<lambda>r. \<not> of_pair ag u c r) rows)"
proof (rule delete_inv [OF assms])
  fix r x assume "r \<in> set rows" "\<not> of_pair ag u c r" "x \<in> set rows" "of_pair ag u c x"
  then show "\<not> is_default_of (ci_agent r) (ci_connector r) x"
    using of_pair_owner [OF assms, of r ag u c] of_pair_owner [OF assms, of x ag u c] by (auto simp: is_default_of_def)
qed

lemma delete_instance_inv:
  assumes "rows_inv owner rows" "find (of_instance ag u c i) rows = Some d" "\<not> ci_default d"
  shows "rows_inv owner (filter (\<lambda>r. \<not> of_instance ag u c i r) rows)"
proof (rule delete_inv [OF assms(1)])
  fix r x assume "x \<in> set rows" "of_instance ag u c i x"
  moreover have "d \<in> set rows" "of_instance ag u c i d" using find_SomeD [OF assms(2)] by auto
  ultimately have "x = d"
    using assms(1) key_unique [of instance_id rows x d] by (simp add: rows_inv_def of_instance_id)
  then show "\<not> is_default_of (ci_agent r) (ci_connector r) x" using assms(3) by (simp add: is_default_of_def)
qed

lemma delete_rows_inv:
  assumes "links_inv owner creds conns s" "rows_inv owner (filter (\<lambda>r. \<not> p r) (ln_rows s))"
  shows "links_inv owner creds conns ((delete_rows p s)\<lparr>ln_grants := g\<rparr>)"
proof -
  have "has_row (filter (\<lambda>r. \<not> p r) (ln_rows s)) b \<and> refers_ok creds conns b" if "b \<in> set (ln_binds (delete_rows p s))" for b
  proof -
    from that have b: "b \<in> set (ln_binds s)"
      and "\<not> (\<exists>r \<in> set (ln_rows s). p r \<and> bound_to (ci_agent r) (ci_approver r) (ci_connector r) (ci_id r) b)"
      by (simp_all add: delete_rows_def list_ex_iff)
    moreover have "has_row (ln_rows s) b \<and> refers_ok creds conns b" using assms(1) b by (simp add: links_inv_def)
    ultimately show ?thesis by (auto simp: has_row_def)
  qed
  then show ?thesis using assms(2) by (simp add: links_inv_def) (simp add: delete_rows_def)
qed

subsection \<open>The default\<close>

definition defaulted :: "int \<Rightarrow> string \<Rightarrow> string \<Rightarrow> string \<Rightarrow> instance_row \<Rightarrow> instance_row" where
  "defaulted ag u c i r = (if of_pair ag u c r then r\<lparr>ci_default := (ci_id r = i)\<rparr> else r)"

lemma defaulted_same [simp]: "ci_agent (defaulted ag u c i r) = ci_agent r" "ci_approver (defaulted ag u c i r) = ci_approver r"
    "ci_connector (defaulted ag u c i r) = ci_connector r" "ci_id (defaulted ag u c i r) = ci_id r"
    "instance_id (defaulted ag u c i r) = instance_id r" "of_pair a v d (defaulted ag u c i r) = of_pair a v d r"
  by (simp_all add: defaulted_def instance_id_def of_pair_def)

lemma mark_default_map: "mark_default ag u c i (clear_defaults ag u c i rows) = map (defaulted ag u c i) rows"
  by (auto simp: mark_default_def clear_defaults_def update_where_def of_instance_def defaulted_def of_pair_def)

lemma defaulted_inv:
  assumes inv: "rows_inv owner rows" and ex: "list_ex (of_instance ag u c i) rows"
  shows "rows_inv owner (map (defaulted ag u c i) rows)"
proof -
  let ?f = "defaulted ag u c i"
  have u: "owner ag = Some u" using ex inv by (auto simp: list_ex_iff of_instance_def of_pair_def rows_inv_def)
  have "length (filter (is_default_of a d) (map ?f rows)) = length (filter (if a = ag \<and> d = c then of_instance ag u c i else is_default_of a d) rows)" for a d
  proof -
    have "(is_default_of a d \<circ> ?f) r \<longleftrightarrow> (if a = ag \<and> d = c then of_instance ag u c i else is_default_of a d) r" if "r \<in> set rows" for r
      using of_pair_owner [OF inv that, of ag u c] u by (auto simp: is_default_of_def of_instance_def defaulted_def of_pair_def)
    then have "filter (is_default_of a d \<circ> ?f) rows = filter (if a = ag \<and> d = c then of_instance ag u c i else is_default_of a d) rows"
      by (rule filter_cong [OF refl])
    then show ?thesis by (simp only: filter_map length_map)
  qed
  moreover have "length (filter (of_instance ag u c i) rows) = 1"
    using one_instance [OF _ ex] inv by (simp add: rows_inv_def)
  moreover have "distinct (map instance_id (map ?f rows))" using inv by (simp add: rows_inv_def comp_def)
  ultimately show ?thesis using inv by (simp add: rows_inv_def one_default_def)
qed

lemma set_default_inv:
  assumes "rows_inv owner rows" "SetDefaultAgentConnectorInstance True ag u c i rows = (rows', r)"
  shows "rows_inv owner rows' \<and> instance_id ` set rows' = instance_id ` set rows"
  using assms defaulted_inv [OF assms(1), of ag u c i]
  by (auto simp: SetDefaultAgentConnectorInstance_def Let_def mark_default_map image_image split: if_splits)

lemma has_row_iff: "has_row rows b \<longleftrightarrow> (bd_agent b, bd_approver b, bd_connector b, bd_instance b) \<in> instance_id ` set rows"
  by (auto simp: has_row_def bound_to_def instance_id_def image_iff)

lemma has_row_ids: "instance_id ` set rows = instance_id ` set rows' \<Longrightarrow> has_row rows b = has_row rows' b"
  by (simp add: has_row_iff)

lemma has_row_mono: "set rows \<subseteq> set rows' \<Longrightarrow> has_row rows b \<Longrightarrow> has_row rows' b"
  by (auto simp: has_row_def)

subsection \<open>Bindings\<close>

lemma upsert_inv:
  assumes "links_inv owner creds conns s" "UpsertAgentConnectorCredentialByInstance now io_ok p s = (s', r)"
    and "validateAssignCredentialRequest creds conns (bp_approver p) (bp_connector p) (bp_credential p) (bp_oauth p) = None"
  shows "links_inv owner creds conns s'"
proof -
  let ?new = "new_binding now p"
  have "s' = s \<or> list_ex (of_instance (bp_agent p) (bp_approver p) (bp_connector p) (bp_instance p)) (ln_rows s) \<and>
      ln_rows s' = ln_rows s \<and> (ln_binds s' = update_where (same_slot p) (rebound p) (ln_binds s) \<or> ln_binds s' = ?new # ln_binds s)"
    using assms(2) by (auto simp: UpsertAgentConnectorCredentialByInstance_def split: if_splits option.splits)
  then consider "s' = s"
    | "list_ex (of_instance (bp_agent p) (bp_approver p) (bp_connector p) (bp_instance p)) (ln_rows s)" "ln_rows s' = ln_rows s"
      "ln_binds s' = update_where (same_slot p) (rebound p) (ln_binds s) \<or> ln_binds s' = ?new # ln_binds s" by blast
  then show ?thesis
  proof cases
    case 2
    have ok: "has_row (ln_rows s) b \<and> refers_ok creds conns b"
      if "bd_agent b = bp_agent p" "bd_connector b = bp_connector p" "bd_instance b = bp_instance p" "bd_approver b = bp_approver p"
        "bd_credential b = bp_credential p" "bd_oauth b = bp_oauth p" for b
    proof
      obtain r where "r \<in> set (ln_rows s)" "instance_id r = (bp_agent p, bp_approver p, bp_connector p, bp_instance p)"
        using 2(1) by (auto simp: list_ex_iff of_instance_id)
      then show "has_row (ln_rows s) b" unfolding has_row_iff that by force
      show "refers_ok creds conns b" using assms(3) by (simp add: refers_ok_def that)
    qed
    have "has_row (ln_rows s) b \<and> refers_ok creds conns b" if b: "b \<in> set (ln_binds s')" for b
    proof (cases "b \<in> set (ln_binds s)")
      case False
      with b 2(3) have "b = ?new \<or> (\<exists>b0. same_slot p b0 \<and> b = rebound p b0)" by (auto simp: set_update_where split: if_splits)
      then show ?thesis using ok [of b] by (auto simp: new_binding_def rebound_def same_slot_def)
    qed (use assms(1) in \<open>simp add: links_inv_def\<close>)
    with assms(1) 2(2) show ?thesis by (simp add: links_inv_def)
  qed (use assms(1) in simp)
qed

lemma links_step_inv: "links_step owner creds conns s t \<Longrightarrow> links_inv owner creds conns s \<Longrightarrow> links_inv owner creds conns t"
proof (induction rule: links_step.induct)
  case (enable owns now known io_ok i ag u c s rows' r)
  then have "rows_inv owner rows' \<and> set (ln_rows s) \<subseteq> set rows'" using enable_inv unfolding links_inv_def by blast
  with enable(3) show ?case using has_row_mono by (auto simp: links_inv_def)
next
  case (add owns now known io_ok i ag u c s rows' r)
  then have "rows_inv owner rows' \<and> set (ln_rows s) \<subseteq> set rows'"
    using insert_instance_inv unfolding create_instance_insert_def links_inv_def by blast
  with add(3) show ?case using has_row_mono by (auto simp: links_inv_def)
next
  case (disable now actions io_ok ag u c s s' r)
  show ?case
  proof (cases "s' = s")
    case False
    then obtain g where "s' = (delete_rows (of_pair ag u c) s)\<lparr>ln_grants := g\<rparr>"
      using disable(1) by (auto simp: DisableAgentConnector_def Let_def split: if_splits)
    moreover have "rows_inv owner (filter (\<lambda>r. \<not> of_pair ag u c r) (ln_rows s))"
      using delete_pair_inv disable(2) by (simp add: links_inv_def)
    ultimately show ?thesis using delete_rows_inv [OF disable(2)] by simp
  qed (use disable(2) in simp)
next
  case (set_default ag u c i s rows' r)
  with set_default_inv [of owner "ln_rows s" ag u c i rows' r]
  have "rows_inv owner rows' \<and> instance_id ` set rows' = instance_id ` set (ln_rows s)" by (simp add: links_inv_def)
  with set_default(2) has_row_ids [of rows' "ln_rows s"] show ?case by (simp add: links_inv_def)
next
  case (delete_one now io_ok ag u c i s s' r)
  show ?case
  proof (cases "s' = s")
    case False
    then obtain d g where d: "find (of_instance ag u c i) (ln_rows s) = Some d" "\<not> ci_default d"
      and s': "s' = (delete_rows (of_instance ag u c i) s)\<lparr>ln_grants := g\<rparr>"
      using delete_one(1) by (auto simp: DeleteAgentConnectorInstance_def split: option.splits if_splits)
    have "rows_inv owner (filter (\<lambda>r. \<not> of_instance ag u c i r) (ln_rows s))"
      using delete_instance_inv [OF _ d] delete_one(2) by (simp add: links_inv_def)
    then show ?thesis using delete_rows_inv [OF delete_one(2)] by (simp add: s')
  qed (use delete_one(2) in simp)
next
  case (assign p now io_ok s s' r)
  show ?case by (rule upsert_inv [OF assign(3,2,1)])
next
  case (assign_default u c cred oauth now io_ok bid ag s s' r)
  show ?case
  proof (cases "s' = s")
    case False
    then obtain i r' where up: "UpsertAgentConnectorCredentialByInstance now io_ok
        \<lparr>bp_id = bid, bp_agent = ag, bp_connector = c, bp_instance = i, bp_approver = u, bp_credential = cred, bp_oauth = oauth\<rparr> s = (s', r')"
      using assign_default(2) by (auto simp: UpsertAgentConnectorCredential_def split: option.splits prod.splits)
    show ?thesis by (rule upsert_inv [OF assign_default(3) up]) (use assign_default(1) in simp)
  qed (use assign_default(3) in simp)
next
  case (unassign ag u c i s s' r)
  then show ?case by (auto simp: DeleteAgentConnectorCredentialByInstance_def links_inv_def)
next
  case (unassign_default ag u c s s' r)
  then show ?case by (auto simp: DeleteAgentConnectorCredential_def DeleteAgentConnectorCredentialByInstance_def links_inv_def split: option.splits)
qed (simp add: links_inv_def)

interpretation links: system links_start "links_step owner creds conns" "links_inv owner creds conns" "\<lambda>s t. True" for owner creds conns
proof unfold_locales
  show "links_start s \<Longrightarrow> links_inv owner creds conns s" for s by (simp add: links_start_def links_inv_def rows_inv_def one_default_def)
  show "links_inv owner creds conns s \<Longrightarrow> links_step owner creds conns s t \<Longrightarrow> links_inv owner creds conns t" for s t
    by (rule links_step_inv)
qed simp_all

section \<open>One default\<close>

lemma pair_default:
  assumes "rows_inv owner rows" "r \<in> set rows"
  shows "\<exists>d \<in> set rows. of_pair (ci_agent r) (ci_approver r) (ci_connector r) d \<and> ci_default d \<and>
    (\<forall>e \<in> set rows. is_default_of (ci_agent r) (ci_connector r) e \<longrightarrow> e = d)"
proof -
  have "length (filter (is_default_of (ci_agent r) (ci_connector r)) rows) = 1" using assms by (simp add: rows_inv_def one_default_def)
  then obtain d where d: "filter (is_default_of (ci_agent r) (ci_connector r)) rows = [d]" by (auto simp: length_Suc_conv)
  have "{e \<in> set rows. is_default_of (ci_agent r) (ci_connector r) e} = {d}" unfolding set_filter [symmetric] d by simp
  then have in_d: "e \<in> set rows \<and> is_default_of (ci_agent r) (ci_connector r) e \<longleftrightarrow> e = d" for e by blast
  then have dd: "d \<in> set rows" "is_default_of (ci_agent r) (ci_connector r) d" by blast+
  have "owner (ci_agent r) = Some (ci_approver r)" using assms by (simp add: rows_inv_def)
  then have "of_pair (ci_agent r) (ci_approver r) (ci_connector r) d"
    using of_pair_owner [OF assms(1) dd(1)] dd(2) by (simp add: is_default_of_def)
  with dd in_d show ?thesis by (auto simp: is_default_of_def)
qed

lemma enabled_default:
  assumes "rows_inv owner rows" "AgentConnectorEnabled ag u c rows"
  obtains d where "GetDefaultAgentConnectorInstance ag u c rows = Some d" "d \<in> set rows" "of_pair ag u c d" "ci_default d"
proof -
  obtain r where r: "r \<in> set rows" "of_pair ag u c r" using assms(2) by (auto simp: AgentConnectorEnabled_def list_ex_iff)
  with pair_default [OF assms(1) r(1)] obtain e where e: "e \<in> set rows" "of_pair ag u c e" "ci_default e" by (auto simp: of_pair_def)
  then obtain d where d: "GetDefaultAgentConnectorInstance ag u c rows = Some d"
    unfolding GetDefaultAgentConnectorInstance_def using find_NoneD [of "\<lambda>r. of_pair ag u c r \<and> ci_default r" rows e] by fastforce
  with find_SomeD [of "\<lambda>r. of_pair ag u c r \<and> ci_default r" rows d] show ?thesis
    by (intro that [OF d]) (simp_all add: GetDefaultAgentConnectorInstance_def)
qed

text \<open>C13: In every reachable state an agent that has a connector enabled has exactly one default instance of it, its approver's, also
  when enabling, adding, deleting and changing the default interleave.\<close>

theorem connector_has_one_default:
  assumes "reach links_start (links_step owner creds conns) s" "r \<in> set (ln_rows s)"
  shows "\<exists>d \<in> set (ln_rows s). of_pair (ci_agent r) (ci_approver r) (ci_connector r) d \<and> ci_default d \<and>
    (\<forall>e \<in> set (ln_rows s). is_default_of (ci_agent r) (ci_connector r) e \<longrightarrow> e = d)"
  using pair_default [of owner "ln_rows s" r] links.invariant [OF assms(1)] assms(2) by (simp add: links_inv_def)


section \<open>The instance an action runs with\<close>

lemma split_action_dot: "CHR ''.'' \<notin> set c \<Longrightarrow> split_action (c @ CHR ''.'' # a) = Some (c, a)"
  by (induction c) (auto simp: split_action_def)

lemma mem_listed: "set (ListAgentConnectorInstances ag u c rows) = {r \<in> set rows. of_pair ag u c r}"
  by (simp add: ListAgentConnectorInstances_def)

lemma enabled_listed: "AgentConnectorEnabled ag u c rows \<longleftrightarrow> ListAgentConnectorInstances ag u c rows \<noteq> []"
  using mem_listed [of ag u c rows] by (auto simp: AgentConnectorEnabled_def list_ex_iff simp flip: set_empty)

lemma resolve_sound:
  assumes "ResolveAgentConnectorInstance is_uuid w binds ag u c sel rows = Inr (Some r)"
  shows "r \<in> set rows \<and> of_pair ag u c r"
proof -
  define named where "named = sort_key ci_id (filter (\<lambda>r. of_pair ag u c r \<and> display_of w binds r = trim_space sel) rows)"
  have "set named \<subseteq> {r \<in> set rows. of_pair ag u c r}" by (auto simp: named_def)
  moreover have "r \<in> set named \<or> GetAgentConnectorInstance ag u c (trim_space sel) rows = Some r"
    using assms by (auto simp: ResolveAgentConnectorInstance_def Let_def simp flip: named_def split: if_splits list.splits)
  ultimately show ?thesis using find_SomeD [of "of_instance ag u c (trim_space sel)" rows r]
    by (auto simp: GetAgentConnectorInstance_def of_instance_def)
qed

lemma choose_sound:
  assumes "choose_instance is_uuid w s ag u c sel = Inr (Some r)"
  shows "r \<in> set (ln_rows s) \<and> of_pair ag u c r"
proof -
  have "r \<in> set (ListAgentConnectorInstances ag u c (ln_rows s)) \<or> GetDefaultAgentConnectorInstance ag u c (ln_rows s) = Some r \<or>
      ResolveAgentConnectorInstance is_uuid w (ln_binds s) ag u c sel (ln_rows s) = Inr (Some r)"
    using assms by (auto simp: choose_instance_def selected_instance_def split: list.splits if_splits option.splits sum.splits ambiguous.splits)
  then show ?thesis using mem_listed [of ag u c "ln_rows s"] resolve_sound [of is_uuid w "ln_binds s" ag u c sel "ln_rows s" r]
      find_SomeD [of "\<lambda>r. of_pair ag u c r \<and> ci_default r" "ln_rows s" r]
    by (auto simp: GetDefaultAgentConnectorInstance_def)
qed

lemma choose_none: "choose_instance is_uuid w s ag u c sel = Inr None \<Longrightarrow> \<not> AgentConnectorEnabled ag u c (ln_rows s)"
  unfolding enabled_listed choose_instance_def
  by (auto split: list.splits if_splits option.splits sum.splits)

lemma map_of_updates:
  "map_of (AList.update k v (AList.update k' v' m)) = (map_of m)(k' \<mapsto> v', k \<mapsto> v)"
  by (simp add: update_conv')

lemma take_selector_routed: "take_selector params obj = (sel, obj') \<Longrightarrow> routed_instance obj' = routed_instance obj"
  by (auto simp: take_selector_def routed_instance_def update_conv' split: option.splits)

lemma take_selector_gone:
  assumes "action_params obj = Inr params" "take_selector params obj = (sel, obj')" "action_params obj' = Inr (Some m)"
  shows "map_of m ''connector_instance'' = None"
proof (cases "\<exists>p j. params = Some p \<and> map_of p ''connector_instance'' = Some j")
  case True
  then obtain p j where p: "params = Some p" "map_of p ''connector_instance'' = Some j" by blast
  then have m: "m = last_wins (sort_key fst (AList.delete ''connector_instance'' p))"
    using assms by (auto simp: take_selector_def action_params_def update_conv')
  have "''connector_instance'' \<notin> fst ` set (AList.delete ''connector_instance'' p)"
    using map_of_eq_None_iff [of "AList.delete ''connector_instance'' p" "''connector_instance''"] by (simp add: delete_conv')
  then have "''connector_instance'' \<notin> set (keys (last_wins (sort_key fst (AList.delete ''connector_instance'' p))))"
    by (simp add: set_keys map_of_last_wins dom_map_of_conv_image_fst)
  then show ?thesis by (simp add: m set_keys domIff)
next
  case False
  then show ?thesis using assms by (auto simp: take_selector_def split: option.splits)
qed

text \<open>C15: The action that is stored and later run names the instance the handler chose. With the connector enabled, that is an
  instance of this agent, approver and connector, frozen on the action under \<^verbatim>\<open>_connector_instance_id\<close>, and the
  parameters handed to the connector no longer hold the selector; with the connector not enabled the action keeps
  whatever id it came with.\<close>

theorem action_instance_frozen:
  assumes "applyConnectorInstanceToAction is_uuid w s ag u (c @ ''.'' @ a) obj = (obj', Inr i)" "CHR ''.'' \<notin> set c"
  shows "(if AgentConnectorEnabled ag u c (ln_rows s)
          then list_ex (of_instance ag u c i) (ln_rows s) \<and> routed_instance obj' = i
          else i = [] \<and> routed_instance obj' = routed_instance obj)
    \<and> (\<forall>m. action_params obj' = Inr (Some m) \<longrightarrow> map_of m ''connector_instance'' = None)"
proof -
  obtain params where params: "action_params obj = Inr params"
    using assms by (auto simp: applyConnectorInstanceToAction_def split_action_dot split: sum.splits)
  obtain sel obj1 where taken: "take_selector params obj = (sel, obj1)" by fastforce
  let ?choice = "choose_instance is_uuid w s ag u c sel"
  consider r where "?choice = Inr (Some r)" "i = ci_id r"
      "obj' = AList.update ''_connector_instance_display'' (JStr (display_of w (ln_binds s) r))
        (AList.update ''_connector_instance_id'' (JStr (ci_id r)) obj1)"
    | "?choice = Inr None" "i = []" "obj' = obj1"
    using assms params taken
    by (auto simp: applyConnectorInstanceToAction_def split_action_dot split: sum.splits option.splits)
  then show ?thesis
  proof cases
    case (1 r)
    have r: "r \<in> set (ln_rows s)" "of_pair ag u c r" using choose_sound [OF 1(1)] by simp_all
    then have "AgentConnectorEnabled ag u c (ln_rows s)" "list_ex (of_instance ag u c i) (ln_rows s)"
      by (auto simp: AgentConnectorEnabled_def list_ex_iff of_instance_def 1(2))
    moreover have "routed_instance obj' = i" by (simp add: routed_instance_def 1(2,3) map_of_updates or_empty_def)
    moreover have "action_params obj' = action_params obj1" by (simp add: action_params_def 1(3) map_of_updates)
    ultimately show ?thesis using take_selector_gone [OF params taken] by simp
  next
    case 2
    then show ?thesis using choose_none [OF 2(1)] take_selector_routed [OF taken] take_selector_gone [OF params taken] by simp
  qed
qed

text \<open>A request that does not name an account runs with the default instance. In every reachable state the handler finds it,
  so the answer that asks the agent to name one (more than one instance and no default) never comes.\<close>

theorem unnamed_instance_is_default:
  assumes "reach links_start (links_step owner creds conns) s" "AgentConnectorEnabled ag u c (ln_rows s)" "CHR ''.'' \<notin> set c"
    and "action_params obj = Inr params" "fst (take_selector params obj) = []"
  shows "\<exists>d. GetDefaultAgentConnectorInstance ag u c (ln_rows s) = Some d \<and>
    snd (applyConnectorInstanceToAction is_uuid w s ag u (c @ ''.'' @ a) obj) = Inr (ci_id d)"
proof -
  have inv: "rows_inv owner (ln_rows s)" using links.invariant [OF assms(1)] by (simp add: links_inv_def)
  obtain d where d: "GetDefaultAgentConnectorInstance ag u c (ln_rows s) = Some d" "d \<in> set (ln_rows s)" "of_pair ag u c d"
    using enabled_default [OF inv assms(2)] by metis
  then have listed: "d \<in> set (ListAgentConnectorInstances ag u c (ln_rows s))" by (simp add: mem_listed)
  have "choose_instance is_uuid w s ag u c [] = Inr (Some d)"
  proof (cases "ListAgentConnectorInstances ag u c (ln_rows s)")
    case (Cons only rest)
    then show ?thesis using d(1) listed by (cases rest) (simp_all add: choose_instance_def)
  qed (use listed in simp)
  moreover obtain obj1 where "take_selector params obj = ([], obj1)" using assms(5) by (cases "take_selector params obj") simp
  ultimately show ?thesis using d(1) assms(4) by (simp add: applyConnectorInstanceToAction_def split_action_dot [OF assms(3)])
qed

section \<open>Naming an instance\<close>

text \<open>An account named by its display name is found exactly when one instance of the connector shows that name; two that show it
  are refused with the ids of both.\<close>

theorem display_name_resolves:
  assumes "\<not> is_uuid (trim_space sel)" "trim_space sel \<noteq> []"
    and named: "named = filter (\<lambda>r. of_pair ag u c r \<and> display_of w binds r = trim_space sel) rows"
  shows "ResolveAgentConnectorInstance is_uuid w binds ag u c sel rows =
    (if named = [] then Inr None
     else if length named = 1 then Inr (Some (hd named))
     else Inl (AmbiguousDisplay (sort (map ci_id named))))"
proof -
  have len: "length (sort_key ci_id named) = length named" by simp
  have sorted: "map ci_id (sort_key ci_id named) = sort (map ci_id named)" by (rule properties_for_sort [symmetric]) simp_all
  consider "named = []" | r where "named = [r]" | "2 \<le> length named" by (cases named; cases "tl named") auto
  then show ?thesis
  proof cases
    case 3
    then obtain r r' rest where "sort_key ci_id named = r # r' # rest"
      using len by (cases "sort_key ci_id named"; cases "tl (sort_key ci_id named)") auto
    with 3 sorted assms(1,2) show ?thesis by (auto simp: ResolveAgentConnectorInstance_def Let_def simp flip: named)
  qed (use assms(1,2) in \<open>simp_all add: ResolveAgentConnectorInstance_def Let_def flip: named\<close>)
qed

text \<open>C27: The SQL expression and the Go helper that must stay in sync with it agree on every \<^verbatim>\<open>extra_data\<close> whose values are all
  strings or \<^verbatim>\<open>null\<close>, for a binding without a static credential.\<close>

theorem display_names_agree:
  assumes "distinct (map fst kvs)" "\<forall>j \<in> set (map snd kvs). json_string j \<noteq> None"
  shows "connectorInstanceDisplayNameSQL text None (Some (JObj kvs)) = displayNameFromExtraData (Doc (JObj kvs))"
proof -
  have m: "json_map (JObj kvs) = Some kvs" by (simp add: last_wins_distinct assms(1))
  have "\<exists>vs. decode_all json_string (map snd kvs) = Some vs \<and> (\<forall>k. map_of (zip (map fst kvs) vs) k = Option.bind (map_of kvs k) json_string)"
    using assms(2)
  proof (induction kvs)
    case (Cons kv kvs)
    then obtain vs where "decode_all json_string (map snd kvs) = Some vs" "\<forall>k. map_of (zip (map fst kvs) vs) k = Option.bind (map_of kvs k) json_string"
      by auto
    moreover obtain v where "json_string (snd kv) = Some v" using Cons.prems by auto
    ultimately show ?case by (intro exI [of _ "v # vs"]) (auto simp: fun_eq_iff split: if_splits)
  qed simp
  then obtain vs where vs: "decode_all json_string (map snd kvs) = Some vs"
    "\<And>k. map_of (zip (map fst kvs) vs) k = Option.bind (map_of kvs k) json_string" by blast
  have column: "filled (json_extract text (Some (JObj kvs)) k) \<longleftrightarrow> or_empty (map_of (zip (map fst kvs) vs) k) \<noteq> []"
    "or_empty (map_of (zip (map fst kvs) vs) k) \<noteq> [] \<Longrightarrow> the (json_extract text (Some (JObj kvs)) k) = or_empty (map_of (zip (map fst kvs) vs) k)" for k
  proof -
    have "map_of kvs k = None \<or> map_of kvs k = Some JNull \<or> (\<exists>s. map_of kvs k = Some (JStr s))"
    proof (cases "map_of kvs k")
      case (Some j)
      then have "j \<in> set (map snd kvs)" by (force dest: map_of_SomeD)
      with assms(2) have "json_string j \<noteq> None" by blast
      with Some show ?thesis by (cases j) auto
    qed simp
    then show "filled (json_extract text (Some (JObj kvs)) k) \<longleftrightarrow> or_empty (map_of (zip (map fst kvs) vs) k) \<noteq> []"
      "or_empty (map_of (zip (map fst kvs) vs) k) \<noteq> [] \<Longrightarrow> the (json_extract text (Some (JObj kvs)) k) = or_empty (map_of (zip (map fst kvs) vs) k)"
      by (auto simp: vs(2) json_extract_def filled_def or_empty_def)
  qed
  have "string_map (JObj kvs) = Some (zip (map fst kvs) vs)" by (simp add: string_map_def m vs(1) keys_def del: json_map.simps)
  then show ?thesis
    by (simp add: displayNameFromExtraData_def connectorInstanceDisplayNameSQL_def Let_def column)
qed

text \<open>They differ where some other value of the document is not a string: the helper then decodes nothing.\<close>

lemma display_names_differ:
  "connectorInstanceDisplayNameSQL text None (Some (JObj [(''email'', JStr ''a@b.c''), (''expires_in'', JNum ''3600'')])) = ''a@b.c''"
  "displayNameFromExtraData (Doc (JObj [(''email'', JStr ''a@b.c''), (''expires_in'', JNum ''3600'')])) = []"
  by (simp_all add: connectorInstanceDisplayNameSQL_def json_extract_def filled_def displayNameFromExtraData_def string_map_def
      last_wins_def keys_def)

section \<open>What deleting and disabling leave behind\<close>

lemma find_filter: "(\<And>r. r \<in> set rows \<Longrightarrow> p r \<Longrightarrow> q r) \<Longrightarrow> find p (filter q rows) = find p rows"
  by (induction rows) auto

lemma revoke_where_active: "g \<in> set (revoke_where now p grants) \<Longrightarrow> sa_status g = Active \<Longrightarrow> g \<in> set grants \<and> \<not> p g"
proof -
  assume g: "g \<in> set (revoke_where now p grants)" "sa_status g = Active"
  then obtain h where h: "h \<in> set grants" "g = (if p h \<and> sa_status h = Active then h\<lparr>sa_status := Revoked, sa_revoked_at := Some (sql_now now)\<rparr> else h)"
    by (auto simp: revoke_where_def set_update_where)
  with g(2) show ?thesis by (cases "p h \<and> sa_status h = Active") auto
qed

lemma revoke_where_keeps: "g \<in> set grants \<Longrightarrow> \<not> p g \<Longrightarrow> g \<in> set (revoke_where now p grants)"
  by (auto simp: revoke_where_def set_update_where intro: bexI [of _ g])


text \<open>Deleting an instance that is not the default removes it and its binding and revokes every active standing approval limited to
  it; the default instance is never deleted.\<close>

theorem deleted_instance_is_gone:
  assumes "DeleteAgentConnectorInstance now io_ok ag u c i s = (s', None)" "rows_inv owner (ln_rows s)"
  shows "GetAgentConnectorInstance ag u c i (ln_rows s') = None \<and>
    (\<forall>g \<in> set (ln_grants s'). sa_status g = Active \<longrightarrow> sa_agent g = ag \<longrightarrow> sa_user g = u \<longrightarrow> sa_instance g \<noteq> Some i) \<and>
    GetDefaultAgentConnectorInstance ag u c (ln_rows s') = GetDefaultAgentConnectorInstance ag u c (ln_rows s) \<and>
    {r \<in> set (ln_rows s). ci_default r} \<subseteq> set (ln_rows s')"
proof -
  let ?hit = "\<lambda>g. sa_agent g = ag \<and> sa_user g = u \<and> sa_instance g = Some i"
  obtain d where d: "find (of_instance ag u c i) (ln_rows s) = Some d" "\<not> ci_default d"
    and s': "s' = (delete_rows (of_instance ag u c i) s)\<lparr>ln_grants := revoke_where now ?hit (ln_grants s)\<rparr>"
    using assms(1) by (auto simp: DeleteAgentConnectorInstance_def split: option.splits if_splits)
  have "d \<in> set (ln_rows s)" "of_instance ag u c i d" using find_SomeD [OF d(1)] by simp_all
  then have not_default: "\<not> ci_default r" if "r \<in> set (ln_rows s)" "of_instance ag u c i r" for r
    using key_unique [of instance_id "ln_rows s" r d] assms(2) that d(2) by (simp add: rows_inv_def of_instance_id)
  have "find (\<lambda>r. of_pair ag u c r \<and> ci_default r) (filter (\<lambda>r. \<not> of_instance ag u c i r) (ln_rows s)) =
      find (\<lambda>r. of_pair ag u c r \<and> ci_default r) (ln_rows s)"
    by (rule find_filter) (use not_default in blast)
  then have "GetDefaultAgentConnectorInstance ag u c (ln_rows s') = GetDefaultAgentConnectorInstance ag u c (ln_rows s)"
    by (simp add: GetDefaultAgentConnectorInstance_def s' delete_rows_def)
  moreover have "GetAgentConnectorInstance ag u c i (ln_rows s') = None"
    by (simp add: GetAgentConnectorInstance_def s' delete_rows_def find_None_iff)
  moreover have "\<not> ?hit g" if "g \<in> set (ln_grants s')" "sa_status g = Active" for g
    using revoke_where_active [of g now ?hit "ln_grants s"] that by (simp add: s')
  ultimately show ?thesis using not_default by (auto simp: s' delete_rows_def)
qed

section \<open>A run\<close>

text \<open>An agent's approver enables a connector, adds a second account and binds a credential to it.\<close>

definition example_owner :: "int \<Rightarrow> string option" where
  "example_owner a = (if a = 7 then Some ''u'' else None)"

definition example_creds :: "string \<Rightarrow> (string \<times> string) option" where
  "example_creds i = (if i = ''cred_1'' then Some (''u'', ''slack'') else None)"

definition slack_row :: "string \<Rightarrow> bool \<Rightarrow> instance_row" where
  "slack_row i d = \<lparr>ci_agent = 7, ci_approver = ''u'', ci_connector = ''slack'', ci_id = i, ci_enabled = 0, ci_default = d\<rparr>"

definition example_assign :: binding_params where
  "example_assign = \<lparr>bp_id = ''acc_1'', bp_agent = 7, bp_connector = ''slack'', bp_instance = ''i2'', bp_approver = ''u'',
     bp_credential = Some ''cred_1'', bp_oauth = None\<rparr>"

definition example_binding :: binding where
  "example_binding = new_binding 0 example_assign"

definition example_links :: "instance_row list \<Rightarrow> binding list \<Rightarrow> links" where
  "example_links rows binds = \<lparr>ln_rows = rows, ln_binds = binds, ln_grants = []\<rparr>"

lemma example_agents: "agents_of example_owner (\<lambda>a u. example_owner a = Some u)"
  by (simp add: agents_of_def)

lemma example_next:
  "links_step owner creds conns s t \<Longrightarrow> reach links_start (links_step owner creds conns) s \<Longrightarrow> reach links_start (links_step owner creds conns) t"
  by (rule reach_step)

lemma example_enabled: "reach links_start (links_step example_owner example_creds (\<lambda>_. None)) (example_links [slack_row ''i1'' True] [])"
proof -
  have "EnableAgentConnector 0 (\<lambda>a u. example_owner a = Some u) (\<lambda>_. True) True ''i1'' 7 ''u'' ''slack'' (ln_rows (example_links [] []))
      = ([slack_row ''i1'' True], Inr (slack_row ''i1'' True))"
    by (simp add: EnableAgentConnector_def insert_instance_def AgentConnectorEnabled_def with_trigger_def slack_row_def example_owner_def
        example_links_def sql_now_def)
  from links_step.enable [OF example_agents this]
  have "links_step example_owner example_creds (\<lambda>_. None) (example_links [] []) (example_links [slack_row ''i1'' True] [])"
    by (simp add: example_links_def)
  moreover have "reach links_start (links_step example_owner example_creds (\<lambda>_. None)) (example_links [] [])"
    by (rule reach_start) (simp add: links_start_def example_links_def)
  ultimately show ?thesis by (rule example_next)
qed

lemma example_added:
  "reach links_start (links_step example_owner example_creds (\<lambda>_. None)) (example_links [slack_row ''i2'' False, slack_row ''i1'' True] [])"
proof -
  have "create_instance_insert 0 (\<lambda>a u. example_owner a = Some u) (\<lambda>_. True) True ''i2'' 7 ''u'' ''slack'' (ln_rows (example_links [slack_row ''i1'' True] []))
      = ([slack_row ''i2'' False, slack_row ''i1'' True], Inr (slack_row ''i2'' False))"
    by (simp add: create_instance_insert_def insert_instance_def with_trigger_def slack_row_def example_owner_def example_links_def sql_now_def
        of_instance_def is_default_of_def)
  from links_step.add [OF example_agents this]
  have "links_step example_owner example_creds (\<lambda>_. None) (example_links [slack_row ''i1'' True] [])
      (example_links [slack_row ''i2'' False, slack_row ''i1'' True] [])"
    by (simp add: example_links_def)
  from example_next [OF this example_enabled] show ?thesis .
qed

lemma example_bound:
  "reach links_start (links_step example_owner example_creds (\<lambda>_. None))
     (example_links [slack_row ''i2'' False, slack_row ''i1'' True] [example_binding])"
proof -
  have "UpsertAgentConnectorCredentialByInstance 0 True example_assign (example_links [slack_row ''i2'' False, slack_row ''i1'' True] [])
      = (example_links [slack_row ''i2'' False, slack_row ''i1'' True] [example_binding], Inr example_binding)"
    by (simp add: UpsertAgentConnectorCredentialByInstance_def example_assign_def example_links_def slack_row_def of_instance_def of_pair_def
        example_binding_def)
  moreover have "validateAssignCredentialRequest example_creds (\<lambda>_. None) (bp_approver example_assign) (bp_connector example_assign)
      (bp_credential example_assign) (bp_oauth example_assign) = None"
    by (simp add: validateAssignCredentialRequest_def check_reference_def example_assign_def example_creds_def)
  ultimately have "links_step example_owner example_creds (\<lambda>_. None) (example_links [slack_row ''i2'' False, slack_row ''i1'' True] [])
      (example_links [slack_row ''i2'' False, slack_row ''i1'' True] [example_binding])"
    by (intro links_step.assign)
  then show ?thesis by (rule example_next [OF _ example_added])
qed

theorem connector_has_one_default_witness:
  "\<exists>d \<in> {slack_row ''i2'' False, slack_row ''i1'' True}. of_pair 7 ''u'' ''slack'' d \<and> ci_default d \<and>
     {e \<in> {slack_row ''i2'' False, slack_row ''i1'' True}. is_default_of 7 ''slack'' e} = {d}"
  using connector_has_one_default [OF example_bound, of "slack_row ''i2'' False"]
  by (auto simp: example_links_def) (auto simp: slack_row_def is_default_of_def of_pair_def)


definition example_wallet :: wallet where
  "example_wallet = \<lparr>label_of = (\<lambda>_. None), extra_of = (\<lambda>_. None), text_of = (\<lambda>_. [])\<rparr>"

definition example_action :: "json gomap" where
  "example_action = [(''type'', JStr ''slack.send''), (''parameters'', JObj [(''connector_instance'', JStr ''i1''), (''text'', JStr ''hi'')])]"

definition example_frozen :: "json gomap" where
  "example_frozen = [(''type'', JStr ''slack.send''), (''parameters'', JObj [(''text'', JStr ''hi'')]),
     (''_connector_instance_id'', JStr ''i1''), (''_connector_instance_display'', JStr [])]"

lemma example_frozen_by:
  "applyConnectorInstanceToAction (\<lambda>i. i = ''i1'') example_wallet (example_links [slack_row ''i1'' True] []) 7 ''u'' (''slack'' @ ''.'' @ ''send'') example_action
     = (example_frozen, Inr ''i1'')"
proof -
  have trim: "trim_space ''i1'' = ''i1''" by code_simp
  have params: "action_params example_action = Inr (Some [(''connector_instance'', JStr ''i1''), (''text'', JStr ''hi'')])"
    by (simp add: action_params_def example_action_def last_wins_def)
  have taken: "take_selector (Some [(''connector_instance'', JStr ''i1''), (''text'', JStr ''hi'')]) example_action
      = (''i1'', [(''type'', JStr ''slack.send''), (''parameters'', JObj [(''text'', JStr ''hi'')])])"
    by (simp add: take_selector_def example_action_def or_empty_def trim)
  have "ListAgentConnectorInstances 7 ''u'' ''slack'' [slack_row ''i1'' True] = [slack_row ''i1'' True]"
    by (simp add: ListAgentConnectorInstances_def slack_row_def of_pair_def)
  then have chosen: "choose_instance (\<lambda>i. i = ''i1'') example_wallet (example_links [slack_row ''i1'' True] []) 7 ''u'' ''slack'' ''i1''
      = Inr (Some (slack_row ''i1'' True))"
    by (simp add: choose_instance_def selected_instance_def ResolveAgentConnectorInstance_def trim GetAgentConnectorInstance_def example_links_def)
      (simp add: slack_row_def of_instance_def of_pair_def)
  have split: "split_action (''slack'' @ ''.'' @ ''send'') = Some (''slack'', ''send'')" by (simp add: split_action_def)
  have "display_of example_wallet [] (slack_row ''i1'' True) = []"
    by (simp add: display_of_def connectorInstanceDisplayNameSQL_def json_extract_def filled_def)
  moreover have "ln_binds (example_links [slack_row ''i1'' True] []) = []" by (simp add: example_links_def)
  ultimately show ?thesis unfolding applyConnectorInstanceToAction_def split params taken chosen option.case sum.case prod.case
    by (simp add: example_frozen_def slack_row_def)
qed

theorem action_instance_frozen_witness:
  "list_ex (of_instance 7 ''u'' ''slack'' ''i1'') [slack_row ''i1'' True] \<and> routed_instance example_frozen = ''i1'' \<and>
   action_params example_frozen = Inr (Some [(''text'', JStr ''hi'')])"
proof -
  have "AgentConnectorEnabled 7 ''u'' ''slack'' (ln_rows (example_links [slack_row ''i1'' True] []))"
    by (simp add: AgentConnectorEnabled_def example_links_def slack_row_def of_pair_def)
  with action_instance_frozen [OF example_frozen_by] show ?thesis
    by (simp add: example_links_def) (simp add: action_params_def example_frozen_def last_wins_def)
qed

theorem unnamed_instance_is_default_witness:
  "snd (applyConnectorInstanceToAction (\<lambda>_. False) example_wallet
     (example_links [slack_row ''i2'' False, slack_row ''i1'' True] [example_binding]) 7 ''u'' (''slack'' @ ''.'' @ ''send'') []) = Inr ''i1''"
proof -
  have "AgentConnectorEnabled 7 ''u'' ''slack'' (ln_rows (example_links [slack_row ''i2'' False, slack_row ''i1'' True] [example_binding]))"
    by (simp add: AgentConnectorEnabled_def example_links_def slack_row_def of_pair_def)
  from unnamed_instance_is_default [OF example_bound this, of "[]" None "\<lambda>_. False" example_wallet "''send''"]
  show ?thesis
    by (simp add: action_params_def take_selector_def)
      (simp add: GetDefaultAgentConnectorInstance_def example_links_def slack_row_def of_pair_def)
qed

theorem display_names_agree_witness:
  "connectorInstanceDisplayNameSQL (\<lambda>_. []) None (Some (JObj [(''email'', JStr ''a@b.c''), (''team_name'', JStr ''T'')])) =
   displayNameFromExtraData (Doc (JObj [(''email'', JStr ''a@b.c''), (''team_name'', JStr ''T'')]))"
  by (rule display_names_agree) simp_all


end
